theory Spec2Isabelle
  imports Complex_Main
begin

section \<open>Zero Of Functions solver: the six iterative methods\<close>

text \<open>
  The six root-finding methods of \<^verbatim>\<open>ZOF_CLI.py\<close> and their duplicates in \<^verbatim>\<open>app.py\<close>.

  Numbers: Python floats are IEEE 754 double-precision numbers. A finite double is
  modelled by the real number it denotes, and every arithmetic operation of the source
  is the exact operation followed by rounding to the nearest double (the
  next subsection). The evaluator built by \<^verbatim>\<open>parse_function\<close> is a total
  function \<^typ>\<open>real \<Rightarrow> real\<close> that returns doubles; the derivative that \<^verbatim>\<open>newton_raphson\<close>
  obtains from sympy is a second such function, taken as a parameter. The loop counter and
  \<^verbatim>\<open>max_iter\<close> are Python ints, hence \<^typ>\<open>int\<close>.

  Exceptions are values of the type \<open>error\<close>:
  \<^item> \<open>InvalidBracket\<close>: \<^verbatim>\<open>ValueError("f(a) and f(b) must have opposite signs ...")\<close>;
  \<^item> \<open>ZeroDenominator\<close>: \<^verbatim>\<open>ZeroDivisionError("Zero denominator in ...")\<close>, raised by the
    secant and modified secant methods;
  \<^item> \<open>ZeroDerivative\<close>: \<^verbatim>\<open>ZeroDivisionError("Zero derivative ...")\<close>, raised by Newton-Raphson;
  \<^item> \<open>FloatDivisionByZero\<close>: the \<^verbatim>\<open>ZeroDivisionError\<close> that Python's own float division
    raises (the unguarded quotient of regula falsi);
  \<^item> \<open>UnboundLocal\<close>: the \<^verbatim>\<open>UnboundLocalError\<close> raised when the \<^verbatim>\<open>return\<close> after the loop
    reads a variable that only the loop body assigns, and the body never ran.
\<close>

datatype error =
  InvalidBracket | ZeroDenominator | ZeroDerivative | FloatDivisionByZero | UnboundLocal

subsection \<open>Double-precision arithmetic\<close>

text \<open>
  \<open>dbl x\<close> is the double nearest to the real number \<open>x\<close>, ties going to the even
  significand, as IEEE 754 prescribes for \<^verbatim>\<open>+\<close>, \<^verbatim>\<open>-\<close>, \<^verbatim>\<open>*\<close> and \<^verbatim>\<open>/\<close>. A double is an
  integer multiple \<open>n \<cdot> 2\<^sup>q\<close> with \<open>\<bar>n\<bar> \<le> 2\<^sup>5\<^sup>3\<close> and \<open>q \<ge> -1074\<close>; for \<open>2\<^sup>e \<le> \<bar>x\<bar> < 2\<^bsup>e+1\<^esup>\<close> the quantum is
  \<open>q = max (e - 52) (-1074)\<close>, which covers the subnormal range, where results underflow
  gradually and finally to zero. The two zeros of IEEE 754 are the one real \<open>0\<close>: they
  compare equal and no operation of the source tells them apart. Not modelled: results
  beyond the largest finite double, for which Python yields an infinity, and NaN. The
  model describes the runs in which every value stays finite.
\<close>

definition round_even :: "real \<Rightarrow> int" where
  "round_even y =
     (let n = \<lfloor>y\<rfloor>;
          r = y - of_int n
      in if r < 1 / 2 then n
         else if 1 / 2 < r then n + 1
         else if even n then n else n + 1)"

text \<open>\<open>scale_down\<close> and \<open>scale_up\<close> find the binary exponent by halving and doubling in steps
  of \<open>2\<^sup>k\<close>, from the largest step to the smallest.\<close>

fun scale_down :: "nat list \<Rightarrow> real \<Rightarrow> int" where
  "scale_down [] x = 0"
| "scale_down (k # ks) x =
     (if 2 ^ k \<le> x then int k + scale_down ks (x / 2 ^ k) else scale_down ks x)"

fun scale_up :: "nat list \<Rightarrow> real \<Rightarrow> int" where
  "scale_up [] x = 0"
| "scale_up (k # ks) x =
     (if x * 2 ^ k < 1 then int k + scale_up ks (x * 2 ^ k) else scale_up ks x)"

text \<open>The exponent \<open>e\<close> with \<open>2\<^sup>e \<le> \<bar>x\<bar> < 2\<^bsup>e+1\<^esup>\<close>, for \<open>2\<^bsup>-2048\<^esup> \<le> \<bar>x\<bar> < 2\<^bsup>1024\<^esup>\<close>.\<close>

definition expo :: "real \<Rightarrow> int" where
  "expo x =
     (if 1 \<le> \<bar>x\<bar> then scale_down [512, 256, 128, 64, 32, 16, 8, 4, 2, 1] \<bar>x\<bar>
      else - (scale_up [1024, 512, 256, 128, 64, 32, 16, 8, 4, 2, 1] \<bar>x\<bar> + 1))"

definition pow2 :: "int \<Rightarrow> real" where
  "pow2 q = (if 0 \<le> q then 2 ^ nat q else 1 / 2 ^ nat (- q))"

definition dbl :: "real \<Rightarrow> real" where
  "dbl x =
     (if x = 0 then 0
      else let q = max (expo x - 52) (- 1074)
           in of_int (round_even (x / pow2 q)) * pow2 q)"

text \<open>The four operations of the source on doubles. Python raises on a division by
  zero; every quotient of the source whose divisor can be zero is guarded in the model.\<close>

definition fadd :: "real \<Rightarrow> real \<Rightarrow> real" where
  "fadd x y = dbl (x + y)"

definition fsub :: "real \<Rightarrow> real \<Rightarrow> real" where
  "fsub x y = dbl (x - y)"

definition fmul :: "real \<Rightarrow> real \<Rightarrow> real" where
  "fmul x y = dbl (x * y)"

definition fdiv :: "real \<Rightarrow> real \<Rightarrow> real" where
  "fdiv x y = dbl (x / y)"

subsection \<open>Iteration rows of \<^verbatim>\<open>ZOF_CLI.py\<close>\<close>

text \<open>
  Each method appends one fixed-shape list per pass; the fields are named after the
  table headers the CLI prints for them.
\<close>

record bracket_row =
  br_iter :: int
  br_a :: real
  br_b :: real
  br_c :: real
  br_fc :: real
  br_error :: real

record secant_row =
  sc_iter :: int
  sc_x0 :: real
  sc_x1 :: real
  sc_x2 :: real
  sc_fx2 :: real
  sc_error :: real

record newton_row =
  nr_iter :: int
  nr_x :: real
  nr_fx :: real
  nr_dfx :: real
  nr_x_new :: real
  nr_error :: real

record fixed_row =
  fp_iter :: int
  fp_x :: real
  fp_gx :: real
  fp_error :: real

record modsec_row =
  ms_iter :: int
  ms_x :: real
  ms_fx :: real
  ms_x_new :: real
  ms_error :: real

text \<open>The outcome of one pass of a loop body: a \<^verbatim>\<open>return\<close> inside the loop, or the loop
  variables for the next pass.\<close>

datatype ('s, 'r) pass = Return 'r | Continue 's

subsection \<open>Bisection (\<^verbatim>\<open>ZOF_CLI.py\<close>, lines 45-63)\<close>

text \<open>
  The body of the \<^verbatim>\<open>for\<close> loop (lines 51-62) on the loop variables \<open>a b fa fb rows\<close>. When it
  falls through, it yields the new \<open>a b fa fb\<close>, the \<open>c\<close> and \<open>fc\<close> it assigned and the rows.
\<close>

definition bisection_body ::
  "(real \<Rightarrow> real) \<Rightarrow> real \<Rightarrow> int \<Rightarrow> real \<Rightarrow> real \<Rightarrow> real \<Rightarrow> real \<Rightarrow> bracket_row list \<Rightarrow>
   (real \<times> real \<times> real \<times> real \<times> real \<times> real \<times> bracket_row list,
    real \<times> real \<times> int \<times> bracket_row list) pass" where
  "bisection_body f tol i a b fa fb rows =
     (let c = fdiv (fadd a b) 2;
          fc = f c;
          error = fdiv \<bar>fsub b a\<bar> 2;
          rows' = rows @ [\<lparr>br_iter = i, br_a = a, br_b = b, br_c = c, br_fc = fc, br_error = error\<rparr>]
      in if \<bar>fc\<bar> < tol \<or> error < tol then Return (c, \<bar>fc\<bar>, i, rows')
         else if fmul fa fc < 0 then Continue (a, c, fa, fc, c, fc, rows')
         else Continue (c, b, fc, fb, c, fc, rows'))"

text \<open>
  The loop \<^verbatim>\<open>for i in range(1, max_iter+1)\<close> and the \<^verbatim>\<open>return\<close> after it (line 63).
  \<open>prev\<close> holds \<open>c\<close> and \<open>fc\<close> once a pass has assigned them.
\<close>

function bisection_loop ::
  "(real \<Rightarrow> real) \<Rightarrow> int \<Rightarrow> real \<Rightarrow> int \<Rightarrow> real \<Rightarrow> real \<Rightarrow> real \<Rightarrow> real \<Rightarrow>
   (real \<times> real) option \<Rightarrow> bracket_row list \<Rightarrow> error + (real \<times> real \<times> int \<times> bracket_row list)" where
  "bisection_loop f max_iter tol i a b fa fb prev rows =
     (if max_iter < i then
        (case prev of
           None \<Rightarrow> Inl UnboundLocal
         | Some (c, fc) \<Rightarrow> Inr (c, \<bar>fc\<bar>, max_iter, rows))
      else
        (case bisection_body f tol i a b fa fb rows of
           Return r \<Rightarrow> Inr r
         | Continue (a', b', fa', fb', c, fc, rows') \<Rightarrow>
             bisection_loop f max_iter tol (i + 1) a' b' fa' fb' (Some (c, fc)) rows'))"
  by pat_completeness auto
termination
  by (relation "measure (\<lambda>(f, max_iter, tol, i, a, b, fa, fb, prev, rows). nat (max_iter + 1 - i))") auto

declare bisection_loop.simps [simp del]

definition bisection_method ::
  "(real \<Rightarrow> real) \<Rightarrow> real \<Rightarrow> real \<Rightarrow> int \<Rightarrow> real \<Rightarrow> error + (real \<times> real \<times> int \<times> bracket_row list)" where
  "bisection_method f a b max_iter tol =
     (let fa = f a; fb = f b
      in if fmul fa fb > 0 then Inl InvalidBracket
         else bisection_loop f max_iter tol 1 a b fa fb None [])"

subsection \<open>Regula falsi (\<^verbatim>\<open>ZOF_CLI.py\<close>, lines 65-84)\<close>

text \<open>
  \<open>c\<close> is assigned before the loop (line 70), \<open>fc\<close> only inside it. The quotient of
  line 72 is not guarded: Python raises when the computed \<open>fb - fa\<close> is zero.
\<close>

function regula_falsi_loop ::
  "(real \<Rightarrow> real) \<Rightarrow> int \<Rightarrow> real \<Rightarrow> int \<Rightarrow> real \<Rightarrow> real \<Rightarrow> real \<Rightarrow> real \<Rightarrow>
   real \<Rightarrow> real option \<Rightarrow> bracket_row list \<Rightarrow> error + (real \<times> real \<times> int \<times> bracket_row list)" where
  "regula_falsi_loop f max_iter tol i a b fa fb c prev rows =
     (if max_iter < i then
        (case prev of
           None \<Rightarrow> Inl UnboundLocal
         | Some fc \<Rightarrow> Inr (c, \<bar>fc\<bar>, max_iter, rows))
      else if fsub fb fa = 0 then Inl FloatDivisionByZero
      else
        (let c = fdiv (fsub (fmul a fb) (fmul b fa)) (fsub fb fa);
             fc = f c;
             error = \<bar>fc\<bar>;
             rows' = rows @ [\<lparr>br_iter = i, br_a = a, br_b = b, br_c = c, br_fc = fc, br_error = error\<rparr>]
         in if \<bar>fc\<bar> < tol then Inr (c, \<bar>fc\<bar>, i, rows')
            else if fmul fa fc < 0 then regula_falsi_loop f max_iter tol (i + 1) a c fa fc c (Some fc) rows'
            else regula_falsi_loop f max_iter tol (i + 1) c b fc fb c (Some fc) rows'))"
  by pat_completeness auto
termination
  by (relation "measure (\<lambda>(f, max_iter, tol, i, a, b, fa, fb, c, prev, rows). nat (max_iter + 1 - i))") auto

declare regula_falsi_loop.simps [simp del]

definition regula_falsi ::
  "(real \<Rightarrow> real) \<Rightarrow> real \<Rightarrow> real \<Rightarrow> int \<Rightarrow> real \<Rightarrow> error + (real \<times> real \<times> int \<times> bracket_row list)" where
  "regula_falsi f a b max_iter tol =
     (let fa = f a; fb = f b
      in if fmul fa fb > 0 then Inl InvalidBracket
         else regula_falsi_loop f max_iter tol 1 a b fa fb a None [])"

subsection \<open>Secant (\<^verbatim>\<open>ZOF_CLI.py\<close>, lines 86-99)\<close>

text \<open>\<open>prev\<close> holds \<open>x2\<close> once a pass has assigned it; line 99 evaluates \<open>f(x2)\<close> again.\<close>

function secant_loop ::
  "(real \<Rightarrow> real) \<Rightarrow> int \<Rightarrow> real \<Rightarrow> int \<Rightarrow> real \<Rightarrow> real \<Rightarrow>
   real option \<Rightarrow> secant_row list \<Rightarrow> error + (real \<times> real \<times> int \<times> secant_row list)" where
  "secant_loop f max_iter tol i x0 x1 prev rows =
     (if max_iter < i then
        (case prev of
           None \<Rightarrow> Inl UnboundLocal
         | Some x2 \<Rightarrow> Inr (x2, \<bar>f x2\<bar>, max_iter, rows))
      else
        (let f0 = f x0;
             f1 = f x1
         in if fsub f1 f0 = 0 then Inl ZeroDenominator
            else
              (let x2 = fsub x1 (fdiv (fmul f1 (fsub x1 x0)) (fsub f1 f0));
                   err = \<bar>fsub x2 x1\<bar>;
                   rows' = rows @ [\<lparr>sc_iter = i, sc_x0 = x0, sc_x1 = x1, sc_x2 = x2,
                                     sc_fx2 = f x2, sc_error = err\<rparr>]
               in if \<bar>f x2\<bar> < tol \<or> err < tol then Inr (x2, \<bar>f x2\<bar>, i, rows')
                  else secant_loop f max_iter tol (i + 1) x1 x2 (Some x2) rows')))"
  by pat_completeness auto
termination
  by (relation "measure (\<lambda>(f, max_iter, tol, i, x0, x1, prev, rows). nat (max_iter + 1 - i))") auto

declare secant_loop.simps [simp del]

definition secant_method ::
  "(real \<Rightarrow> real) \<Rightarrow> real \<Rightarrow> real \<Rightarrow> int \<Rightarrow> real \<Rightarrow> error + (real \<times> real \<times> int \<times> secant_row list)" where
  "secant_method f x0 x1 max_iter tol = secant_loop f max_iter tol 1 x0 x1 None []"

subsection \<open>Newton-Raphson (\<^verbatim>\<open>ZOF_CLI.py\<close>, lines 101-117)\<close>

text \<open>
  \<open>df\<close> stands for \<^verbatim>\<open>sp.lambdify(x_sym, sp.diff(f_expr, x_sym))\<close>. \<open>x\<close> is assigned before the
  loop, \<open>fx\<close> only inside it: \<open>prev\<close> holds \<open>fx\<close>.
\<close>

function newton_loop ::
  "(real \<Rightarrow> real) \<Rightarrow> (real \<Rightarrow> real) \<Rightarrow> int \<Rightarrow> real \<Rightarrow> int \<Rightarrow> real \<Rightarrow>
   real option \<Rightarrow> newton_row list \<Rightarrow> error + (real \<times> real \<times> int \<times> newton_row list)" where
  "newton_loop f df max_iter tol i x prev rows =
     (if max_iter < i then
        (case prev of
           None \<Rightarrow> Inl UnboundLocal
         | Some fx \<Rightarrow> Inr (x, \<bar>fx\<bar>, max_iter, rows))
      else
        (let fx = f x;
             dfx = df x
         in if dfx = 0 then Inl ZeroDerivative
            else
              (let x_new = fsub x (fdiv fx dfx);
                   err = \<bar>fsub x_new x\<bar>;
                   rows' = rows @ [\<lparr>nr_iter = i, nr_x = x, nr_fx = fx, nr_dfx = dfx,
                                     nr_x_new = x_new, nr_error = err\<rparr>]
               in if \<bar>fx\<bar> < tol \<or> err < tol then Inr (x_new, \<bar>fx\<bar>, i, rows')
                  else newton_loop f df max_iter tol (i + 1) x_new (Some fx) rows')))"
  by pat_completeness auto
termination
  by (relation "measure (\<lambda>(f, df, max_iter, tol, i, x, prev, rows). nat (max_iter + 1 - i))") auto

declare newton_loop.simps [simp del]

definition newton_raphson ::
  "(real \<Rightarrow> real) \<Rightarrow> (real \<Rightarrow> real) \<Rightarrow> real \<Rightarrow> int \<Rightarrow> real \<Rightarrow>
   error + (real \<times> real \<times> int \<times> newton_row list)" where
  "newton_raphson f df x0 max_iter tol = newton_loop f df max_iter tol 1 x0 None []"

subsection \<open>Fixed-point iteration (\<^verbatim>\<open>ZOF_CLI.py\<close>, lines 119-129)\<close>

text \<open>\<open>prev\<close> holds \<open>x_new\<close> and \<open>err\<close> once a pass has assigned them.\<close>

function fixed_point_loop ::
  "(real \<Rightarrow> real) \<Rightarrow> int \<Rightarrow> real \<Rightarrow> int \<Rightarrow> real \<Rightarrow>
   (real \<times> real) option \<Rightarrow> fixed_row list \<Rightarrow> error + (real \<times> real \<times> int \<times> fixed_row list)" where
  "fixed_point_loop g max_iter tol i x prev rows =
     (if max_iter < i then
        (case prev of
           None \<Rightarrow> Inl UnboundLocal
         | Some (x_new, err) \<Rightarrow> Inr (x_new, err, max_iter, rows))
      else
        (let x_new = g x;
             err = \<bar>fsub x_new x\<bar>;
             rows' = rows @ [\<lparr>fp_iter = i, fp_x = x, fp_gx = x_new, fp_error = err\<rparr>]
         in if err < tol then Inr (x_new, err, i, rows')
            else fixed_point_loop g max_iter tol (i + 1) x_new (Some (x_new, err)) rows'))"
  by pat_completeness auto
termination
  by (relation "measure (\<lambda>(g, max_iter, tol, i, x, prev, rows). nat (max_iter + 1 - i))") auto

declare fixed_point_loop.simps [simp del]

definition fixed_point_iteration ::
  "(real \<Rightarrow> real) \<Rightarrow> real \<Rightarrow> int \<Rightarrow> real \<Rightarrow> error + (real \<times> real \<times> int \<times> fixed_row list)" where
  "fixed_point_iteration g x0 max_iter tol = fixed_point_loop g max_iter tol 1 x0 None []"

subsection \<open>Modified secant (\<^verbatim>\<open>ZOF_CLI.py\<close>, lines 131-145)\<close>

text \<open>\<open>prev\<close> holds \<open>x_new\<close> and \<open>f_x\<close> once a pass has assigned them.\<close>

function modified_secant_loop ::
  "(real \<Rightarrow> real) \<Rightarrow> real \<Rightarrow> int \<Rightarrow> real \<Rightarrow> int \<Rightarrow> real \<Rightarrow>
   (real \<times> real) option \<Rightarrow> modsec_row list \<Rightarrow> error + (real \<times> real \<times> int \<times> modsec_row list)" where
  "modified_secant_loop f delta max_iter tol i x prev rows =
     (if max_iter < i then
        (case prev of
           None \<Rightarrow> Inl UnboundLocal
         | Some (x_new, f_x) \<Rightarrow> Inr (x_new, \<bar>f_x\<bar>, max_iter, rows))
      else
        (let f_x = f x;
             denom = fsub (f (fadd x delta)) f_x
         in if denom = 0 then Inl ZeroDenominator
            else
              (let x_new = fsub x (fdiv (fmul delta f_x) denom);
                   err = \<bar>fsub x_new x\<bar>;
                   rows' = rows @ [\<lparr>ms_iter = i, ms_x = x, ms_fx = f_x, ms_x_new = x_new,
                                     ms_error = err\<rparr>]
               in if \<bar>f_x\<bar> < tol \<or> err < tol then Inr (x_new, \<bar>f_x\<bar>, i, rows')
                  else modified_secant_loop f delta max_iter tol (i + 1) x_new (Some (x_new, f_x)) rows')))"
  by pat_completeness auto
termination
  by (relation "measure (\<lambda>(f, delta, max_iter, tol, i, x, prev, rows). nat (max_iter + 1 - i))") auto

declare modified_secant_loop.simps [simp del]

definition modified_secant ::
  "(real \<Rightarrow> real) \<Rightarrow> real \<Rightarrow> real \<Rightarrow> int \<Rightarrow> real \<Rightarrow> error + (real \<times> real \<times> int \<times> modsec_row list)" where
  "modified_secant f x0 delta max_iter tol = modified_secant_loop f delta max_iter tol 1 x0 None []"

subsection \<open>The convergence test of each loop, on the row of the pass\<close>

text \<open>
  Each loop tests the values it has just appended to \<open>rows\<close> (lines 55, 76, 96, 114, 126
  and 142 of \<^verbatim>\<open>ZOF_CLI.py\<close>); the tests are restated here on a row.
\<close>

definition bisection_converged :: "real \<Rightarrow> bracket_row \<Rightarrow> bool" where
  "bisection_converged tol r = (\<bar>br_fc r\<bar> < tol \<or> br_error r < tol)"

definition regula_falsi_converged :: "real \<Rightarrow> bracket_row \<Rightarrow> bool" where
  "regula_falsi_converged tol r = (\<bar>br_fc r\<bar> < tol)"

definition secant_converged :: "real \<Rightarrow> secant_row \<Rightarrow> bool" where
  "secant_converged tol r = (\<bar>sc_fx2 r\<bar> < tol \<or> sc_error r < tol)"

definition newton_converged :: "real \<Rightarrow> newton_row \<Rightarrow> bool" where
  "newton_converged tol r = (\<bar>nr_fx r\<bar> < tol \<or> nr_error r < tol)"

definition fixed_point_converged :: "real \<Rightarrow> fixed_row \<Rightarrow> bool" where
  "fixed_point_converged tol r = (fp_error r < tol)"

definition modified_secant_converged :: "real \<Rightarrow> modsec_row \<Rightarrow> bool" where
  "modified_secant_converged tol r = (\<bar>ms_fx r\<bar> < tol \<or> ms_error r < tol)"

subsection \<open>The loop variables of bisection at the start of each pass\<close>

text \<open>
  \<open>bisection_vars f tol a b k\<close> is \<open>(a, b, fa, fb)\<close> after entry (lines 47-49 passed) and \<open>k\<close>
  passes of the loop body that all fell through; \<open>None\<close> when one of them returned.
\<close>

fun bisection_vars ::
  "(real \<Rightarrow> real) \<Rightarrow> real \<Rightarrow> real \<Rightarrow> real \<Rightarrow> nat \<Rightarrow> (real \<times> real \<times> real \<times> real) option" where
  "bisection_vars f tol a b 0 = Some (a, b, f a, f b)"
| "bisection_vars f tol a b (Suc k) =
     (case bisection_vars f tol a b k of
        None \<Rightarrow> None
      | Some (a', b', fa', fb') \<Rightarrow>
          (case bisection_body f tol (int k + 1) a' b' fa' fb' [] of
             Return r \<Rightarrow> None
           | Continue (a'', b'', fa'', fb'', c, fc, rows) \<Rightarrow> Some (a'', b'', fa'', fb'')))"

section \<open>The same six methods in \<^verbatim>\<open>app.py\<close>\<close>

text \<open>
  The web application repeats the six functions. Its rows are tuples, so they are
  tuples here. The only other difference is the text of Newton-Raphson's exception
  message, which the \<open>error\<close> type does not carry.
\<close>

type_synonym row6 = "int \<times> real \<times> real \<times> real \<times> real \<times> real"
type_synonym row5 = "int \<times> real \<times> real \<times> real \<times> real"
type_synonym row4 = "int \<times> real \<times> real \<times> real"

definition app_bisection_body ::
  "(real \<Rightarrow> real) \<Rightarrow> real \<Rightarrow> int \<Rightarrow> real \<Rightarrow> real \<Rightarrow> real \<Rightarrow> real \<Rightarrow> row6 list \<Rightarrow>
   (real \<times> real \<times> real \<times> real \<times> real \<times> real \<times> row6 list,
    real \<times> real \<times> int \<times> row6 list) pass" where
  "app_bisection_body f tol i a b fa fb rows =
     (let c = fdiv (fadd a b) 2;
          fc = f c;
          error = fdiv \<bar>fsub b a\<bar> 2;
          rows' = rows @ [(i, a, b, c, fc, error)]
      in if \<bar>fc\<bar> < tol \<or> error < tol then Return (c, \<bar>fc\<bar>, i, rows')
         else if fmul fa fc < 0 then Continue (a, c, fa, fc, c, fc, rows')
         else Continue (c, b, fc, fb, c, fc, rows'))"

function app_bisection_loop ::
  "(real \<Rightarrow> real) \<Rightarrow> int \<Rightarrow> real \<Rightarrow> int \<Rightarrow> real \<Rightarrow> real \<Rightarrow> real \<Rightarrow> real \<Rightarrow>
   (real \<times> real) option \<Rightarrow> row6 list \<Rightarrow> error + (real \<times> real \<times> int \<times> row6 list)" where
  "app_bisection_loop f max_iter tol i a b fa fb prev rows =
     (if max_iter < i then
        (case prev of
           None \<Rightarrow> Inl UnboundLocal
         | Some (c, fc) \<Rightarrow> Inr (c, \<bar>fc\<bar>, max_iter, rows))
      else
        (case app_bisection_body f tol i a b fa fb rows of
           Return r \<Rightarrow> Inr r
         | Continue (a', b', fa', fb', c, fc, rows') \<Rightarrow>
             app_bisection_loop f max_iter tol (i + 1) a' b' fa' fb' (Some (c, fc)) rows'))"
  by pat_completeness auto
termination
  by (relation "measure (\<lambda>(f, max_iter, tol, i, a, b, fa, fb, prev, rows). nat (max_iter + 1 - i))") auto

declare app_bisection_loop.simps [simp del]

definition app_bisection_method ::
  "(real \<Rightarrow> real) \<Rightarrow> real \<Rightarrow> real \<Rightarrow> int \<Rightarrow> real \<Rightarrow> error + (real \<times> real \<times> int \<times> row6 list)" where
  "app_bisection_method f a b max_iter tol =
     (let fa = f a; fb = f b
      in if fmul fa fb > 0 then Inl InvalidBracket
         else app_bisection_loop f max_iter tol 1 a b fa fb None [])"

fun app_bisection_vars ::
  "(real \<Rightarrow> real) \<Rightarrow> real \<Rightarrow> real \<Rightarrow> real \<Rightarrow> nat \<Rightarrow> (real \<times> real \<times> real \<times> real) option" where
  "app_bisection_vars f tol a b 0 = Some (a, b, f a, f b)"
| "app_bisection_vars f tol a b (Suc k) =
     (case app_bisection_vars f tol a b k of
        None \<Rightarrow> None
      | Some (a', b', fa', fb') \<Rightarrow>
          (case app_bisection_body f tol (int k + 1) a' b' fa' fb' [] of
             Return r \<Rightarrow> None
           | Continue (a'', b'', fa'', fb'', c, fc, rows) \<Rightarrow> Some (a'', b'', fa'', fb'')))"

function app_regula_falsi_loop ::
  "(real \<Rightarrow> real) \<Rightarrow> int \<Rightarrow> real \<Rightarrow> int \<Rightarrow> real \<Rightarrow> real \<Rightarrow> real \<Rightarrow> real \<Rightarrow>
   real \<Rightarrow> real option \<Rightarrow> row6 list \<Rightarrow> error + (real \<times> real \<times> int \<times> row6 list)" where
  "app_regula_falsi_loop f max_iter tol i a b fa fb c prev rows =
     (if max_iter < i then
        (case prev of
           None \<Rightarrow> Inl UnboundLocal
         | Some fc \<Rightarrow> Inr (c, \<bar>fc\<bar>, max_iter, rows))
      else if fsub fb fa = 0 then Inl FloatDivisionByZero
      else
        (let c = fdiv (fsub (fmul a fb) (fmul b fa)) (fsub fb fa);
             fc = f c;
             error = \<bar>fc\<bar>;
             rows' = rows @ [(i, a, b, c, fc, error)]
         in if \<bar>fc\<bar> < tol then Inr (c, \<bar>fc\<bar>, i, rows')
            else if fmul fa fc < 0 then app_regula_falsi_loop f max_iter tol (i + 1) a c fa fc c (Some fc) rows'
            else app_regula_falsi_loop f max_iter tol (i + 1) c b fc fb c (Some fc) rows'))"
  by pat_completeness auto
termination
  by (relation "measure (\<lambda>(f, max_iter, tol, i, a, b, fa, fb, c, prev, rows). nat (max_iter + 1 - i))") auto

declare app_regula_falsi_loop.simps [simp del]

definition app_regula_falsi ::
  "(real \<Rightarrow> real) \<Rightarrow> real \<Rightarrow> real \<Rightarrow> int \<Rightarrow> real \<Rightarrow> error + (real \<times> real \<times> int \<times> row6 list)" where
  "app_regula_falsi f a b max_iter tol =
     (let fa = f a; fb = f b
      in if fmul fa fb > 0 then Inl InvalidBracket
         else app_regula_falsi_loop f max_iter tol 1 a b fa fb a None [])"

function app_secant_loop ::
  "(real \<Rightarrow> real) \<Rightarrow> int \<Rightarrow> real \<Rightarrow> int \<Rightarrow> real \<Rightarrow> real \<Rightarrow>
   real option \<Rightarrow> row6 list \<Rightarrow> error + (real \<times> real \<times> int \<times> row6 list)" where
  "app_secant_loop f max_iter tol i x0 x1 prev rows =
     (if max_iter < i then
        (case prev of
           None \<Rightarrow> Inl UnboundLocal
         | Some x2 \<Rightarrow> Inr (x2, \<bar>f x2\<bar>, max_iter, rows))
      else
        (let f0 = f x0;
             f1 = f x1
         in if fsub f1 f0 = 0 then Inl ZeroDenominator
            else
              (let x2 = fsub x1 (fdiv (fmul f1 (fsub x1 x0)) (fsub f1 f0));
                   err = \<bar>fsub x2 x1\<bar>;
                   rows' = rows @ [(i, x0, x1, x2, f x2, err)]
               in if \<bar>f x2\<bar> < tol \<or> err < tol then Inr (x2, \<bar>f x2\<bar>, i, rows')
                  else app_secant_loop f max_iter tol (i + 1) x1 x2 (Some x2) rows')))"
  by pat_completeness auto
termination
  by (relation "measure (\<lambda>(f, max_iter, tol, i, x0, x1, prev, rows). nat (max_iter + 1 - i))") auto

declare app_secant_loop.simps [simp del]

definition app_secant_method ::
  "(real \<Rightarrow> real) \<Rightarrow> real \<Rightarrow> real \<Rightarrow> int \<Rightarrow> real \<Rightarrow> error + (real \<times> real \<times> int \<times> row6 list)" where
  "app_secant_method f x0 x1 max_iter tol = app_secant_loop f max_iter tol 1 x0 x1 None []"

function app_newton_loop ::
  "(real \<Rightarrow> real) \<Rightarrow> (real \<Rightarrow> real) \<Rightarrow> int \<Rightarrow> real \<Rightarrow> int \<Rightarrow> real \<Rightarrow>
   real option \<Rightarrow> row6 list \<Rightarrow> error + (real \<times> real \<times> int \<times> row6 list)" where
  "app_newton_loop f df max_iter tol i x prev rows =
     (if max_iter < i then
        (case prev of
           None \<Rightarrow> Inl UnboundLocal
         | Some fx \<Rightarrow> Inr (x, \<bar>fx\<bar>, max_iter, rows))
      else
        (let fx = f x;
             dfx = df x
         in if dfx = 0 then Inl ZeroDerivative
            else
              (let x_new = fsub x (fdiv fx dfx);
                   err = \<bar>fsub x_new x\<bar>;
                   rows' = rows @ [(i, x, fx, dfx, x_new, err)]
               in if \<bar>fx\<bar> < tol \<or> err < tol then Inr (x_new, \<bar>fx\<bar>, i, rows')
                  else app_newton_loop f df max_iter tol (i + 1) x_new (Some fx) rows')))"
  by pat_completeness auto
termination
  by (relation "measure (\<lambda>(f, df, max_iter, tol, i, x, prev, rows). nat (max_iter + 1 - i))") auto

declare app_newton_loop.simps [simp del]

definition app_newton_raphson ::
  "(real \<Rightarrow> real) \<Rightarrow> (real \<Rightarrow> real) \<Rightarrow> real \<Rightarrow> int \<Rightarrow> real \<Rightarrow>
   error + (real \<times> real \<times> int \<times> row6 list)" where
  "app_newton_raphson f df x0 max_iter tol = app_newton_loop f df max_iter tol 1 x0 None []"

function app_fixed_point_loop ::
  "(real \<Rightarrow> real) \<Rightarrow> int \<Rightarrow> real \<Rightarrow> int \<Rightarrow> real \<Rightarrow>
   (real \<times> real) option \<Rightarrow> row4 list \<Rightarrow> error + (real \<times> real \<times> int \<times> row4 list)" where
  "app_fixed_point_loop g max_iter tol i x prev rows =
     (if max_iter < i then
        (case prev of
           None \<Rightarrow> Inl UnboundLocal
         | Some (x_new, err) \<Rightarrow> Inr (x_new, err, max_iter, rows))
      else
        (let x_new = g x;
             err = \<bar>fsub x_new x\<bar>;
             rows' = rows @ [(i, x, x_new, err)]
         in if err < tol then Inr (x_new, err, i, rows')
            else app_fixed_point_loop g max_iter tol (i + 1) x_new (Some (x_new, err)) rows'))"
  by pat_completeness auto
termination
  by (relation "measure (\<lambda>(g, max_iter, tol, i, x, prev, rows). nat (max_iter + 1 - i))") auto

declare app_fixed_point_loop.simps [simp del]

definition app_fixed_point_iteration ::
  "(real \<Rightarrow> real) \<Rightarrow> real \<Rightarrow> int \<Rightarrow> real \<Rightarrow> error + (real \<times> real \<times> int \<times> row4 list)" where
  "app_fixed_point_iteration g x0 max_iter tol = app_fixed_point_loop g max_iter tol 1 x0 None []"

function app_modified_secant_loop ::
  "(real \<Rightarrow> real) \<Rightarrow> real \<Rightarrow> int \<Rightarrow> real \<Rightarrow> int \<Rightarrow> real \<Rightarrow>
   (real \<times> real) option \<Rightarrow> row5 list \<Rightarrow> error + (real \<times> real \<times> int \<times> row5 list)" where
  "app_modified_secant_loop f delta max_iter tol i x prev rows =
     (if max_iter < i then
        (case prev of
           None \<Rightarrow> Inl UnboundLocal
         | Some (x_new, f_x) \<Rightarrow> Inr (x_new, \<bar>f_x\<bar>, max_iter, rows))
      else
        (let f_x = f x;
             denom = fsub (f (fadd x delta)) f_x
         in if denom = 0 then Inl ZeroDenominator
            else
              (let x_new = fsub x (fdiv (fmul delta f_x) denom);
                   err = \<bar>fsub x_new x\<bar>;
                   rows' = rows @ [(i, x, f_x, x_new, err)]
               in if \<bar>f_x\<bar> < tol \<or> err < tol then Inr (x_new, \<bar>f_x\<bar>, i, rows')
                  else app_modified_secant_loop f delta max_iter tol (i + 1) x_new (Some (x_new, f_x)) rows')))"
  by pat_completeness auto
termination
  by (relation "measure (\<lambda>(f, delta, max_iter, tol, i, x, prev, rows). nat (max_iter + 1 - i))") auto

declare app_modified_secant_loop.simps [simp del]

definition app_modified_secant ::
  "(real \<Rightarrow> real) \<Rightarrow> real \<Rightarrow> real \<Rightarrow> int \<Rightarrow> real \<Rightarrow> error + (real \<times> real \<times> int \<times> row5 list)" where
  "app_modified_secant f x0 delta max_iter tol = app_modified_secant_loop f delta max_iter tol 1 x0 None []"

subsection \<open>The entries of a CLI row, in the order of the list\<close>

definition bracket_entries :: "bracket_row \<Rightarrow> row6" where
  "bracket_entries r = (br_iter r, br_a r, br_b r, br_c r, br_fc r, br_error r)"

definition secant_entries :: "secant_row \<Rightarrow> row6" where
  "secant_entries r = (sc_iter r, sc_x0 r, sc_x1 r, sc_x2 r, sc_fx2 r, sc_error r)"

definition newton_entries :: "newton_row \<Rightarrow> row6" where
  "newton_entries r = (nr_iter r, nr_x r, nr_fx r, nr_dfx r, nr_x_new r, nr_error r)"

definition fixed_entries :: "fixed_row \<Rightarrow> row4" where
  "fixed_entries r = (fp_iter r, fp_x r, fp_gx r, fp_error r)"

definition modsec_entries :: "modsec_row \<Rightarrow> row5" where
  "modsec_entries r = (ms_iter r, ms_x r, ms_fx r, ms_x_new r, ms_error r)"

text \<open>A CLI outcome with every row replaced by its entries: the error, or the root, the
  final error, the iteration count and the rows.\<close>

definition with_entries ::
  "('r \<Rightarrow> 't) \<Rightarrow> error + (real \<times> real \<times> int \<times> 'r list) \<Rightarrow> error + (real \<times> real \<times> int \<times> 't list)" where
  "with_entries entries res =
     (case res of
        Inl e \<Rightarrow> Inl e
      | Inr (x_root, final_err, iters, rows) \<Rightarrow> Inr (x_root, final_err, iters, map entries rows))"

section \<open>The loop variables at the start of each pass\<close>

text \<open>
  For the four methods with a failure branch inside the loop, the variables with which
  pass \<open>k + 1\<close> starts when the loop is entered with the given ones; \<open>None\<close> when an earlier
  pass returned or raised. Each equation for \<open>Suc k\<close> is one pass of the loop body without
  its rows.
\<close>

fun regula_falsi_vars ::
  "(real \<Rightarrow> real) \<Rightarrow> real \<Rightarrow> real \<Rightarrow> real \<Rightarrow> real \<Rightarrow> real \<Rightarrow> nat \<Rightarrow> (real \<times> real \<times> real \<times> real) option" where
  "regula_falsi_vars f tol a b fa fb 0 = Some (a, b, fa, fb)"
| "regula_falsi_vars f tol a b fa fb (Suc k) =
     (if fsub fb fa = 0 then None
      else
        (let c = fdiv (fsub (fmul a fb) (fmul b fa)) (fsub fb fa);
             fc = f c
         in if \<bar>fc\<bar> < tol then None
            else if fmul fa fc < 0 then regula_falsi_vars f tol a c fa fc k
            else regula_falsi_vars f tol c b fc fb k))"

fun secant_vars ::
  "(real \<Rightarrow> real) \<Rightarrow> real \<Rightarrow> real \<Rightarrow> real \<Rightarrow> nat \<Rightarrow> (real \<times> real) option" where
  "secant_vars f tol x0 x1 0 = Some (x0, x1)"
| "secant_vars f tol x0 x1 (Suc k) =
     (let f0 = f x0;
          f1 = f x1
      in if fsub f1 f0 = 0 then None
         else
           (let x2 = fsub x1 (fdiv (fmul f1 (fsub x1 x0)) (fsub f1 f0));
                err = \<bar>fsub x2 x1\<bar>
            in if \<bar>f x2\<bar> < tol \<or> err < tol then None
               else secant_vars f tol x1 x2 k))"

fun newton_vars ::
  "(real \<Rightarrow> real) \<Rightarrow> (real \<Rightarrow> real) \<Rightarrow> real \<Rightarrow> real \<Rightarrow> nat \<Rightarrow> real option" where
  "newton_vars f df tol x 0 = Some x"
| "newton_vars f df tol x (Suc k) =
     (let fx = f x;
          dfx = df x
      in if dfx = 0 then None
         else
           (let x_new = fsub x (fdiv fx dfx);
                err = \<bar>fsub x_new x\<bar>
            in if \<bar>fx\<bar> < tol \<or> err < tol then None
               else newton_vars f df tol x_new k))"

fun modified_secant_vars ::
  "(real \<Rightarrow> real) \<Rightarrow> real \<Rightarrow> real \<Rightarrow> real \<Rightarrow> nat \<Rightarrow> real option" where
  "modified_secant_vars f delta tol x 0 = Some x"
| "modified_secant_vars f delta tol x (Suc k) =
     (let f_x = f x;
          denom = fsub (f (fadd x delta)) f_x
      in if denom = 0 then None
         else
           (let x_new = fsub x (fdiv (fmul delta f_x) denom);
                err = \<bar>fsub x_new x\<bar>
            in if \<bar>f_x\<bar> < tol \<or> err < tol then None
               else modified_secant_vars f delta tol x_new k))"

text \<open>
  A pass of bisection computes without rounding when the sum and the difference of its
  endpoints and their halves are doubles, so that rounding leaves them unchanged.
\<close>

definition bisection_pass_exact :: "bracket_row \<Rightarrow> bool" where
  "bisection_pass_exact r =
     (fadd (br_a r) (br_b r) = br_a r + br_b r
    \<and> fdiv (br_a r + br_b r) 2 = (br_a r + br_b r) / 2
    \<and> fsub (br_b r) (br_a r) = br_b r - br_a r
    \<and> fdiv \<bar>br_b r - br_a r\<bar> 2 = \<bar>br_b r - br_a r\<bar> / 2)"

section \<open>Evaluators used in the examples\<close>

text \<open>
  Evaluators as the methods take them in the parameter \<open>f\<close> or \<open>g\<close>: total functions on
  doubles, computed in double-precision arithmetic. They are \<open>x\<close>, \<open>2\<cdot>x\<close>, \<open>x\<^sup>2 - 1\<close>,
  \<open>x\<^sup>2 - 2\<close>, \<open>x\<cdot>2\<^bsup>-540\<^esup>\<close>, \<open>x - 0.17\<close> (the literal being the double nearest to \<open>17/100\<close>)
  and the step function that is \<open>-2\<^bsup>-600\<^esup>\<close> below zero and \<open>2\<^bsup>-600\<^esup>\<close> from zero on.
\<close>

definition ex_id :: "real \<Rightarrow> real" where
  "ex_id x = x"

definition ex_double :: "real \<Rightarrow> real" where
  "ex_double x = fmul 2 x"

definition ex_sq_m1 :: "real \<Rightarrow> real" where
  "ex_sq_m1 x = fsub (fmul x x) 1"

definition ex_sq_m2 :: "real \<Rightarrow> real" where
  "ex_sq_m2 x = fsub (fmul x x) 2"

definition ex_tiny :: "real \<Rightarrow> real" where
  "ex_tiny x = fmul x (1 / 2 ^ 540)"

definition ex_shift :: "real \<Rightarrow> real" where
  "ex_shift x = fsub x (dbl (17 / 100))"

definition ex_step :: "real \<Rightarrow> real" where
  "ex_step x = (if x < 0 then - (1 / 2 ^ 600) else 1 / 2 ^ 600)"

section \<open>Properties of the rounding\<close>

text \<open>
  Rounding keeps the sign: a value that is not negative rounds to one that is not
  negative, and a value that is not positive to one that is not positive. A product of
  two doubles of opposite signs can round to zero, never to a positive double.
\<close>

lemma pow2_pos: "0 < pow2 q"
  by (simp add: pow2_def)

lemma round_even_nonneg:
  assumes "0 \<le> y"
  shows "0 \<le> round_even y"
proof -
  from assms have "0 \<le> \<lfloor>y\<rfloor>" by simp
  then show ?thesis by (simp add: round_even_def Let_def)
qed

lemma dbl_zero: "dbl 0 = 0"
  by (simp add: dbl_def)

lemma dbl_nonneg:
  assumes "0 \<le> x"
  shows "0 \<le> dbl x"
proof (cases "x = 0")
  case True
  then show ?thesis by (simp add: dbl_def)
next
  case False
  define q where "q = max (expo x - 52) (- 1074)"
  from assms pow2_pos[of q] have "0 \<le> x / pow2 q" by simp
  then have "0 \<le> round_even (x / pow2 q)" by (rule round_even_nonneg)
  with pow2_pos[of q] have "0 \<le> of_int (round_even (x / pow2 q)) * pow2 q" by simp
  with False show ?thesis by (simp add: dbl_def Let_def q_def)
qed

lemma fsub_self: "fsub x x = 0"
  by (simp add: fsub_def dbl_zero)

lemma half_width_nonneg: "0 \<le> fdiv \<bar>x\<bar> 2"
  unfolding fdiv_def by (rule dbl_nonneg) simp

lemma round_even_nonpos:
  assumes "y \<le> 0"
  shows "round_even y \<le> 0"
proof (cases "y = 0")
  case True
  then show ?thesis by (simp add: round_even_def)
next
  case False
  with assms have "y < 0" by simp
  then have "y < 1" by simp
  with \<open>y < 0\<close> show ?thesis
    by (simp add: round_even_def Let_def floor_le_iff)
qed

lemma dbl_nonpos:
  assumes "x \<le> 0"
  shows "dbl x \<le> 0"
proof (cases "x = 0")
  case True
  then show ?thesis by (simp add: dbl_def)
next
  case False
  define q where "q = max (expo x - 52) (- 1074)"
  from assms pow2_pos[of q] have "x / pow2 q \<le> 0" by (simp add: divide_le_0_iff)
  then have "round_even (x / pow2 q) \<le> 0" by (rule round_even_nonpos)
  then have "(of_int (round_even (x / pow2 q)) :: real) \<le> 0" by simp
  with pow2_pos[of q] have "of_int (round_even (x / pow2 q)) * pow2 q \<le> 0"
    by (simp add: mult_le_0_iff)
  with False show ?thesis by (simp add: dbl_def Let_def q_def)
qed

lemma negative_product_passes:
  assumes "x * y < 0"
  shows "\<not> 0 < fmul x y"
proof -
  from assms have "x * y \<le> 0" by simp
  then have "dbl (x * y) \<le> 0" by (rule dbl_nonpos)
  then show ?thesis by (simp add: fmul_def)
qed

text \<open>
  Evaluation of the arithmetic at constants: the definitions, instantiated to the shapes
  of a rational constant, so that they unfold on constants only.
\<close>

lemmas dbl_eval =
  dbl_def[of "numeral a" for a] dbl_def[of "- numeral a" for a]
  dbl_def[of "numeral a / numeral b" for a b] dbl_def[of "- (numeral a / numeral b)" for a b]
  dbl_def[of "1 / numeral b" for b] dbl_def[of "- (1 / numeral b)" for b]
  dbl_def[of 1] dbl_def[of "- 1"] dbl_zero
  expo_def[of "numeral a" for a] expo_def[of "- numeral a" for a]
  expo_def[of "numeral a / numeral b" for a b] expo_def[of "- (numeral a / numeral b)" for a b]
  expo_def[of "1 / numeral b" for b] expo_def[of "- (1 / numeral b)" for b]
  expo_def[of 1] expo_def[of "- 1"]
  round_even_def[of "numeral a" for a] round_even_def[of "- numeral a" for a]
  round_even_def[of "numeral a / numeral b" for a b] round_even_def[of "- (numeral a / numeral b)" for a b]
  round_even_def[of "1 / numeral b" for b] round_even_def[of "- (1 / numeral b)" for b]
  round_even_def[of 1] round_even_def[of "- 1"] round_even_def[of 0]
  pow2_def[of "numeral a" for a] pow2_def[of "- numeral a" for a] pow2_def[of 0] pow2_def[of 1]
  pow2_def[of "- 1"]
  fadd_def fsub_def fmul_def fdiv_def Let_def

section \<open>Properties of the loops\<close>

text \<open>
  What a loop returns, when it returns; which errors it can raise; that the loops of
  \<^verbatim>\<open>app.py\<close> compute what those of \<^verbatim>\<open>ZOF_CLI.py\<close> compute.
\<close>

lemma bisection_loop_post:
  assumes "bisection_loop f max_iter tol i a b fa fb prev rows = Inr (r, e, it, rows')"
    and "1 \<le> i" and "i \<le> max_iter + 1" and "length rows = nat (i - 1)"
    and "prev = (if 1 < i then Some (br_c (last rows), br_fc (last rows)) else None)"
  shows "rows' \<noteq> [] \<and> length rows' = nat it \<and> 1 \<le> it \<and> it \<le> max_iter
     \<and> r = br_c (last rows') \<and> e = \<bar>br_fc (last rows')\<bar>
     \<and> (bisection_converged tol (last rows') \<and> 0 \<le> br_error (last rows') \<or> it = max_iter)"
  using assms
proof (induction f max_iter tol i a b fa fb prev rows rule: bisection_loop.induct)
  case (1 f max_iter tol i a b fa fb prev rows)
  show ?case
  proof (cases "max_iter < i")
    case True
    have unf: "bisection_loop f max_iter tol i a b fa fb prev rows =
        (case prev of None \<Rightarrow> Inl UnboundLocal | Some (c, fc) \<Rightarrow> Inr (c, \<bar>fc\<bar>, max_iter, rows))"
      using True by (simp add: bisection_loop.simps[of f max_iter tol i])
    from True "1.prems" have i: "i = max_iter + 1" by simp
    show ?thesis
    proof (cases "1 < i")
      case True
      with "1.prems" i unf show ?thesis
        by (auto split: option.splits)
    next
      case False
      with "1.prems" i unf show ?thesis
        by (auto split: option.splits)
    qed
  next
    case False
    let ?row = "\<lparr>br_iter = i, br_a = a, br_b = b, br_c = fdiv (fadd a b) 2, br_fc = f (fdiv (fadd a b) 2),
                 br_error = fdiv \<bar>fsub b a\<bar> 2\<rparr>"
    show ?thesis
    proof (cases "bisection_body f tol i a b fa fb rows")
      case (Return res)
      then have "res = (r, e, it, rows')"
        using "1.prems"(1) False by (simp add: bisection_loop.simps[of f max_iter tol i])
      with Return have "rows' = rows @ [?row] \<and> it = i \<and> r = fdiv (fadd a b) 2 \<and> e = \<bar>f (fdiv (fadd a b) 2)\<bar>
          \<and> bisection_converged tol ?row"
        by (auto simp: bisection_body_def Let_def bisection_converged_def split: if_splits)
      with False "1.prems" show ?thesis
        by (auto simp: nat_add_distrib half_width_nonneg)
    next
      case (Continue st)
      obtain a' b' fa' fb' c fc rows2 where st: "st = (a', b', fa', fb', c, fc, rows2)"
        by (cases st) auto
      from Continue st have body: "rows2 = rows @ [?row] \<and> c = fdiv (fadd a b) 2 \<and> fc = f (fdiv (fadd a b) 2)"
        by (auto simp: bisection_body_def Let_def split: if_splits)
      have eq: "bisection_loop f max_iter tol (i + 1) a' b' fa' fb' (Some (c, fc)) rows2 = Inr (r, e, it, rows')"
        using "1.prems"(1) False Continue st by (simp add: bisection_loop.simps[of f max_iter tol i])
      show ?thesis
        apply (rule "1.IH"[OF False Continue st[symmetric] refl refl refl refl refl eq])
        using False "1.prems" body by (auto simp: nat_add_distrib)
    qed
  qed
qed

lemma regula_falsi_loop_post:
  assumes "regula_falsi_loop f max_iter tol i a b fa fb c prev rows = Inr (r, e, it, rows')"
    and "1 \<le> i" and "i \<le> max_iter + 1" and "length rows = nat (i - 1)"
    and "prev = (if 1 < i then Some (br_fc (last rows)) else None)"
    and "1 < i \<longrightarrow> c = br_c (last rows)"
  shows "rows' \<noteq> [] \<and> length rows' = nat it \<and> 1 \<le> it \<and> it \<le> max_iter
     \<and> r = br_c (last rows') \<and> e = \<bar>br_fc (last rows')\<bar>
     \<and> (regula_falsi_converged tol (last rows') \<or> it = max_iter)"
  using assms
proof (induction f max_iter tol i a b fa fb c prev rows rule: regula_falsi_loop.induct)
  case (1 f max_iter tol i a b fa fb c prev rows)
  show ?case
  proof (cases "max_iter < i")
    case True
    have unf: "regula_falsi_loop f max_iter tol i a b fa fb c prev rows =
        (case prev of None \<Rightarrow> Inl UnboundLocal | Some fc \<Rightarrow> Inr (c, \<bar>fc\<bar>, max_iter, rows))"
      using True by (simp add: regula_falsi_loop.simps[of f max_iter tol i])
    from True "1.prems" have i: "i = max_iter + 1" by simp
    show ?thesis
    proof (cases "1 < i")
      case True
      with "1.prems" i unf show ?thesis
        by (auto split: option.splits)
    next
      case False
      with "1.prems" i unf show ?thesis
        by (auto split: option.splits)
    qed
  next
    case False
    define c' where "c' = fdiv (fsub (fmul a fb) (fmul b fa)) (fsub fb fa)"
    let ?rows = "rows @ [\<lparr>br_iter = i, br_a = a, br_b = b, br_c = c', br_fc = f c', br_error = \<bar>f c'\<bar>\<rparr>]"
    have unf: "regula_falsi_loop f max_iter tol i a b fa fb c prev rows =
        (if fsub fb fa = 0 then Inl FloatDivisionByZero
         else if \<bar>f c'\<bar> < tol then Inr (c', \<bar>f c'\<bar>, i, ?rows)
         else if fmul fa (f c') < 0 then regula_falsi_loop f max_iter tol (i + 1) a c' fa (f c') c' (Some (f c')) ?rows
         else regula_falsi_loop f max_iter tol (i + 1) c' b (f c') fb c' (Some (f c')) ?rows)"
      using False by (simp add: regula_falsi_loop.simps[of f max_iter tol i] Let_def c'_def)
    from unf "1.prems"(1) have nz: "fsub fb fa \<noteq> 0" by auto
    show ?thesis
    proof (cases "\<bar>f c'\<bar> < tol")
      case True
      with unf nz "1.prems"(1) have "rows' = ?rows \<and> it = i \<and> r = c' \<and> e = \<bar>f c'\<bar>" by simp
      with True False "1.prems" show ?thesis
        by (auto simp: nat_add_distrib regula_falsi_converged_def)
    next
      case nc: False
      show ?thesis
      proof (cases "fmul fa (f c') < 0")
        case True
        have eq: "regula_falsi_loop f max_iter tol (i + 1) a c' fa (f c') c' (Some (f c')) ?rows = Inr (r, e, it, rows')"
          using unf nz nc True "1.prems"(1) by simp
        show ?thesis
          apply (rule "1.IH"(1)[OF False nz c'_def refl refl refl nc True eq])
          using False "1.prems" by (auto simp: nat_add_distrib)
      next
        case f: False
        have eq: "regula_falsi_loop f max_iter tol (i + 1) c' b (f c') fb c' (Some (f c')) ?rows = Inr (r, e, it, rows')"
          using unf nz nc f "1.prems"(1) by simp
        show ?thesis
          apply (rule "1.IH"(2)[OF False nz c'_def refl refl refl nc f eq])
          using False "1.prems" by (auto simp: nat_add_distrib)
      qed
    qed
  qed
qed

lemma secant_loop_post:
  assumes "secant_loop f max_iter tol i x0 x1 prev rows = Inr (r, e, it, rows')"
    and "1 \<le> i" and "i \<le> max_iter + 1" and "length rows = nat (i - 1)"
    and "prev = (if 1 < i then Some (sc_x2 (last rows)) else None)"
    and "1 < i \<longrightarrow> sc_fx2 (last rows) = f (sc_x2 (last rows))"
  shows "rows' \<noteq> [] \<and> length rows' = nat it \<and> 1 \<le> it \<and> it \<le> max_iter
     \<and> r = sc_x2 (last rows') \<and> e = \<bar>sc_fx2 (last rows')\<bar>
     \<and> (secant_converged tol (last rows') \<and> 0 \<le> sc_error (last rows') \<or> it = max_iter)"
  using assms
proof (induction f max_iter tol i x0 x1 prev rows rule: secant_loop.induct)
  case (1 f max_iter tol i x0 x1 prev rows)
  show ?case
  proof (cases "max_iter < i")
    case True
    have unf: "secant_loop f max_iter tol i x0 x1 prev rows =
        (case prev of None \<Rightarrow> Inl UnboundLocal | Some x2 \<Rightarrow> Inr (x2, \<bar>f x2\<bar>, max_iter, rows))"
      using True by (simp add: secant_loop.simps[of f max_iter tol i])
    from True "1.prems" have i: "i = max_iter + 1" by simp
    show ?thesis
    proof (cases "1 < i")
      case True
      with "1.prems" i unf show ?thesis
        by (auto split: option.splits)
    next
      case False
      with "1.prems" i unf show ?thesis
        by (auto split: option.splits)
    qed
  next
    case False
    define x2 where "x2 = fsub x1 (fdiv (fmul (f x1) (fsub x1 x0)) (fsub (f x1) (f x0)))"
    let ?rows = "rows @ [\<lparr>sc_iter = i, sc_x0 = x0, sc_x1 = x1, sc_x2 = x2, sc_fx2 = f x2, sc_error = \<bar>fsub x2 x1\<bar>\<rparr>]"
    have unf: "secant_loop f max_iter tol i x0 x1 prev rows =
        (if fsub (f x1) (f x0) = 0 then Inl ZeroDenominator
         else if \<bar>f x2\<bar> < tol \<or> \<bar>fsub x2 x1\<bar> < tol then Inr (x2, \<bar>f x2\<bar>, i, ?rows)
         else secant_loop f max_iter tol (i + 1) x1 x2 (Some x2) ?rows)"
      using False by (simp add: secant_loop.simps[of f max_iter tol i] Let_def x2_def)
    from unf "1.prems"(1) have nz: "fsub (f x1) (f x0) \<noteq> 0" by auto
    show ?thesis
    proof (cases "\<bar>f x2\<bar> < tol \<or> \<bar>fsub x2 x1\<bar> < tol")
      case True
      with unf nz "1.prems"(1) have "rows' = ?rows \<and> it = i \<and> r = x2 \<and> e = \<bar>f x2\<bar>" by auto
      with True False "1.prems" show ?thesis
        by (auto simp: nat_add_distrib secant_converged_def)
    next
      case nc: False
      have eq: "secant_loop f max_iter tol (i + 1) x1 x2 (Some x2) ?rows = Inr (r, e, it, rows')"
        using unf nz nc "1.prems"(1) by simp
      show ?thesis
        apply (rule "1.IH"[OF False refl refl nz x2_def refl refl nc eq])
        using False "1.prems" by (auto simp: nat_add_distrib)
    qed
  qed
qed

lemma newton_loop_post:
  assumes "newton_loop f df max_iter tol i x prev rows = Inr (r, e, it, rows')"
    and "1 \<le> i" and "i \<le> max_iter + 1" and "length rows = nat (i - 1)"
    and "prev = (if 1 < i then Some (nr_fx (last rows)) else None)"
    and "1 < i \<longrightarrow> x = nr_x_new (last rows)"
  shows "rows' \<noteq> [] \<and> length rows' = nat it \<and> 1 \<le> it \<and> it \<le> max_iter
     \<and> r = nr_x_new (last rows') \<and> e = \<bar>nr_fx (last rows')\<bar>
     \<and> (newton_converged tol (last rows') \<and> 0 \<le> nr_error (last rows') \<or> it = max_iter)"
  using assms
proof (induction f df max_iter tol i x prev rows rule: newton_loop.induct)
  case (1 f df max_iter tol i x prev rows)
  show ?case
  proof (cases "max_iter < i")
    case True
    have unf: "newton_loop f df max_iter tol i x prev rows =
        (case prev of None \<Rightarrow> Inl UnboundLocal | Some fx \<Rightarrow> Inr (x, \<bar>fx\<bar>, max_iter, rows))"
      using True by (simp add: newton_loop.simps[of f df max_iter tol i])
    from True "1.prems" have i: "i = max_iter + 1" by simp
    show ?thesis
    proof (cases "1 < i")
      case True
      with "1.prems" i unf show ?thesis
        by (auto split: option.splits)
    next
      case False
      with "1.prems" i unf show ?thesis
        by (auto split: option.splits)
    qed
  next
    case False
    define x_new where "x_new = fsub x (fdiv (f x) (df x))"
    let ?rows = "rows @ [\<lparr>nr_iter = i, nr_x = x, nr_fx = f x, nr_dfx = df x, nr_x_new = x_new,
                          nr_error = \<bar>fsub x_new x\<bar>\<rparr>]"
    have unf: "newton_loop f df max_iter tol i x prev rows =
        (if df x = 0 then Inl ZeroDerivative
         else if \<bar>f x\<bar> < tol \<or> \<bar>fsub x_new x\<bar> < tol then Inr (x_new, \<bar>f x\<bar>, i, ?rows)
         else newton_loop f df max_iter tol (i + 1) x_new (Some (f x)) ?rows)"
      using False by (simp add: newton_loop.simps[of f df max_iter tol i] Let_def x_new_def)
    from unf "1.prems"(1) have nz: "df x \<noteq> 0" by auto
    show ?thesis
    proof (cases "\<bar>f x\<bar> < tol \<or> \<bar>fsub x_new x\<bar> < tol")
      case True
      with unf nz "1.prems"(1) have "rows' = ?rows \<and> it = i \<and> r = x_new \<and> e = \<bar>f x\<bar>" by auto
      with True False "1.prems" show ?thesis
        by (auto simp: nat_add_distrib newton_converged_def)
    next
      case nc: False
      have eq: "newton_loop f df max_iter tol (i + 1) x_new (Some (f x)) ?rows = Inr (r, e, it, rows')"
        using unf nz nc "1.prems"(1) by simp
      show ?thesis
        apply (rule "1.IH"[OF False refl refl nz x_new_def refl refl nc eq])
        using False "1.prems" by (auto simp: nat_add_distrib)
    qed
  qed
qed

lemma modified_secant_loop_post:
  assumes "modified_secant_loop f delta max_iter tol i x prev rows = Inr (r, e, it, rows')"
    and "1 \<le> i" and "i \<le> max_iter + 1" and "length rows = nat (i - 1)"
    and "prev = (if 1 < i then Some (ms_x_new (last rows), ms_fx (last rows)) else None)"
  shows "rows' \<noteq> [] \<and> length rows' = nat it \<and> 1 \<le> it \<and> it \<le> max_iter
     \<and> r = ms_x_new (last rows') \<and> e = \<bar>ms_fx (last rows')\<bar>
     \<and> (modified_secant_converged tol (last rows') \<and> 0 \<le> ms_error (last rows') \<or> it = max_iter)"
  using assms
proof (induction f delta max_iter tol i x prev rows rule: modified_secant_loop.induct)
  case (1 f delta max_iter tol i x prev rows)
  show ?case
  proof (cases "max_iter < i")
    case True
    have unf: "modified_secant_loop f delta max_iter tol i x prev rows =
        (case prev of None \<Rightarrow> Inl UnboundLocal
         | Some (x_new, f_x) \<Rightarrow> Inr (x_new, \<bar>f_x\<bar>, max_iter, rows))"
      using True by (simp add: modified_secant_loop.simps[of f delta max_iter tol i])
    from True "1.prems" have i: "i = max_iter + 1" by simp
    show ?thesis
    proof (cases "1 < i")
      case True
      with "1.prems" i unf show ?thesis
        by (auto split: option.splits)
    next
      case False
      with "1.prems" i unf show ?thesis
        by (auto split: option.splits)
    qed
  next
    case False
    define x_new where "x_new = fsub x (fdiv (fmul delta (f x)) (fsub (f (fadd x delta)) (f x)))"
    let ?rows = "rows @ [\<lparr>ms_iter = i, ms_x = x, ms_fx = f x, ms_x_new = x_new,
                          ms_error = \<bar>fsub x_new x\<bar>\<rparr>]"
    have unf: "modified_secant_loop f delta max_iter tol i x prev rows =
        (if fsub (f (fadd x delta)) (f x) = 0 then Inl ZeroDenominator
         else if \<bar>f x\<bar> < tol \<or> \<bar>fsub x_new x\<bar> < tol then Inr (x_new, \<bar>f x\<bar>, i, ?rows)
         else modified_secant_loop f delta max_iter tol (i + 1) x_new (Some (x_new, f x)) ?rows)"
      using False by (simp add: modified_secant_loop.simps[of f delta max_iter tol i] Let_def x_new_def)
    from unf "1.prems"(1) have nz: "fsub (f (fadd x delta)) (f x) \<noteq> 0" by auto
    show ?thesis
    proof (cases "\<bar>f x\<bar> < tol \<or> \<bar>fsub x_new x\<bar> < tol")
      case True
      with unf nz "1.prems"(1) have "rows' = ?rows \<and> it = i \<and> r = x_new \<and> e = \<bar>f x\<bar>" by auto
      with True False "1.prems" show ?thesis
        by (auto simp: nat_add_distrib modified_secant_converged_def)
    next
      case nc: False
      have eq: "modified_secant_loop f delta max_iter tol (i + 1) x_new (Some (x_new, f x)) ?rows
                  = Inr (r, e, it, rows')"
        using unf nz nc "1.prems"(1) by simp
      show ?thesis
        apply (rule "1.IH"[OF False refl refl nz x_new_def refl refl nc eq])
        using False "1.prems" by (auto simp: nat_add_distrib)
    qed
  qed
qed

lemma fixed_point_loop_post:
  assumes "fixed_point_loop g max_iter tol i x prev rows = Inr (r, e, it, rows')"
    and "1 \<le> i" and "i \<le> max_iter + 1" and "length rows = nat (i - 1)"
    and "prev = (if 1 < i then Some (fp_gx (last rows), fp_error (last rows)) else None)"
  shows "rows' \<noteq> [] \<and> length rows' = nat it \<and> 1 \<le> it \<and> it \<le> max_iter
     \<and> r = fp_gx (last rows') \<and> e = fp_error (last rows')
     \<and> (fixed_point_converged tol (last rows') \<and> 0 \<le> fp_error (last rows') \<or> it = max_iter)"
  using assms
proof (induction g max_iter tol i x prev rows rule: fixed_point_loop.induct)
  case (1 g max_iter tol i x prev rows)
  show ?case
  proof (cases "max_iter < i")
    case True
    have unf: "fixed_point_loop g max_iter tol i x prev rows =
        (case prev of None \<Rightarrow> Inl UnboundLocal | Some (x_new, err) \<Rightarrow> Inr (x_new, err, max_iter, rows))"
      using True by (simp add: fixed_point_loop.simps[of g max_iter tol i])
    from True "1.prems" have i: "i = max_iter + 1" by simp
    show ?thesis
    proof (cases "1 < i")
      case True
      with "1.prems" i unf show ?thesis
        by (auto split: option.splits)
    next
      case False
      with "1.prems" i unf show ?thesis
        by (auto split: option.splits)
    qed
  next
    case False
    show ?thesis
    proof (cases "\<bar>fsub (g x) x\<bar> < tol")
      case True
      with False "1.prems" show ?thesis
        by (auto simp: fixed_point_loop.simps[of g max_iter tol i] Let_def fixed_point_converged_def nat_add_distrib)
    next
      case c: False
      let ?rows = "rows @ [\<lparr>fp_iter = i, fp_x = x, fp_gx = g x, fp_error = \<bar>fsub (g x) x\<bar>\<rparr>]"
      have eq: "fixed_point_loop g max_iter tol (i + 1) (g x) (Some (g x, \<bar>fsub (g x) x\<bar>)) ?rows = Inr (r, e, it, rows')"
        using "1.prems"(1) False c by (simp add: fixed_point_loop.simps[of g max_iter tol i] Let_def)
      show ?thesis
        apply (rule "1.IH"[OF False refl refl refl c eq])
        using False "1.prems" by (auto simp: nat_add_distrib)
    qed
  qed
qed

lemma bisection_loop_returns:
  assumes "i \<le> max_iter \<or> prev \<noteq> None"
  shows "\<exists>res. bisection_loop f max_iter tol i a b fa fb prev rows = Inr res"
  using assms
proof (induction f max_iter tol i a b fa fb prev rows rule: bisection_loop.induct)
  case (1 f max_iter tol i a b fa fb prev rows)
  show ?case
  proof (cases "max_iter < i")
    case True
    with "1.prems" show ?thesis
      by (auto simp: bisection_loop.simps[of f max_iter tol i] split: option.splits)
  next
    case False
    show ?thesis
    proof (cases "bisection_body f tol i a b fa fb rows")
      case (Return res)
      with False show ?thesis
        by (simp add: bisection_loop.simps[of f max_iter tol i] del: split_paired_Ex)
    next
      case (Continue st)
      obtain a' b' fa' fb' c fc rows2 where st: "st = (a', b', fa', fb', c, fc, rows2)"
        by (cases st) auto
      have "\<exists>res. bisection_loop f max_iter tol (i + 1) a' b' fa' fb' (Some (c, fc)) rows2 = Inr res"
        by (rule "1.IH"[OF False Continue st[symmetric] refl refl refl refl refl]) simp
      with False Continue st show ?thesis
        by (simp add: bisection_loop.simps[of f max_iter tol i])
    qed
  qed
qed

lemma fixed_point_loop_returns:
  assumes "i \<le> max_iter \<or> prev \<noteq> None"
  shows "\<exists>res. fixed_point_loop g max_iter tol i x prev rows = Inr res"
  using assms
proof (induction g max_iter tol i x prev rows rule: fixed_point_loop.induct)
  case (1 g max_iter tol i x prev rows)
  show ?case
  proof (cases "max_iter < i")
    case True
    with "1.prems" show ?thesis
      by (auto simp: fixed_point_loop.simps[of g max_iter tol i] split: option.splits)
  next
    case False
    show ?thesis
    proof (cases "\<bar>fsub (g x) x\<bar> < tol")
      case True
      with False show ?thesis
        by (simp add: fixed_point_loop.simps[of g max_iter tol i] Let_def)
    next
      case c: False
      have "\<exists>res. fixed_point_loop g max_iter tol (i + 1) (g x) (Some (g x, \<bar>fsub (g x) x\<bar>))
               (rows @ [\<lparr>fp_iter = i, fp_x = x, fp_gx = g x, fp_error = \<bar>fsub (g x) x\<bar>\<rparr>]) = Inr res"
        by (rule "1.IH"[OF False refl refl refl c]) simp
      with False c show ?thesis
        by (simp add: fixed_point_loop.simps[of g max_iter tol i] Let_def)
    qed
  qed
qed

lemma with_entries_simps [simp]:
  "with_entries en (Inl err) = Inl err"
  "with_entries en (Inr (r, e, it, rows)) = Inr (r, e, it, map en rows)"
  by (simp_all add: with_entries_def)

lemma app_fixed_point_loop_eq:
  "app_fixed_point_loop g max_iter tol i x prev (map fixed_entries rows) =
   with_entries fixed_entries (fixed_point_loop g max_iter tol i x prev rows)"
proof (induction g max_iter tol i x prev rows rule: fixed_point_loop.induct)
  case (1 g max_iter tol i x prev rows)
  show ?case
  proof (cases "max_iter < i")
    case True
    then show ?thesis
      by (simp add: fixed_point_loop.simps[of g max_iter tol i]
          app_fixed_point_loop.simps[of g max_iter tol i] split: option.splits)
  next
    case False
    show ?thesis
    proof (cases "\<bar>fsub (g x) x\<bar> < tol")
      case True
      with False show ?thesis
        by (simp add: fixed_point_loop.simps[of g max_iter tol i]
            app_fixed_point_loop.simps[of g max_iter tol i] Let_def fixed_entries_def)
    next
      case c: False
      from "1.IH"[OF False refl refl refl c] False c show ?thesis
        by (simp add: fixed_point_loop.simps[of g max_iter tol i]
            app_fixed_point_loop.simps[of g max_iter tol i] Let_def fixed_entries_def)
    qed
  qed
qed

lemma app_bisection_body_eq:
  "app_bisection_body f tol i a b fa fb (map bracket_entries rows) =
   (case bisection_body f tol i a b fa fb rows of
      Return (r, e, it, rows') \<Rightarrow> Return (r, e, it, map bracket_entries rows')
    | Continue (a', b', fa', fb', c, fc, rows') \<Rightarrow> Continue (a', b', fa', fb', c, fc, map bracket_entries rows'))"
  by (simp add: app_bisection_body_def bisection_body_def Let_def bracket_entries_def)

lemma app_bisection_loop_eq:
  "app_bisection_loop f max_iter tol i a b fa fb prev (map bracket_entries rows) =
   with_entries bracket_entries (bisection_loop f max_iter tol i a b fa fb prev rows)"
proof (induction f max_iter tol i a b fa fb prev rows rule: bisection_loop.induct)
  case (1 f max_iter tol i a b fa fb prev rows)
  show ?case
  proof (cases "max_iter < i")
    case True
    then show ?thesis
      by (simp add: bisection_loop.simps[of f max_iter tol i]
          app_bisection_loop.simps[of f max_iter tol i] split: option.splits)
  next
    case False
    show ?thesis
    proof (cases "bisection_body f tol i a b fa fb rows")
      case (Return res)
      with False show ?thesis
        by (cases res) (simp add: bisection_loop.simps[of f max_iter tol i]
            app_bisection_loop.simps[of f max_iter tol i] app_bisection_body_eq)
    next
      case (Continue st)
      obtain a' b' fa' fb' c fc rows2 where st: "st = (a', b', fa', fb', c, fc, rows2)"
        by (cases st) auto
      from "1.IH"[OF False Continue st[symmetric] refl refl refl refl refl] False Continue st
      show ?thesis
        by (simp add: bisection_loop.simps[of f max_iter tol i]
            app_bisection_loop.simps[of f max_iter tol i] app_bisection_body_eq)
    qed
  qed
qed

lemma app_regula_falsi_loop_eq:
  "app_regula_falsi_loop f max_iter tol i a b fa fb c prev (map bracket_entries rows) =
   with_entries bracket_entries (regula_falsi_loop f max_iter tol i a b fa fb c prev rows)"
proof (induction f max_iter tol i a b fa fb c prev rows rule: regula_falsi_loop.induct)
  case (1 f max_iter tol i a b fa fb c prev rows)
  show ?case
  proof (cases "max_iter < i")
    case True
    then show ?thesis
      by (simp add: regula_falsi_loop.simps[of f max_iter tol i]
          app_regula_falsi_loop.simps[of f max_iter tol i] split: option.splits)
  next
    case False
    show ?thesis
    proof (cases "fsub fb fa = 0")
      case True
      with False show ?thesis
        by (simp add: regula_falsi_loop.simps[of f max_iter tol i]
            app_regula_falsi_loop.simps[of f max_iter tol i])
    next
      case nz: False
      define c' where "c' = fdiv (fsub (fmul a fb) (fmul b fa)) (fsub fb fa)"
      show ?thesis
      proof (cases "\<bar>f c'\<bar> < tol")
        case True
        with False nz show ?thesis
          by (simp add: regula_falsi_loop.simps[of f max_iter tol i]
              app_regula_falsi_loop.simps[of f max_iter tol i] Let_def bracket_entries_def c'_def)
      next
        case nc: False
        show ?thesis
        proof (cases "fmul fa (f c') < 0")
          case True
          from "1.IH"(1)[OF False nz c'_def refl refl refl nc True] False nz nc True show ?thesis
            by (simp add: regula_falsi_loop.simps[of f max_iter tol i]
                app_regula_falsi_loop.simps[of f max_iter tol i] Let_def bracket_entries_def c'_def)
        next
          case f: False
          from "1.IH"(2)[OF False nz c'_def refl refl refl nc f] False nz nc f show ?thesis
            by (simp add: regula_falsi_loop.simps[of f max_iter tol i]
                app_regula_falsi_loop.simps[of f max_iter tol i] Let_def bracket_entries_def c'_def)
        qed
      qed
    qed
  qed
qed

lemma app_secant_loop_eq:
  "app_secant_loop f max_iter tol i x0 x1 prev (map secant_entries rows) =
   with_entries secant_entries (secant_loop f max_iter tol i x0 x1 prev rows)"
proof (induction f max_iter tol i x0 x1 prev rows rule: secant_loop.induct)
  case (1 f max_iter tol i x0 x1 prev rows)
  show ?case
  proof (cases "max_iter < i")
    case True
    then show ?thesis
      by (simp add: secant_loop.simps[of f max_iter tol i]
          app_secant_loop.simps[of f max_iter tol i] split: option.splits)
  next
    case False
    show ?thesis
    proof (cases "fsub (f x1) (f x0) = 0")
      case True
      with False show ?thesis
        by (simp add: secant_loop.simps[of f max_iter tol i]
            app_secant_loop.simps[of f max_iter tol i])
    next
      case nz: False
      define x2 where "x2 = fsub x1 (fdiv (fmul (f x1) (fsub x1 x0)) (fsub (f x1) (f x0)))"
      show ?thesis
      proof (cases "\<bar>f x2\<bar> < tol \<or> \<bar>fsub x2 x1\<bar> < tol")
        case True
        with False nz show ?thesis
          by (auto simp add: secant_loop.simps[of f max_iter tol i]
              app_secant_loop.simps[of f max_iter tol i] Let_def secant_entries_def x2_def)
      next
        case nc: False
        from "1.IH"[OF False refl refl nz x2_def refl refl nc] False nz nc show ?thesis
          by (simp add: secant_loop.simps[of f max_iter tol i]
              app_secant_loop.simps[of f max_iter tol i] Let_def secant_entries_def x2_def)
      qed
    qed
  qed
qed

lemma app_newton_loop_eq:
  "app_newton_loop f df max_iter tol i x prev (map newton_entries rows) =
   with_entries newton_entries (newton_loop f df max_iter tol i x prev rows)"
proof (induction f df max_iter tol i x prev rows rule: newton_loop.induct)
  case (1 f df max_iter tol i x prev rows)
  show ?case
  proof (cases "max_iter < i")
    case True
    then show ?thesis
      by (simp add: newton_loop.simps[of f df max_iter tol i]
          app_newton_loop.simps[of f df max_iter tol i] split: option.splits)
  next
    case False
    show ?thesis
    proof (cases "df x = 0")
      case True
      with False show ?thesis
        by (simp add: newton_loop.simps[of f df max_iter tol i]
            app_newton_loop.simps[of f df max_iter tol i])
    next
      case nz: False
      define x_new where "x_new = fsub x (fdiv (f x) (df x))"
      show ?thesis
      proof (cases "\<bar>f x\<bar> < tol \<or> \<bar>fsub x_new x\<bar> < tol")
        case True
        with False nz show ?thesis
          by (auto simp add: newton_loop.simps[of f df max_iter tol i]
              app_newton_loop.simps[of f df max_iter tol i] Let_def newton_entries_def x_new_def)
      next
        case nc: False
        from "1.IH"[OF False refl refl nz x_new_def refl refl nc] False nz nc show ?thesis
          by (simp add: newton_loop.simps[of f df max_iter tol i]
              app_newton_loop.simps[of f df max_iter tol i] Let_def newton_entries_def x_new_def)
      qed
    qed
  qed
qed

lemma app_modified_secant_loop_eq:
  "app_modified_secant_loop f delta max_iter tol i x prev (map modsec_entries rows) =
   with_entries modsec_entries (modified_secant_loop f delta max_iter tol i x prev rows)"
proof (induction f delta max_iter tol i x prev rows rule: modified_secant_loop.induct)
  case (1 f delta max_iter tol i x prev rows)
  show ?case
  proof (cases "max_iter < i")
    case True
    then show ?thesis
      by (simp add: modified_secant_loop.simps[of f delta max_iter tol i]
          app_modified_secant_loop.simps[of f delta max_iter tol i] split: option.splits)
  next
    case False
    show ?thesis
    proof (cases "fsub (f (fadd x delta)) (f x) = 0")
      case True
      with False show ?thesis
        by (simp add: modified_secant_loop.simps[of f delta max_iter tol i]
            app_modified_secant_loop.simps[of f delta max_iter tol i])
    next
      case nz: False
      define x_new where "x_new = fsub x (fdiv (fmul delta (f x)) (fsub (f (fadd x delta)) (f x)))"
      show ?thesis
      proof (cases "\<bar>f x\<bar> < tol \<or> \<bar>fsub x_new x\<bar> < tol")
        case True
        with False nz show ?thesis
          by (auto simp add: modified_secant_loop.simps[of f delta max_iter tol i]
              app_modified_secant_loop.simps[of f delta max_iter tol i] Let_def modsec_entries_def x_new_def)
      next
        case nc: False
        from "1.IH"[OF False refl refl nz x_new_def refl refl nc] False nz nc show ?thesis
          by (simp add: modified_secant_loop.simps[of f delta max_iter tol i]
              app_modified_secant_loop.simps[of f delta max_iter tol i] Let_def modsec_entries_def x_new_def)
      qed
    qed
  qed
qed

lemma bisection_loop_error:
  assumes "bisection_loop f max_iter tol i a b fa fb prev rows = Inl e"
  shows "e = UnboundLocal \<and> max_iter < i \<and> prev = None"
  using assms
proof (induction f max_iter tol i a b fa fb prev rows rule: bisection_loop.induct)
  case (1 f max_iter tol i a b fa fb prev rows)
  show ?case
  proof (cases "max_iter < i")
    case True
    with "1.prems" show ?thesis
      by (auto simp: bisection_loop.simps[of f max_iter tol i] split: option.splits)
  next
    case False
    show ?thesis
    proof (cases "bisection_body f tol i a b fa fb rows")
      case (Return res)
      with False "1.prems" show ?thesis
        by (simp add: bisection_loop.simps[of f max_iter tol i])
    next
      case (Continue st)
      obtain a' b' fa' fb' c fc rows2 where st: "st = (a', b', fa', fb', c, fc, rows2)"
        by (cases st) auto
      have "bisection_loop f max_iter tol (i + 1) a' b' fa' fb' (Some (c, fc)) rows2 = Inl e"
        using "1.prems" False Continue st by (simp add: bisection_loop.simps[of f max_iter tol i])
      from "1.IH"[OF False Continue st[symmetric] refl refl refl refl refl this]
      show ?thesis by simp
    qed
  qed
qed

lemma regula_falsi_loop_error:
  assumes "regula_falsi_loop f max_iter tol i a b fa fb c prev rows = Inl e"
  shows "(e = FloatDivisionByZero \<and> i \<le> max_iter) \<or> (e = UnboundLocal \<and> max_iter < i \<and> prev = None)"
  using assms
proof (induction f max_iter tol i a b fa fb c prev rows rule: regula_falsi_loop.induct)
  case (1 f max_iter tol i a b fa fb c prev rows)
  show ?case
  proof (cases "max_iter < i")
    case True
    with "1.prems" show ?thesis
      by (auto simp: regula_falsi_loop.simps[of f max_iter tol i] split: option.splits)
  next
    case False
    show ?thesis
    proof (cases "fsub fb fa = 0")
      case True
      with False "1.prems" show ?thesis
        by (simp add: regula_falsi_loop.simps[of f max_iter tol i])
    next
      case nz: False
      define c' where "c' = fdiv (fsub (fmul a fb) (fmul b fa)) (fsub fb fa)"
      let ?rows = "rows @ [\<lparr>br_iter = i, br_a = a, br_b = b, br_c = c', br_fc = f c', br_error = \<bar>f c'\<bar>\<rparr>]"
      have unf: "regula_falsi_loop f max_iter tol i a b fa fb c prev rows =
          (if \<bar>f c'\<bar> < tol then Inr (c', \<bar>f c'\<bar>, i, ?rows)
           else if fmul fa (f c') < 0 then regula_falsi_loop f max_iter tol (i + 1) a c' fa (f c') c' (Some (f c')) ?rows
           else regula_falsi_loop f max_iter tol (i + 1) c' b (f c') fb c' (Some (f c')) ?rows)"
        using False nz by (simp add: regula_falsi_loop.simps[of f max_iter tol i] Let_def c'_def)
      from unf "1.prems" have nc: "\<not> \<bar>f c'\<bar> < tol" by auto
      show ?thesis
      proof (cases "fmul fa (f c') < 0")
        case True
        with unf nc "1.prems"
        have "regula_falsi_loop f max_iter tol (i + 1) a c' fa (f c') c' (Some (f c')) ?rows = Inl e"
          by simp
        from "1.IH"(1)[OF False nz c'_def refl refl refl nc True this] False show ?thesis by auto
      next
        case f: False
        with unf nc "1.prems"
        have "regula_falsi_loop f max_iter tol (i + 1) c' b (f c') fb c' (Some (f c')) ?rows = Inl e"
          by simp
        from "1.IH"(2)[OF False nz c'_def refl refl refl nc f this] False show ?thesis by auto
      qed
    qed
  qed
qed

lemma secant_loop_error:
  assumes "secant_loop f max_iter tol i x0 x1 prev rows = Inl e"
  shows "(e = ZeroDenominator \<and> i \<le> max_iter) \<or> (e = UnboundLocal \<and> max_iter < i \<and> prev = None)"
  using assms
proof (induction f max_iter tol i x0 x1 prev rows rule: secant_loop.induct)
  case (1 f max_iter tol i x0 x1 prev rows)
  show ?case
  proof (cases "max_iter < i")
    case True
    with "1.prems" show ?thesis
      by (auto simp: secant_loop.simps[of f max_iter tol i] split: option.splits)
  next
    case False
    show ?thesis
    proof (cases "fsub (f x1) (f x0) = 0")
      case True
      with False "1.prems" show ?thesis
        by (simp add: secant_loop.simps[of f max_iter tol i])
    next
      case nz: False
      define x2 where "x2 = fsub x1 (fdiv (fmul (f x1) (fsub x1 x0)) (fsub (f x1) (f x0)))"
      let ?rows = "rows @ [\<lparr>sc_iter = i, sc_x0 = x0, sc_x1 = x1, sc_x2 = x2, sc_fx2 = f x2, sc_error = \<bar>fsub x2 x1\<bar>\<rparr>]"
      have unf: "secant_loop f max_iter tol i x0 x1 prev rows =
          (if \<bar>f x2\<bar> < tol \<or> \<bar>fsub x2 x1\<bar> < tol then Inr (x2, \<bar>f x2\<bar>, i, ?rows)
           else secant_loop f max_iter tol (i + 1) x1 x2 (Some x2) ?rows)"
        using False nz by (simp add: secant_loop.simps[of f max_iter tol i] Let_def x2_def)
      from unf "1.prems" have nc: "\<not> (\<bar>f x2\<bar> < tol \<or> \<bar>fsub x2 x1\<bar> < tol)" by auto
      with unf "1.prems" have "secant_loop f max_iter tol (i + 1) x1 x2 (Some x2) ?rows = Inl e"
        by simp
      from "1.IH"[OF False refl refl nz x2_def refl refl nc this] False show ?thesis by auto
    qed
  qed
qed

lemma newton_loop_error:
  assumes "newton_loop f df max_iter tol i x prev rows = Inl e"
  shows "(e = ZeroDerivative \<and> i \<le> max_iter) \<or> (e = UnboundLocal \<and> max_iter < i \<and> prev = None)"
  using assms
proof (induction f df max_iter tol i x prev rows rule: newton_loop.induct)
  case (1 f df max_iter tol i x prev rows)
  show ?case
  proof (cases "max_iter < i")
    case True
    with "1.prems" show ?thesis
      by (auto simp: newton_loop.simps[of f df max_iter tol i] split: option.splits)
  next
    case False
    show ?thesis
    proof (cases "df x = 0")
      case True
      with False "1.prems" show ?thesis
        by (simp add: newton_loop.simps[of f df max_iter tol i])
    next
      case nz: False
      define x_new where "x_new = fsub x (fdiv (f x) (df x))"
      let ?rows = "rows @ [\<lparr>nr_iter = i, nr_x = x, nr_fx = f x, nr_dfx = df x, nr_x_new = x_new,
                            nr_error = \<bar>fsub x_new x\<bar>\<rparr>]"
      have unf: "newton_loop f df max_iter tol i x prev rows =
          (if \<bar>f x\<bar> < tol \<or> \<bar>fsub x_new x\<bar> < tol then Inr (x_new, \<bar>f x\<bar>, i, ?rows)
           else newton_loop f df max_iter tol (i + 1) x_new (Some (f x)) ?rows)"
        using False nz by (simp add: newton_loop.simps[of f df max_iter tol i] Let_def x_new_def)
      from unf "1.prems" have nc: "\<not> (\<bar>f x\<bar> < tol \<or> \<bar>fsub x_new x\<bar> < tol)" by auto
      with unf "1.prems" have "newton_loop f df max_iter tol (i + 1) x_new (Some (f x)) ?rows = Inl e"
        by simp
      from "1.IH"[OF False refl refl nz x_new_def refl refl nc this] False show ?thesis by auto
    qed
  qed
qed

lemma fixed_point_loop_error:
  assumes "fixed_point_loop g max_iter tol i x prev rows = Inl e"
  shows "e = UnboundLocal \<and> max_iter < i \<and> prev = None"
proof -
  have "\<not> (i \<le> max_iter \<or> prev \<noteq> None)"
    using fixed_point_loop_returns[of i max_iter prev g tol x rows] assms by auto
  then have "max_iter < i" and "prev = None" by (simp_all add: not_le del: not_None_eq)
  with assms show ?thesis
    by (simp add: fixed_point_loop.simps[of g max_iter tol i])
qed

lemma modified_secant_loop_error:
  assumes "modified_secant_loop f delta max_iter tol i x prev rows = Inl e"
  shows "(e = ZeroDenominator \<and> i \<le> max_iter) \<or> (e = UnboundLocal \<and> max_iter < i \<and> prev = None)"
  using assms
proof (induction f delta max_iter tol i x prev rows rule: modified_secant_loop.induct)
  case (1 f delta max_iter tol i x prev rows)
  show ?case
  proof (cases "max_iter < i")
    case True
    with "1.prems" show ?thesis
      by (auto simp: modified_secant_loop.simps[of f delta max_iter tol i] split: option.splits)
  next
    case False
    show ?thesis
    proof (cases "fsub (f (fadd x delta)) (f x) = 0")
      case True
      with False "1.prems" show ?thesis
        by (simp add: modified_secant_loop.simps[of f delta max_iter tol i])
    next
      case nz: False
      define x_new where "x_new = fsub x (fdiv (fmul delta (f x)) (fsub (f (fadd x delta)) (f x)))"
      let ?rows = "rows @ [\<lparr>ms_iter = i, ms_x = x, ms_fx = f x, ms_x_new = x_new,
                            ms_error = \<bar>fsub x_new x\<bar>\<rparr>]"
      have unf: "modified_secant_loop f delta max_iter tol i x prev rows =
          (if \<bar>f x\<bar> < tol \<or> \<bar>fsub x_new x\<bar> < tol then Inr (x_new, \<bar>f x\<bar>, i, ?rows)
           else modified_secant_loop f delta max_iter tol (i + 1) x_new (Some (x_new, f x)) ?rows)"
        using False nz by (simp add: modified_secant_loop.simps[of f delta max_iter tol i] Let_def x_new_def)
      from unf "1.prems" have nc: "\<not> (\<bar>f x\<bar> < tol \<or> \<bar>fsub x_new x\<bar> < tol)" by auto
      with unf "1.prems"
      have "modified_secant_loop f delta max_iter tol (i + 1) x_new (Some (x_new, f x)) ?rows = Inl e"
        by simp
      from "1.IH"[OF False refl refl nz x_new_def refl refl nc this] False show ?thesis by auto
    qed
  qed
qed

lemma newton_loop_rows:
  assumes "newton_loop f df max_iter tol i x prev rows = Inr (r, e, it, rows')"
    and "\<forall>row\<in>set rows. nr_fx row = f (nr_x row) \<and> nr_dfx row = df (nr_x row)
           \<and> nr_x_new row = fsub (nr_x row) (fdiv (nr_fx row) (nr_dfx row))
           \<and> nr_error row = \<bar>fsub (nr_x_new row) (nr_x row)\<bar>"
  shows "\<forall>row\<in>set rows'. nr_fx row = f (nr_x row) \<and> nr_dfx row = df (nr_x row)
           \<and> nr_x_new row = fsub (nr_x row) (fdiv (nr_fx row) (nr_dfx row))
           \<and> nr_error row = \<bar>fsub (nr_x_new row) (nr_x row)\<bar>"
  using assms
proof (induction f df max_iter tol i x prev rows rule: newton_loop.induct)
  case (1 f df max_iter tol i x prev rows)
  show ?case
  proof (cases "max_iter < i")
    case True
    with "1.prems" show ?thesis
      by (auto simp: newton_loop.simps[of f df max_iter tol i] split: option.splits)
  next
    case False
    define x_new where "x_new = fsub x (fdiv (f x) (df x))"
    let ?rows = "rows @ [\<lparr>nr_iter = i, nr_x = x, nr_fx = f x, nr_dfx = df x, nr_x_new = x_new,
                          nr_error = \<bar>fsub x_new x\<bar>\<rparr>]"
    have unf: "newton_loop f df max_iter tol i x prev rows =
        (if df x = 0 then Inl ZeroDerivative
         else if \<bar>f x\<bar> < tol \<or> \<bar>fsub x_new x\<bar> < tol then Inr (x_new, \<bar>f x\<bar>, i, ?rows)
         else newton_loop f df max_iter tol (i + 1) x_new (Some (f x)) ?rows)"
      using False by (simp add: newton_loop.simps[of f df max_iter tol i] Let_def x_new_def)
    from unf "1.prems"(1) have nz: "df x \<noteq> 0" by auto
    have rows: "\<forall>row\<in>set ?rows. nr_fx row = f (nr_x row) \<and> nr_dfx row = df (nr_x row)
           \<and> nr_x_new row = fsub (nr_x row) (fdiv (nr_fx row) (nr_dfx row))
           \<and> nr_error row = \<bar>fsub (nr_x_new row) (nr_x row)\<bar>"
      using "1.prems"(2) by (simp add: x_new_def)
    show ?thesis
    proof (cases "\<bar>f x\<bar> < tol \<or> \<bar>fsub x_new x\<bar> < tol")
      case True
      with unf nz "1.prems"(1) have "rows' = ?rows" by auto
      with rows show ?thesis by simp
    next
      case nc: False
      have eq: "newton_loop f df max_iter tol (i + 1) x_new (Some (f x)) ?rows = Inr (r, e, it, rows')"
        using unf nz nc "1.prems"(1) by simp
      show ?thesis
        by (rule "1.IH"[OF False refl refl nz x_new_def refl refl nc eq rows])
    qed
  qed
qed

lemma app_bisection_vars_eq:
  "app_bisection_vars f tol a b k = bisection_vars f tol a b k"
proof (induction k)
  case 0
  show ?case by simp
next
  case (Suc k)
  have body: "app_bisection_body f tol i a1 b1 fa1 fb1 [] =
      (case bisection_body f tol i a1 b1 fa1 fb1 [] of
         Return (r, e, it, rows') \<Rightarrow> Return (r, e, it, map bracket_entries rows')
       | Continue (a', b', fa', fb', c, fc, rows') \<Rightarrow>
           Continue (a', b', fa', fb', c, fc, map bracket_entries rows'))" for i a1 b1 fa1 fb1
    using app_bisection_body_eq[of f tol i a1 b1 fa1 fb1 "[]"] by simp
  show ?case
    by (simp add: Suc.IH body split: option.splits pass.splits)
qed

lemma bisection_body_rows:
  "bisection_body f tol i a b fa fb rows =
     (case bisection_body f tol i a b fa fb [] of
        Return (r, e, it, rs) \<Rightarrow> Return (r, e, it, rows @ rs)
      | Continue (a', b', fa', fb', c, fc, rs) \<Rightarrow> Continue (a', b', fa', fb', c, fc, rows @ rs))"
  by (simp add: bisection_body_def Let_def)

lemma bisection_loop_from_vars:
  assumes "bisection_vars f tol a b k = Some (a', b', fa', fb')" and "int k \<le> max_iter"
  shows "\<exists>prev rows. bisection_loop f max_iter tol 1 a b (f a) (f b) None [] =
           bisection_loop f max_iter tol (int k + 1) a' b' fa' fb' prev rows"
  using assms
proof (induction k arbitrary: a' b' fa' fb')
  case 0
  then show ?case by auto
next
  case (Suc k)
  from Suc.prems(1) obtain a1 b1 fa1 fb1 c fc rs where
    prev: "bisection_vars f tol a b k = Some (a1, b1, fa1, fb1)"
    and body: "bisection_body f tol (int k + 1) a1 b1 fa1 fb1 [] = Continue (a', b', fa', fb', c, fc, rs)"
    by (auto split: option.splits pass.splits)
  from Suc.prems(2) have k: "int k \<le> max_iter" and nk: "\<not> max_iter < int k + 1" by simp_all
  from Suc.IH[OF prev k] obtain prev0 rows0 where
    eq: "bisection_loop f max_iter tol 1 a b (f a) (f b) None [] =
         bisection_loop f max_iter tol (int k + 1) a1 b1 fa1 fb1 prev0 rows0"
    by blast
  have "bisection_body f tol (int k + 1) a1 b1 fa1 fb1 rows0 = Continue (a', b', fa', fb', c, fc, rows0 @ rs)"
    using body by (simp add: bisection_body_rows[of f tol _ a1 b1 fa1 fb1 rows0])
  with nk have "bisection_loop f max_iter tol (int k + 1) a1 b1 fa1 fb1 prev0 rows0 =
      bisection_loop f max_iter tol (int k + 1 + 1) a' b' fa' fb' (Some (c, fc)) (rows0 @ rs)"
    by (simp add: bisection_loop.simps[of f max_iter tol "int k + 1"])
  with eq show ?case
    by (auto simp: add.commute add.left_commute)
qed

lemma bisection_method_post:
  assumes "bisection_method f a b max_iter tol = Inr (r, e, it, rows)"
  shows "rows \<noteq> [] \<and> length rows = nat it \<and> 1 \<le> it \<and> it \<le> max_iter
     \<and> r = br_c (last rows) \<and> e = \<bar>br_fc (last rows)\<bar>
     \<and> (bisection_converged tol (last rows) \<and> 0 \<le> br_error (last rows) \<or> it = max_iter)"
proof -
  from assms have loop: "bisection_loop f max_iter tol 1 a b (f a) (f b) None [] = Inr (r, e, it, rows)"
    by (simp add: bisection_method_def Let_def split: if_splits)
  have "1 \<le> max_iter"
  proof (rule ccontr)
    assume "\<not> 1 \<le> max_iter"
    then have "bisection_loop f max_iter tol 1 a b (f a) (f b) None [] = Inl UnboundLocal"
      by (simp add: bisection_loop.simps[of f max_iter tol 1])
    with loop show False by simp
  qed
  with bisection_loop_post[OF loop] show ?thesis by simp
qed

lemma regula_falsi_post:
  assumes "regula_falsi f a b max_iter tol = Inr (r, e, it, rows)"
  shows "rows \<noteq> [] \<and> length rows = nat it \<and> 1 \<le> it \<and> it \<le> max_iter
     \<and> r = br_c (last rows) \<and> e = \<bar>br_fc (last rows)\<bar>
     \<and> (regula_falsi_converged tol (last rows) \<or> it = max_iter)"
proof -
  from assms have loop: "regula_falsi_loop f max_iter tol 1 a b (f a) (f b) a None [] = Inr (r, e, it, rows)"
    by (simp add: regula_falsi_def Let_def split: if_splits)
  have "1 \<le> max_iter"
  proof (rule ccontr)
    assume "\<not> 1 \<le> max_iter"
    then have "regula_falsi_loop f max_iter tol 1 a b (f a) (f b) a None [] = Inl UnboundLocal"
      by (simp add: regula_falsi_loop.simps[of f max_iter tol 1])
    with loop show False by simp
  qed
  with regula_falsi_loop_post[OF loop] show ?thesis by simp
qed

lemma secant_method_post:
  assumes "secant_method f x0 x1 max_iter tol = Inr (r, e, it, rows)"
  shows "rows \<noteq> [] \<and> length rows = nat it \<and> 1 \<le> it \<and> it \<le> max_iter
     \<and> r = sc_x2 (last rows) \<and> e = \<bar>sc_fx2 (last rows)\<bar>
     \<and> (secant_converged tol (last rows) \<and> 0 \<le> sc_error (last rows) \<or> it = max_iter)"
proof -
  from assms have loop: "secant_loop f max_iter tol 1 x0 x1 None [] = Inr (r, e, it, rows)"
    by (simp add: secant_method_def)
  have "1 \<le> max_iter"
  proof (rule ccontr)
    assume "\<not> 1 \<le> max_iter"
    then have "secant_loop f max_iter tol 1 x0 x1 None [] = Inl UnboundLocal"
      by (simp add: secant_loop.simps[of f max_iter tol 1])
    with loop show False by simp
  qed
  with secant_loop_post[OF loop] show ?thesis by simp
qed

lemma newton_raphson_post:
  assumes "newton_raphson f df x0 max_iter tol = Inr (r, e, it, rows)"
  shows "rows \<noteq> [] \<and> length rows = nat it \<and> 1 \<le> it \<and> it \<le> max_iter
     \<and> r = nr_x_new (last rows) \<and> e = \<bar>nr_fx (last rows)\<bar>
     \<and> (newton_converged tol (last rows) \<and> 0 \<le> nr_error (last rows) \<or> it = max_iter)"
proof -
  from assms have loop: "newton_loop f df max_iter tol 1 x0 None [] = Inr (r, e, it, rows)"
    by (simp add: newton_raphson_def)
  have "1 \<le> max_iter"
  proof (rule ccontr)
    assume "\<not> 1 \<le> max_iter"
    then have "newton_loop f df max_iter tol 1 x0 None [] = Inl UnboundLocal"
      by (simp add: newton_loop.simps[of f df max_iter tol 1])
    with loop show False by simp
  qed
  with newton_loop_post[OF loop] show ?thesis by simp
qed

lemma fixed_point_iteration_post:
  assumes "fixed_point_iteration g x0 max_iter tol = Inr (r, e, it, rows)"
  shows "rows \<noteq> [] \<and> length rows = nat it \<and> 1 \<le> it \<and> it \<le> max_iter
     \<and> r = fp_gx (last rows) \<and> e = fp_error (last rows)
     \<and> (fixed_point_converged tol (last rows) \<and> 0 \<le> fp_error (last rows) \<or> it = max_iter)"
proof -
  from assms have loop: "fixed_point_loop g max_iter tol 1 x0 None [] = Inr (r, e, it, rows)"
    by (simp add: fixed_point_iteration_def)
  have "1 \<le> max_iter"
  proof (rule ccontr)
    assume "\<not> 1 \<le> max_iter"
    then have "fixed_point_loop g max_iter tol 1 x0 None [] = Inl UnboundLocal"
      by (simp add: fixed_point_loop.simps[of g max_iter tol 1])
    with loop show False by simp
  qed
  with fixed_point_loop_post[OF loop] show ?thesis by simp
qed

lemma modified_secant_post:
  assumes "modified_secant f x0 delta max_iter tol = Inr (r, e, it, rows)"
  shows "rows \<noteq> [] \<and> length rows = nat it \<and> 1 \<le> it \<and> it \<le> max_iter
     \<and> r = ms_x_new (last rows) \<and> e = \<bar>ms_fx (last rows)\<bar>
     \<and> (modified_secant_converged tol (last rows) \<and> 0 \<le> ms_error (last rows) \<or> it = max_iter)"
proof -
  from assms have loop: "modified_secant_loop f delta max_iter tol 1 x0 None [] = Inr (r, e, it, rows)"
    by (simp add: modified_secant_def)
  have "1 \<le> max_iter"
  proof (rule ccontr)
    assume "\<not> 1 \<le> max_iter"
    then have "modified_secant_loop f delta max_iter tol 1 x0 None [] = Inl UnboundLocal"
      by (simp add: modified_secant_loop.simps[of f delta max_iter tol 1])
    with loop show False by simp
  qed
  with modified_secant_loop_post[OF loop] show ?thesis by simp
qed

lemma bisection_method_returns:
  assumes "\<not> 0 < fmul (f a) (f b)" and "1 \<le> max_iter"
  shows "\<exists>r e it rows. bisection_method f a b max_iter tol = Inr (r, e, it, rows)"
proof -
  from assms(2) obtain res where "bisection_loop f max_iter tol 1 a b (f a) (f b) None [] = Inr res"
    using bisection_loop_returns[of 1 max_iter None f tol a b "f a" "f b" "[]"] by auto
  with assms(1) have "bisection_method f a b max_iter tol = Inr res"
    by (simp add: bisection_method_def Let_def)
  then show ?thesis by (cases res) auto
qed

lemma fixed_point_method_returns:
  assumes "1 \<le> max_iter"
  shows "\<exists>r e it rows. fixed_point_iteration g x0 max_iter tol = Inr (r, e, it, rows)"
proof -
  from assms obtain res where "fixed_point_loop g max_iter tol 1 x0 None [] = Inr res"
    using fixed_point_loop_returns[of 1 max_iter None g tol x0 "[]"] by auto
  then have "fixed_point_iteration g x0 max_iter tol = Inr res"
    by (simp add: fixed_point_iteration_def)
  then show ?thesis by (cases res) auto
qed

lemma secant_method_error:
  assumes "1 \<le> max_iter"
  shows "secant_method f x0 x1 max_iter tol = Inl ZeroDenominator
       \<or> (\<exists>r e it rows. secant_method f x0 x1 max_iter tol = Inr (r, e, it, rows))"
proof (cases "secant_method f x0 x1 max_iter tol")
  case (Inl e)
  then have "secant_loop f max_iter tol 1 x0 x1 None [] = Inl e"
    by (simp add: secant_method_def)
  from secant_loop_error[OF this] assms Inl show ?thesis by auto
next
  case (Inr res)
  then show ?thesis by (cases res) auto
qed

lemma newton_raphson_error:
  assumes "1 \<le> max_iter"
  shows "newton_raphson f df x0 max_iter tol = Inl ZeroDerivative
       \<or> (\<exists>r e it rows. newton_raphson f df x0 max_iter tol = Inr (r, e, it, rows))"
proof (cases "newton_raphson f df x0 max_iter tol")
  case (Inl e)
  then have "newton_loop f df max_iter tol 1 x0 None [] = Inl e"
    by (simp add: newton_raphson_def)
  from newton_loop_error[OF this] assms Inl show ?thesis by auto
next
  case (Inr res)
  then show ?thesis by (cases res) auto
qed

lemma modified_secant_error:
  assumes "1 \<le> max_iter"
  shows "modified_secant f x0 delta max_iter tol = Inl ZeroDenominator
       \<or> (\<exists>r e it rows. modified_secant f x0 delta max_iter tol = Inr (r, e, it, rows))"
proof (cases "modified_secant f x0 delta max_iter tol")
  case (Inl e)
  then have "modified_secant_loop f delta max_iter tol 1 x0 None [] = Inl e"
    by (simp add: modified_secant_def)
  from modified_secant_loop_error[OF this] assms Inl show ?thesis by auto
next
  case (Inr res)
  then show ?thesis by (cases res) auto
qed

subsection \<open>A loop whose passes meet no zero denominator returns\<close>

lemma regula_falsi_loop_returns:
  assumes "i \<le> max_iter \<or> prev \<noteq> None"
    and "\<And>k a' b' fa' fb'. int k \<le> max_iter - i \<Longrightarrow>
           regula_falsi_vars f tol a b fa fb k = Some (a', b', fa', fb') \<Longrightarrow> fsub fb' fa' \<noteq> 0"
  shows "\<exists>res. regula_falsi_loop f max_iter tol i a b fa fb c prev rows = Inr res"
  using assms
proof (induction f max_iter tol i a b fa fb c prev rows rule: regula_falsi_loop.induct)
  case (1 f max_iter tol i a b fa fb c prev rows)
  show ?case
  proof (cases "max_iter < i")
    case True
    with "1.prems"(1) show ?thesis
      by (auto simp: regula_falsi_loop.simps[of f max_iter tol i] split: option.splits)
  next
    case False
    define c' where "c' = fdiv (fsub (fmul a fb) (fmul b fa)) (fsub fb fa)"
    let ?rows = "rows @ [\<lparr>br_iter = i, br_a = a, br_b = b, br_c = c', br_fc = f c', br_error = \<bar>f c'\<bar>\<rparr>]"
    from False have "int 0 \<le> max_iter - i" by simp
    then have nz: "fsub fb fa \<noteq> 0"
      by (rule "1.prems"(2)) simp
    have unf: "regula_falsi_loop f max_iter tol i a b fa fb c prev rows =
        (if \<bar>f c'\<bar> < tol then Inr (c', \<bar>f c'\<bar>, i, ?rows)
         else if fmul fa (f c') < 0 then regula_falsi_loop f max_iter tol (i + 1) a c' fa (f c') c' (Some (f c')) ?rows
         else regula_falsi_loop f max_iter tol (i + 1) c' b (f c') fb c' (Some (f c')) ?rows)"
      using False nz by (simp add: regula_falsi_loop.simps[of f max_iter tol i] Let_def c'_def)
    show ?thesis
    proof (cases "\<bar>f c'\<bar> < tol")
      case True
      with unf show ?thesis by simp
    next
      case nc: False
      show ?thesis
      proof (cases "fmul fa (f c') < 0")
        case True
        have "\<exists>res. regula_falsi_loop f max_iter tol (i + 1) a c' fa (f c') c' (Some (f c')) ?rows = Inr res"
        proof (rule "1.IH"(1)[OF False nz c'_def refl refl refl nc True])
          show "i + 1 \<le> max_iter \<or> Some (f c') \<noteq> None" by simp
        next
          fix k a' b' fa' fb'
          assume k: "int k \<le> max_iter - (i + 1)"
            and v: "regula_falsi_vars f tol a c' fa (f c') k = Some (a', b', fa', fb')"
          from k have "int (Suc k) \<le> max_iter - i" by simp
          moreover from v nz nc True
          have "regula_falsi_vars f tol a b fa fb (Suc k) = Some (a', b', fa', fb')"
            by (simp add: Let_def c'_def)
          ultimately show "fsub fb' fa' \<noteq> 0" by (rule "1.prems"(2))
        qed
        with unf nc True show ?thesis by simp
      next
        case f: False
        have "\<exists>res. regula_falsi_loop f max_iter tol (i + 1) c' b (f c') fb c' (Some (f c')) ?rows = Inr res"
        proof (rule "1.IH"(2)[OF False nz c'_def refl refl refl nc f])
          show "i + 1 \<le> max_iter \<or> Some (f c') \<noteq> None" by simp
        next
          fix k a' b' fa' fb'
          assume k: "int k \<le> max_iter - (i + 1)"
            and v: "regula_falsi_vars f tol c' b (f c') fb k = Some (a', b', fa', fb')"
          from k have "int (Suc k) \<le> max_iter - i" by simp
          moreover from v nz nc f
          have "regula_falsi_vars f tol a b fa fb (Suc k) = Some (a', b', fa', fb')"
            by (simp add: Let_def c'_def)
          ultimately show "fsub fb' fa' \<noteq> 0" by (rule "1.prems"(2))
        qed
        with unf nc f show ?thesis by simp
      qed
    qed
  qed
qed

lemma secant_loop_returns:
  assumes "i \<le> max_iter \<or> prev \<noteq> None"
    and "\<And>k y0 y1. int k \<le> max_iter - i \<Longrightarrow>
           secant_vars f tol x0 x1 k = Some (y0, y1) \<Longrightarrow> fsub (f y1) (f y0) \<noteq> 0"
  shows "\<exists>res. secant_loop f max_iter tol i x0 x1 prev rows = Inr res"
  using assms
proof (induction f max_iter tol i x0 x1 prev rows rule: secant_loop.induct)
  case (1 f max_iter tol i x0 x1 prev rows)
  show ?case
  proof (cases "max_iter < i")
    case True
    with "1.prems"(1) show ?thesis
      by (auto simp: secant_loop.simps[of f max_iter tol i] split: option.splits)
  next
    case False
    define x2 where "x2 = fsub x1 (fdiv (fmul (f x1) (fsub x1 x0)) (fsub (f x1) (f x0)))"
    let ?rows = "rows @ [\<lparr>sc_iter = i, sc_x0 = x0, sc_x1 = x1, sc_x2 = x2, sc_fx2 = f x2, sc_error = \<bar>fsub x2 x1\<bar>\<rparr>]"
    from False have "int 0 \<le> max_iter - i" by simp
    then have nz: "fsub (f x1) (f x0) \<noteq> 0"
      by (rule "1.prems"(2)) simp
    have unf: "secant_loop f max_iter tol i x0 x1 prev rows =
        (if \<bar>f x2\<bar> < tol \<or> \<bar>fsub x2 x1\<bar> < tol then Inr (x2, \<bar>f x2\<bar>, i, ?rows)
         else secant_loop f max_iter tol (i + 1) x1 x2 (Some x2) ?rows)"
      using False nz by (simp add: secant_loop.simps[of f max_iter tol i] Let_def x2_def)
    show ?thesis
    proof (cases "\<bar>f x2\<bar> < tol \<or> \<bar>fsub x2 x1\<bar> < tol")
      case True
      with unf show ?thesis by simp
    next
      case nc: False
      have "\<exists>res. secant_loop f max_iter tol (i + 1) x1 x2 (Some x2) ?rows = Inr res"
      proof (rule "1.IH"[OF False refl refl nz x2_def refl refl nc])
        show "i + 1 \<le> max_iter \<or> Some x2 \<noteq> None" by simp
      next
        fix k y0 y1
        assume k: "int k \<le> max_iter - (i + 1)"
          and v: "secant_vars f tol x1 x2 k = Some (y0, y1)"
        from k have "int (Suc k) \<le> max_iter - i" by simp
        moreover from v nz nc
        have "secant_vars f tol x0 x1 (Suc k) = Some (y0, y1)"
          by (simp add: Let_def x2_def)
        ultimately show "fsub (f y1) (f y0) \<noteq> 0" by (rule "1.prems"(2))
      qed
      with unf nc show ?thesis by simp
    qed
  qed
qed

lemma newton_loop_returns:
  assumes "i \<le> max_iter \<or> prev \<noteq> None"
    and "\<And>k y. int k \<le> max_iter - i \<Longrightarrow> newton_vars f df tol x k = Some y \<Longrightarrow> df y \<noteq> 0"
  shows "\<exists>res. newton_loop f df max_iter tol i x prev rows = Inr res"
  using assms
proof (induction f df max_iter tol i x prev rows rule: newton_loop.induct)
  case (1 f df max_iter tol i x prev rows)
  show ?case
  proof (cases "max_iter < i")
    case True
    with "1.prems"(1) show ?thesis
      by (auto simp: newton_loop.simps[of f df max_iter tol i] split: option.splits)
  next
    case False
    define x_new where "x_new = fsub x (fdiv (f x) (df x))"
    let ?rows = "rows @ [\<lparr>nr_iter = i, nr_x = x, nr_fx = f x, nr_dfx = df x, nr_x_new = x_new,
                          nr_error = \<bar>fsub x_new x\<bar>\<rparr>]"
    from False have "int 0 \<le> max_iter - i" by simp
    then have nz: "df x \<noteq> 0"
      by (rule "1.prems"(2)) simp
    have unf: "newton_loop f df max_iter tol i x prev rows =
        (if \<bar>f x\<bar> < tol \<or> \<bar>fsub x_new x\<bar> < tol then Inr (x_new, \<bar>f x\<bar>, i, ?rows)
         else newton_loop f df max_iter tol (i + 1) x_new (Some (f x)) ?rows)"
      using False nz by (simp add: newton_loop.simps[of f df max_iter tol i] Let_def x_new_def)
    show ?thesis
    proof (cases "\<bar>f x\<bar> < tol \<or> \<bar>fsub x_new x\<bar> < tol")
      case True
      with unf show ?thesis by simp
    next
      case nc: False
      have "\<exists>res. newton_loop f df max_iter tol (i + 1) x_new (Some (f x)) ?rows = Inr res"
      proof (rule "1.IH"[OF False refl refl nz x_new_def refl refl nc])
        show "i + 1 \<le> max_iter \<or> Some (f x) \<noteq> None" by simp
      next
        fix k y
        assume k: "int k \<le> max_iter - (i + 1)"
          and v: "newton_vars f df tol x_new k = Some y"
        from k have "int (Suc k) \<le> max_iter - i" by simp
        moreover from v nz nc
        have "newton_vars f df tol x (Suc k) = Some y"
          by (simp add: Let_def x_new_def)
        ultimately show "df y \<noteq> 0" by (rule "1.prems"(2))
      qed
      with unf nc show ?thesis by simp
    qed
  qed
qed

lemma modified_secant_loop_returns:
  assumes "i \<le> max_iter \<or> prev \<noteq> None"
    and "\<And>k y. int k \<le> max_iter - i \<Longrightarrow>
           modified_secant_vars f delta tol x k = Some y \<Longrightarrow> fsub (f (fadd y delta)) (f y) \<noteq> 0"
  shows "\<exists>res. modified_secant_loop f delta max_iter tol i x prev rows = Inr res"
  using assms
proof (induction f delta max_iter tol i x prev rows rule: modified_secant_loop.induct)
  case (1 f delta max_iter tol i x prev rows)
  show ?case
  proof (cases "max_iter < i")
    case True
    with "1.prems"(1) show ?thesis
      by (auto simp: modified_secant_loop.simps[of f delta max_iter tol i] split: option.splits)
  next
    case False
    define x_new where "x_new = fsub x (fdiv (fmul delta (f x)) (fsub (f (fadd x delta)) (f x)))"
    let ?rows = "rows @ [\<lparr>ms_iter = i, ms_x = x, ms_fx = f x, ms_x_new = x_new,
                          ms_error = \<bar>fsub x_new x\<bar>\<rparr>]"
    from False have "int 0 \<le> max_iter - i" by simp
    then have nz: "fsub (f (fadd x delta)) (f x) \<noteq> 0"
      by (rule "1.prems"(2)) simp
    have unf: "modified_secant_loop f delta max_iter tol i x prev rows =
        (if \<bar>f x\<bar> < tol \<or> \<bar>fsub x_new x\<bar> < tol then Inr (x_new, \<bar>f x\<bar>, i, ?rows)
         else modified_secant_loop f delta max_iter tol (i + 1) x_new (Some (x_new, f x)) ?rows)"
      using False nz by (simp add: modified_secant_loop.simps[of f delta max_iter tol i] Let_def x_new_def)
    show ?thesis
    proof (cases "\<bar>f x\<bar> < tol \<or> \<bar>fsub x_new x\<bar> < tol")
      case True
      with unf show ?thesis by simp
    next
      case nc: False
      have "\<exists>res. modified_secant_loop f delta max_iter tol (i + 1) x_new (Some (x_new, f x)) ?rows = Inr res"
      proof (rule "1.IH"[OF False refl refl nz x_new_def refl refl nc])
        show "i + 1 \<le> max_iter \<or> Some (x_new, f x) \<noteq> None" by simp
      next
        fix k y
        assume k: "int k \<le> max_iter - (i + 1)"
          and v: "modified_secant_vars f delta tol x_new k = Some y"
        from k have "int (Suc k) \<le> max_iter - i" by simp
        moreover from v nz nc
        have "modified_secant_vars f delta tol x (Suc k) = Some y"
          by (simp add: Let_def x_new_def)
        ultimately show "fsub (f (fadd y delta)) (f y) \<noteq> 0" by (rule "1.prems"(2))
      qed
      with unf nc show ?thesis by simp
    qed
  qed
qed

subsection \<open>The bracket of bisection\<close>

lemma bisection_loop_prefix:
  assumes "bisection_loop f max_iter tol i a b fa fb prev rows = Inr (r, e, it, rows')"
  shows "\<exists>ys. rows' = rows @ ys"
  using assms
proof (induction f max_iter tol i a b fa fb prev rows rule: bisection_loop.induct)
  case (1 f max_iter tol i a b fa fb prev rows)
  show ?case
  proof (cases "max_iter < i")
    case True
    with "1.prems" show ?thesis
      by (auto simp: bisection_loop.simps[of f max_iter tol i] split: option.splits)
  next
    case False
    show ?thesis
    proof (cases "bisection_body f tol i a b fa fb rows")
      case (Return res)
      then have "res = (r, e, it, rows')"
        using "1.prems" False by (simp add: bisection_loop.simps[of f max_iter tol i])
      with Return show ?thesis
        by (auto simp: bisection_body_def Let_def split: if_splits)
    next
      case (Continue st)
      obtain a' b' fa' fb' c fc rows2 where st: "st = (a', b', fa', fb', c, fc, rows2)"
        by (cases st) auto
      from Continue st obtain row where body: "rows2 = rows @ [row]"
        by (auto simp: bisection_body_def Let_def split: if_splits)
      have eq: "bisection_loop f max_iter tol (i + 1) a' b' fa' fb' (Some (c, fc)) rows2 = Inr (r, e, it, rows')"
        using "1.prems" False Continue st by (simp add: bisection_loop.simps[of f max_iter tol i])
      from "1.IH"[OF False Continue st[symmetric] refl refl refl refl refl eq]
      obtain ys where "rows' = rows2 @ ys" by blast
      with body show ?thesis by simp
    qed
  qed
qed

lemma half_width_left:
  fixes a b :: real
  shows "\<bar>(a + b) / 2 - a\<bar> = \<bar>b - a\<bar> / 2"
proof -
  have "(a + b) / 2 - a = (b - a) / 2" by argo
  then have "\<bar>(a + b) / 2 - a\<bar> = \<bar>(b - a) / 2\<bar>" by (rule arg_cong)
  also have "\<dots> = \<bar>b - a\<bar> / 2" by (simp only: abs_divide abs_numeral)
  finally show ?thesis .
qed

lemma half_width_right:
  fixes a b :: real
  shows "\<bar>b - (a + b) / 2\<bar> = \<bar>b - a\<bar> / 2"
proof -
  have "b - (a + b) / 2 = (b - a) / 2" by argo
  then have "\<bar>b - (a + b) / 2\<bar> = \<bar>(b - a) / 2\<bar>" by (rule arg_cong)
  also have "\<dots> = \<bar>b - a\<bar> / 2" by (simp only: abs_divide abs_numeral)
  finally show ?thesis .
qed

lemma bisection_loop_widths:
  assumes "bisection_loop f max_iter tol i a b fa fb prev rows = Inr (r, e, it, rows')"
    and "1 \<le> i" and "length rows = nat (i - 1)"
    and "\<bar>b - a\<bar> = w / 2 ^ nat (i - 1)"
    and "\<forall>k<length rows. br_iter (rows ! k) = int k + 1
            \<and> \<bar>br_b (rows ! k) - br_a (rows ! k)\<bar> = w / 2 ^ k
            \<and> br_error (rows ! k) = w / 2 ^ (k + 1)"
    and "\<forall>row\<in>set rows'. bisection_pass_exact row"
  shows "\<forall>k<length rows'. br_iter (rows' ! k) = int k + 1
            \<and> \<bar>br_b (rows' ! k) - br_a (rows' ! k)\<bar> = w / 2 ^ k
            \<and> br_error (rows' ! k) = w / 2 ^ (k + 1)"
  using assms
proof (induction f max_iter tol i a b fa fb prev rows rule: bisection_loop.induct)
  case (1 f max_iter tol i a b fa fb prev rows)
  show ?case
  proof (cases "max_iter < i")
    case True
    with "1.prems" show ?thesis
      by (auto simp: bisection_loop.simps[of f max_iter tol i] split: option.splits)
  next
    case False
    let ?row = "\<lparr>br_iter = i, br_a = a, br_b = b, br_c = fdiv (fadd a b) 2, br_fc = f (fdiv (fadd a b) 2),
                 br_error = fdiv \<bar>fsub b a\<bar> 2\<rparr>"
    have i: "int (nat (i - 1)) + 1 = i" using "1.prems"(2) by simp
    have "\<exists>ys. rows' = (rows @ [?row]) @ ys"
    proof (cases "bisection_body f tol i a b fa fb rows")
      case (Return res)
      then have "res = (r, e, it, rows')"
        using "1.prems"(1) False by (simp add: bisection_loop.simps[of f max_iter tol i])
      with Return show ?thesis
        by (auto simp: bisection_body_def Let_def split: if_splits)
    next
      case (Continue st)
      obtain a' b' fa' fb' c fc rows2 where st: "st = (a', b', fa', fb', c, fc, rows2)"
        by (cases st) auto
      from Continue st have body: "rows2 = rows @ [?row]"
        by (auto simp: bisection_body_def Let_def split: if_splits)
      have "bisection_loop f max_iter tol (i + 1) a' b' fa' fb' (Some (c, fc)) rows2 = Inr (r, e, it, rows')"
        using "1.prems"(1) False Continue st by (simp add: bisection_loop.simps[of f max_iter tol i])
      from bisection_loop_prefix[OF this] body show ?thesis by simp
    qed
    then have "?row \<in> set rows'" by auto
    with "1.prems"(6) have "bisection_pass_exact ?row" by blast
    then have mid: "fdiv (fadd a b) 2 = (a + b) / 2" and err: "fdiv \<bar>fsub b a\<bar> 2 = \<bar>b - a\<bar> / 2"
      by (simp_all add: bisection_pass_exact_def)
    have rows: "\<forall>k<length (rows @ [?row]). br_iter ((rows @ [?row]) ! k) = int k + 1
            \<and> \<bar>br_b ((rows @ [?row]) ! k) - br_a ((rows @ [?row]) ! k)\<bar> = w / 2 ^ k
            \<and> br_error ((rows @ [?row]) ! k) = w / 2 ^ (k + 1)"
    proof (intro allI impI)
      fix k assume "k < length (rows @ [?row])"
      then consider "k < length rows" | "k = length rows" by fastforce
      then show "br_iter ((rows @ [?row]) ! k) = int k + 1
            \<and> \<bar>br_b ((rows @ [?row]) ! k) - br_a ((rows @ [?row]) ! k)\<bar> = w / 2 ^ k
            \<and> br_error ((rows @ [?row]) ! k) = w / 2 ^ (k + 1)"
      proof cases
        case 1
        with "1.prems"(5) show ?thesis by (simp add: nth_append)
      next
        case 2
        with "1.prems"(3,4) i err show ?thesis by (simp add: nth_append)
      qed
    qed
    show ?thesis
    proof (cases "bisection_body f tol i a b fa fb rows")
      case (Return res)
      then have "res = (r, e, it, rows')"
        using "1.prems"(1) False by (simp add: bisection_loop.simps[of f max_iter tol i])
      with Return have "rows' = rows @ [?row]"
        by (auto simp: bisection_body_def Let_def split: if_splits)
      with rows show ?thesis by simp
    next
      case (Continue st)
      obtain a' b' fa' fb' c fc rows2 where st: "st = (a', b', fa', fb', c, fc, rows2)"
        by (cases st) auto
      from Continue st have body: "rows2 = rows @ [?row]"
        and ab: "(a' = a \<and> b' = fdiv (fadd a b) 2) \<or> (a' = fdiv (fadd a b) 2 \<and> b' = b)"
        by (auto simp: bisection_body_def Let_def split: if_splits)
      from ab have "\<bar>b' - a'\<bar> = \<bar>b - a\<bar> / 2"
        by (elim disjE conjE) (simp_all only: mid half_width_left half_width_right)
      moreover have "nat (i + 1 - 1) = Suc (nat (i - 1))"
        using "1.prems"(2) by simp
      ultimately have w: "\<bar>b' - a'\<bar> = w / 2 ^ nat (i + 1 - 1)"
        using "1.prems"(4) by simp
      have eq: "bisection_loop f max_iter tol (i + 1) a' b' fa' fb' (Some (c, fc)) rows2 = Inr (r, e, it, rows')"
        using "1.prems"(1) False Continue st by (simp add: bisection_loop.simps[of f max_iter tol i])
      show ?thesis
        apply (rule "1.IH"[OF False Continue st[symmetric] refl refl refl refl refl eq _ _ w _ "1.prems"(6)])
        using "1.prems"(2,3) rows body by (simp_all add: nat_add_distrib)
    qed
  qed
qed

lemma bisection_vars_cached:
  assumes "bisection_vars f tol a b k = Some (a', b', fa', fb')"
  shows "fa' = f a' \<and> fb' = f b'"
  using assms
proof (induction k arbitrary: a' b' fa' fb')
  case 0
  then show ?case by auto
next
  case (Suc k)
  from Suc.prems obtain a1 b1 fa1 fb1 c fc rows where
    prev: "bisection_vars f tol a b k = Some (a1, b1, fa1, fb1)"
    and body: "bisection_body f tol (int k + 1) a1 b1 fa1 fb1 [] = Continue (a', b', fa', fb', c, fc, rows)"
    by (auto split: option.splits pass.splits)
  from Suc.IH[OF prev] have "fa1 = f a1 \<and> fb1 = f b1" .
  with body show ?case
    by (auto simp: bisection_body_def Let_def split: if_splits)
qed

lemma bisection_loop_records:
  assumes "bisection_loop f max_iter tol i a b fa fb prev rows = Inr (r, e, it, rows')"
    and "1 \<le> i" and "length rows = nat (i - 1)"
    and "\<forall>k<length rows. br_iter (rows ! k) = int k + 1
            \<and> br_c (rows ! k) = fdiv (fadd (br_a (rows ! k)) (br_b (rows ! k))) 2
            \<and> br_fc (rows ! k) = f (br_c (rows ! k))
            \<and> br_error (rows ! k) = fdiv \<bar>fsub (br_b (rows ! k)) (br_a (rows ! k))\<bar> 2"
  shows "\<forall>k<length rows'. br_iter (rows' ! k) = int k + 1
            \<and> br_c (rows' ! k) = fdiv (fadd (br_a (rows' ! k)) (br_b (rows' ! k))) 2
            \<and> br_fc (rows' ! k) = f (br_c (rows' ! k))
            \<and> br_error (rows' ! k) = fdiv \<bar>fsub (br_b (rows' ! k)) (br_a (rows' ! k))\<bar> 2"
  using assms
proof (induction f max_iter tol i a b fa fb prev rows rule: bisection_loop.induct)
  case (1 f max_iter tol i a b fa fb prev rows)
  show ?case
  proof (cases "max_iter < i")
    case True
    with "1.prems" show ?thesis
      by (auto simp: bisection_loop.simps[of f max_iter tol i] split: option.splits)
  next
    case False
    let ?row = "\<lparr>br_iter = i, br_a = a, br_b = b, br_c = fdiv (fadd a b) 2, br_fc = f (fdiv (fadd a b) 2),
                 br_error = fdiv \<bar>fsub b a\<bar> 2\<rparr>"
    have i: "int (nat (i - 1)) + 1 = i" using "1.prems"(2) by simp
    have rows: "\<forall>k<length (rows @ [?row]). br_iter ((rows @ [?row]) ! k) = int k + 1
            \<and> br_c ((rows @ [?row]) ! k) = fdiv (fadd (br_a ((rows @ [?row]) ! k)) (br_b ((rows @ [?row]) ! k))) 2
            \<and> br_fc ((rows @ [?row]) ! k) = f (br_c ((rows @ [?row]) ! k))
            \<and> br_error ((rows @ [?row]) ! k) = fdiv \<bar>fsub (br_b ((rows @ [?row]) ! k)) (br_a ((rows @ [?row]) ! k))\<bar> 2"
    proof (intro allI impI)
      fix k assume "k < length (rows @ [?row])"
      then consider "k < length rows" | "k = length rows" by fastforce
      then show "br_iter ((rows @ [?row]) ! k) = int k + 1
            \<and> br_c ((rows @ [?row]) ! k) = fdiv (fadd (br_a ((rows @ [?row]) ! k)) (br_b ((rows @ [?row]) ! k))) 2
            \<and> br_fc ((rows @ [?row]) ! k) = f (br_c ((rows @ [?row]) ! k))
            \<and> br_error ((rows @ [?row]) ! k) = fdiv \<bar>fsub (br_b ((rows @ [?row]) ! k)) (br_a ((rows @ [?row]) ! k))\<bar> 2"
      proof cases
        case 1
        with "1.prems"(4) show ?thesis by (simp add: nth_append)
      next
        case 2
        with "1.prems"(3) i show ?thesis by (simp add: nth_append)
      qed
    qed
    show ?thesis
    proof (cases "bisection_body f tol i a b fa fb rows")
      case (Return res)
      then have "res = (r, e, it, rows')"
        using "1.prems"(1) False by (simp add: bisection_loop.simps[of f max_iter tol i])
      with Return have "rows' = rows @ [?row]"
        by (auto simp: bisection_body_def Let_def split: if_splits)
      with rows show ?thesis by simp
    next
      case (Continue st)
      obtain a' b' fa' fb' c fc rows2 where st: "st = (a', b', fa', fb', c, fc, rows2)"
        by (cases st) auto
      from Continue st have body: "rows2 = rows @ [?row]"
        by (auto simp: bisection_body_def Let_def split: if_splits)
      have eq: "bisection_loop f max_iter tol (i + 1) a' b' fa' fb' (Some (c, fc)) rows2 = Inr (r, e, it, rows')"
        using "1.prems"(1) False Continue st by (simp add: bisection_loop.simps[of f max_iter tol i])
      show ?thesis
        apply (rule "1.IH"[OF False Continue st[symmetric] refl refl refl refl refl eq])
        using "1.prems"(2,3) rows body by (simp_all add: nat_add_distrib)
    qed
  qed
qed

subsection \<open>What each method returns\<close>

lemma regula_falsi_error:
  assumes "1 \<le> max_iter"
  shows "regula_falsi f a b max_iter tol = Inl InvalidBracket
       \<or> regula_falsi f a b max_iter tol = Inl FloatDivisionByZero
       \<or> (\<exists>r e it rows. regula_falsi f a b max_iter tol = Inr (r, e, it, rows))"
proof (cases "regula_falsi f a b max_iter tol")
  case (Inl e)
  show ?thesis
  proof (cases "0 < fmul (f a) (f b)")
    case True
    then show ?thesis by (simp add: regula_falsi_def)
  next
    case False
    with Inl have "regula_falsi_loop f max_iter tol 1 a b (f a) (f b) a None [] = Inl e"
      by (simp add: regula_falsi_def Let_def)
    from regula_falsi_loop_error[OF this] assms Inl show ?thesis by auto
  qed
next
  case (Inr res)
  then show ?thesis by (cases res) auto
qed

lemma regula_falsi_returns:
  assumes "\<not> 0 < fmul (f a) (f b)" and "1 \<le> max_iter"
    and "\<And>k a' b' fa' fb'. k < nat max_iter \<Longrightarrow>
           regula_falsi_vars f tol a b (f a) (f b) k = Some (a', b', fa', fb') \<Longrightarrow> fsub fb' fa' \<noteq> 0"
  shows "\<exists>r e it rows. regula_falsi f a b max_iter tol = Inr (r, e, it, rows)"
proof -
  have "\<exists>res. regula_falsi_loop f max_iter tol 1 a b (f a) (f b) a None [] = Inr res"
  proof (rule regula_falsi_loop_returns)
    show "1 \<le> max_iter \<or> None \<noteq> (None :: real option)" using assms(2) by simp
  next
    fix k a' b' fa' fb'
    assume "int k \<le> max_iter - 1"
      and v: "regula_falsi_vars f tol a b (f a) (f b) k = Some (a', b', fa', fb')"
    then have "k < nat max_iter" by simp
    then show "fsub fb' fa' \<noteq> 0" using v by (rule assms(3))
  qed
  then obtain res where "regula_falsi_loop f max_iter tol 1 a b (f a) (f b) a None [] = Inr res" ..
  with assms(1) have "regula_falsi f a b max_iter tol = Inr res"
    by (simp add: regula_falsi_def Let_def)
  then show ?thesis by (cases res) auto
qed

lemma secant_method_returns:
  assumes "1 \<le> max_iter"
    and "\<And>k y0 y1. k < nat max_iter \<Longrightarrow>
           secant_vars f tol x0 x1 k = Some (y0, y1) \<Longrightarrow> fsub (f y1) (f y0) \<noteq> 0"
  shows "\<exists>r e it rows. secant_method f x0 x1 max_iter tol = Inr (r, e, it, rows)"
proof -
  have "\<exists>res. secant_loop f max_iter tol 1 x0 x1 None [] = Inr res"
  proof (rule secant_loop_returns)
    show "1 \<le> max_iter \<or> None \<noteq> (None :: real option)" using assms(1) by simp
  next
    fix k y0 y1
    assume "int k \<le> max_iter - 1" and v: "secant_vars f tol x0 x1 k = Some (y0, y1)"
    then have "k < nat max_iter" by simp
    then show "fsub (f y1) (f y0) \<noteq> 0" using v by (rule assms(2))
  qed
  then obtain res where "secant_loop f max_iter tol 1 x0 x1 None [] = Inr res" ..
  then have "secant_method f x0 x1 max_iter tol = Inr res"
    by (simp add: secant_method_def)
  then show ?thesis by (cases res) auto
qed

lemma newton_raphson_returns:
  assumes "1 \<le> max_iter"
    and "\<And>k y. k < nat max_iter \<Longrightarrow> newton_vars f df tol x0 k = Some y \<Longrightarrow> df y \<noteq> 0"
  shows "\<exists>r e it rows. newton_raphson f df x0 max_iter tol = Inr (r, e, it, rows)"
proof -
  have "\<exists>res. newton_loop f df max_iter tol 1 x0 None [] = Inr res"
  proof (rule newton_loop_returns)
    show "1 \<le> max_iter \<or> None \<noteq> (None :: real option)" using assms(1) by simp
  next
    fix k y
    assume "int k \<le> max_iter - 1" and v: "newton_vars f df tol x0 k = Some y"
    then have "k < nat max_iter" by simp
    then show "df y \<noteq> 0" using v by (rule assms(2))
  qed
  then obtain res where "newton_loop f df max_iter tol 1 x0 None [] = Inr res" ..
  then have "newton_raphson f df x0 max_iter tol = Inr res"
    by (simp add: newton_raphson_def)
  then show ?thesis by (cases res) auto
qed

lemma modified_secant_returns:
  assumes "1 \<le> max_iter"
    and "\<And>k y. k < nat max_iter \<Longrightarrow>
           modified_secant_vars f delta tol x0 k = Some y \<Longrightarrow> fsub (f (fadd y delta)) (f y) \<noteq> 0"
  shows "\<exists>r e it rows. modified_secant f x0 delta max_iter tol = Inr (r, e, it, rows)"
proof -
  have "\<exists>res. modified_secant_loop f delta max_iter tol 1 x0 None [] = Inr res"
  proof (rule modified_secant_loop_returns)
    show "1 \<le> max_iter \<or> None \<noteq> (None :: (real \<times> real) option)" using assms(1) by simp
  next
    fix k y
    assume "int k \<le> max_iter - 1" and v: "modified_secant_vars f delta tol x0 k = Some y"
    then have "k < nat max_iter" by simp
    then show "fsub (f (fadd y delta)) (f y) \<noteq> 0" using v by (rule assms(2))
  qed
  then obtain res where "modified_secant_loop f delta max_iter tol 1 x0 None [] = Inr res" ..
  then have "modified_secant f x0 delta max_iter tol = Inr res"
    by (simp add: modified_secant_def)
  then show ?thesis by (cases res) auto
qed

lemma nonpositive_tolerance:
  assumes "tol \<le> 0"
  shows "bisection_method f a b max_iter tol = Inr (r, e, it, rows) \<Longrightarrow> it = max_iter \<and> length rows = nat max_iter"
    and "regula_falsi f a b max_iter tol = Inr (r, e, it, rows) \<Longrightarrow> it = max_iter \<and> length rows = nat max_iter"
    and "secant_method f x0 x1 max_iter tol = Inr (r, e, it, srows) \<Longrightarrow> it = max_iter \<and> length srows = nat max_iter"
    and "newton_raphson f df x0 max_iter tol = Inr (r, e, it, nrows) \<Longrightarrow> it = max_iter \<and> length nrows = nat max_iter"
    and "fixed_point_iteration g x0 max_iter tol = Inr (r, e, it, frows) \<Longrightarrow> it = max_iter \<and> length frows = nat max_iter"
    and "modified_secant f x0 delta max_iter tol = Inr (r, e, it, mrows) \<Longrightarrow> it = max_iter \<and> length mrows = nat max_iter"
proof -
  show "it = max_iter \<and> length rows = nat max_iter"
    if "bisection_method f a b max_iter tol = Inr (r, e, it, rows)"
    using bisection_method_post[OF that] assms by (auto simp: bisection_converged_def)
  show "it = max_iter \<and> length rows = nat max_iter"
    if "regula_falsi f a b max_iter tol = Inr (r, e, it, rows)"
    using regula_falsi_post[OF that] assms by (auto simp: regula_falsi_converged_def)
  show "it = max_iter \<and> length srows = nat max_iter"
    if "secant_method f x0 x1 max_iter tol = Inr (r, e, it, srows)"
    using secant_method_post[OF that] assms by (auto simp: secant_converged_def)
  show "it = max_iter \<and> length nrows = nat max_iter"
    if "newton_raphson f df x0 max_iter tol = Inr (r, e, it, nrows)"
    using newton_raphson_post[OF that] assms by (auto simp: newton_converged_def)
  show "it = max_iter \<and> length frows = nat max_iter"
    if "fixed_point_iteration g x0 max_iter tol = Inr (r, e, it, frows)"
    using fixed_point_iteration_post[OF that] assms by (auto simp: fixed_point_converged_def)
  show "it = max_iter \<and> length mrows = nat max_iter"
    if "modified_secant f x0 delta max_iter tol = Inr (r, e, it, mrows)"
    using modified_secant_post[OF that] assms by (auto simp: modified_secant_converged_def)
qed

text \<open>
  The entry check of bisection and regula falsi: a computed product that is positive is
  rejected, and an exact product that is negative is never rejected.
\<close>

lemma positive_product_rejected:
  assumes "0 < fmul (f a) (f b)"
  shows "bisection_method f a b max_iter tol = Inl InvalidBracket"
    and "regula_falsi f a b max_iter tol = Inl InvalidBracket"
  using assms by (simp_all add: bisection_method_def regula_falsi_def)

lemma strict_bracket_accepted:
  assumes "f a * f b < 0"
  shows "bisection_method f a b max_iter tol \<noteq> Inl InvalidBracket"
    and "regula_falsi f a b max_iter tol \<noteq> Inl InvalidBracket"
proof -
  from assms have br: "\<not> 0 < fmul (f a) (f b)"
    by (rule negative_product_passes)
  show "bisection_method f a b max_iter tol \<noteq> Inl InvalidBracket"
  proof
    assume "bisection_method f a b max_iter tol = Inl InvalidBracket"
    with br have "bisection_loop f max_iter tol 1 a b (f a) (f b) None [] = Inl InvalidBracket"
      by (simp add: bisection_method_def Let_def)
    from bisection_loop_error[OF this] show False by simp
  qed
  show "regula_falsi f a b max_iter tol \<noteq> Inl InvalidBracket"
  proof
    assume "regula_falsi f a b max_iter tol = Inl InvalidBracket"
    with br have "regula_falsi_loop f max_iter tol 1 a b (f a) (f b) a None [] = Inl InvalidBracket"
      by (simp add: regula_falsi_def Let_def)
    from regula_falsi_loop_error[OF this] show False by simp
  qed
qed

section \<open>Claims\<close>

text \<open>
  C8. The six functions of \<^verbatim>\<open>app.py\<close> are extensionally equal to their counterparts in
  \<^verbatim>\<open>ZOF_CLI.py\<close>: for every evaluator and identical inputs, both raise the same error or
  return the same root estimate, the same final error, the same iteration count and
  rows whose values are equal entry for entry (the CLI keeps each row as a list, the web
  application as a tuple).
\<close>

theorem app_refines_cli:
  "app_bisection_method f a b max_iter tol = with_entries bracket_entries (bisection_method f a b max_iter tol)
 \<and> app_regula_falsi f a b max_iter tol = with_entries bracket_entries (regula_falsi f a b max_iter tol)
 \<and> app_secant_method f x0 x1 max_iter tol = with_entries secant_entries (secant_method f x0 x1 max_iter tol)
 \<and> app_newton_raphson f df x0 max_iter tol = with_entries newton_entries (newton_raphson f df x0 max_iter tol)
 \<and> app_fixed_point_iteration g x0 max_iter tol = with_entries fixed_entries (fixed_point_iteration g x0 max_iter tol)
 \<and> app_modified_secant f x0 delta max_iter tol = with_entries modsec_entries (modified_secant f x0 delta max_iter tol)"
proof -
  have "app_bisection_method f a b max_iter tol = with_entries bracket_entries (bisection_method f a b max_iter tol)"
    using app_bisection_loop_eq[of f max_iter tol 1 a b "f a" "f b" None "[]"]
    by (simp add: app_bisection_method_def bisection_method_def Let_def)
  moreover have "app_regula_falsi f a b max_iter tol = with_entries bracket_entries (regula_falsi f a b max_iter tol)"
    using app_regula_falsi_loop_eq[of f max_iter tol 1 a b "f a" "f b" a None "[]"]
    by (simp add: app_regula_falsi_def regula_falsi_def Let_def)
  moreover have "app_secant_method f x0 x1 max_iter tol = with_entries secant_entries (secant_method f x0 x1 max_iter tol)"
    using app_secant_loop_eq[of f max_iter tol 1 x0 x1 None "[]"]
    by (simp add: app_secant_method_def secant_method_def)
  moreover have "app_newton_raphson f df x0 max_iter tol = with_entries newton_entries (newton_raphson f df x0 max_iter tol)"
    using app_newton_loop_eq[of f df max_iter tol 1 x0 None "[]"]
    by (simp add: app_newton_raphson_def newton_raphson_def)
  moreover have "app_fixed_point_iteration g x0 max_iter tol = with_entries fixed_entries (fixed_point_iteration g x0 max_iter tol)"
    using app_fixed_point_loop_eq[of g max_iter tol 1 x0 None "[]"]
    by (simp add: app_fixed_point_iteration_def fixed_point_iteration_def)
  moreover have "app_modified_secant f x0 delta max_iter tol = with_entries modsec_entries (modified_secant f x0 delta max_iter tol)"
    using app_modified_secant_loop_eq[of f delta max_iter tol 1 x0 None "[]"]
    by (simp add: app_modified_secant_def modified_secant_def)
  ultimately show ?thesis by simp
qed

text \<open>
  C10. Fixed-point iteration has no failure branch of its own: for every evaluator \<open>g\<close>,
  every \<open>x0\<close>, every tolerance and every \<open>max_iter \<ge> 1\<close>, \<^verbatim>\<open>fixed_point_iteration\<close> (in both
  files) returns a result after at least one and at most \<open>max_iter\<close> passes, with one row
  per pass, and raises no error.
\<close>

theorem fixed_point_iteration_returns:
  assumes "1 \<le> max_iter"
  shows "\<exists>x_root err iters rows.
           fixed_point_iteration g x0 max_iter tol = Inr (x_root, err, iters, rows)
         \<and> app_fixed_point_iteration g x0 max_iter tol = Inr (x_root, err, iters, map fixed_entries rows)
         \<and> 1 \<le> iters \<and> iters \<le> max_iter \<and> length rows = nat iters"
proof -
  from assms obtain res where "fixed_point_loop g max_iter tol 1 x0 None [] = Inr res"
    using fixed_point_loop_returns[of 1 max_iter None g tol x0 "[]"] by auto
  then obtain r e it rows where
    res: "fixed_point_loop g max_iter tol 1 x0 None [] = Inr (r, e, it, rows)"
    by (cases res) auto
  from fixed_point_loop_post[OF res] assms
  have "1 \<le> it \<and> it \<le> max_iter \<and> length rows = nat it" by simp
  moreover have "app_fixed_point_loop g max_iter tol 1 x0 None [] = Inr (r, e, it, map fixed_entries rows)"
    using app_fixed_point_loop_eq[of g max_iter tol 1 x0 None "[]"] res by simp
  ultimately show ?thesis
    using res by (simp add: fixed_point_iteration_def app_fixed_point_iteration_def)
qed

theorem fixed_point_iteration_returns_witness:
  "(1::int) \<le> 3 \<and>
   fixed_point_iteration ex_double 1 3 (1 / 1000) =
     Inr (8, 4, 3, [\<lparr>fp_iter = 1, fp_x = 1, fp_gx = 2, fp_error = 1\<rparr>,
                    \<lparr>fp_iter = 2, fp_x = 2, fp_gx = 4, fp_error = 2\<rparr>,
                    \<lparr>fp_iter = 3, fp_x = 4, fp_gx = 8, fp_error = 4\<rparr>]) \<and>
   (\<exists>x_root err iters rows.
           fixed_point_iteration ex_double 1 3 (1 / 1000) = Inr (x_root, err, iters, rows)
         \<and> app_fixed_point_iteration ex_double 1 3 (1 / 1000) = Inr (x_root, err, iters, map fixed_entries rows)
         \<and> 1 \<le> iters \<and> iters \<le> 3 \<and> length rows = nat iters)"
proof -
  have h: "(1::int) \<le> 3" by simp
  have ev: "fixed_point_iteration ex_double 1 3 (1 / 1000) =
     Inr (8, 4, 3, [\<lparr>fp_iter = 1, fp_x = 1, fp_gx = 2, fp_error = 1\<rparr>,
                    \<lparr>fp_iter = 2, fp_x = 2, fp_gx = 4, fp_error = 2\<rparr>,
                    \<lparr>fp_iter = 3, fp_x = 4, fp_gx = 8, fp_error = 4\<rparr>])"
    by (simp add: fixed_point_iteration_def fixed_point_loop.simps ex_double_def dbl_eval)
  from h ev fixed_point_iteration_returns[OF h, of ex_double 1 "1 / 1000"] show ?thesis
    by blast
qed

text \<open>
  C6. In the secant method, a pass that starts with \<open>f(x1) = f(x0)\<close> raises
  \<open>ZeroDenominator\<close> and no result is returned; in particular, with seeds such that
  \<open>f(x0) = f(x1)\<close> and at least one pass to run, \<^verbatim>\<open>secant_method\<close> raises it in the first
  pass, before any row is appended.
\<close>

theorem secant_zero_denominator:
  "(i \<le> max_iter \<and> f x1 = f x0 \<longrightarrow>
      secant_loop f max_iter tol i x0 x1 prev rows = Inl ZeroDenominator)
 \<and> (1 \<le> max_iter \<and> f x0 = f x1 \<longrightarrow>
      secant_method f x0 x1 max_iter tol = Inl ZeroDenominator)"
  by (simp add: secant_method_def secant_loop.simps[of f max_iter tol _ x0 x1] fsub_self)

theorem secant_zero_denominator_witness:
  "(1::int) \<le> 50 \<and> ex_sq_m1 1 = ex_sq_m1 (- 1)
 \<and> secant_loop ex_sq_m1 50 (1 / 1000000) 1 1 (- 1) None [] = Inl ZeroDenominator
 \<and> secant_method ex_sq_m1 1 (- 1) 50 (1 / 1000000) = Inl ZeroDenominator"
proof -
  have h: "(1::int) \<le> 50" and e: "ex_sq_m1 1 = ex_sq_m1 (- 1)"
    by (simp_all add: ex_sq_m1_def dbl_eval)
  from h e secant_zero_denominator[of 1 50 ex_sq_m1 "- 1" 1 "1 / 1000000" None "[]"]
  show ?thesis by simp
qed

text \<open>
  C3, as the spec states it, fails: the second component that \<^verbatim>\<open>newton_raphson\<close> returns is
  \<open>abs(fx)\<close> (lines 115 and 117), not the step size \<open>err\<close> of the last row. With
  \<open>f(x) = x\<^sup>2 - 2\<close>, \<open>x0 = 1\<close> and one pass, the final error is \<open>1\<close> and the row's error \<open>1/2\<close>.
\<close>

theorem newton_final_error_counterexample:
  "newton_raphson ex_sq_m2 ex_double 1 1 (1 / 1000) =
     Inr (3 / 2, 1, 1, [\<lparr>nr_iter = 1, nr_x = 1, nr_fx = - 1, nr_dfx = 2, nr_x_new = 3 / 2, nr_error = 1 / 2\<rparr>])
   \<and> (1::real) \<noteq> 1 / 2"
  by (simp add: newton_raphson_def newton_loop.simps ex_sq_m2_def ex_double_def dbl_eval)

text \<open>
  C3, amended. Whenever Newton-Raphson returns a result (convergent or exhausted), its
  final error is \<open>\<bar>f(x)\<bar>\<close> for the \<open>x\<close> of the last pass, that is the absolute value of the
  \<open>f(x)\<close> entry of the last row; the root estimate is that row's \<open>x_new\<close>, and the row's
  error entry is the step size \<open>\<bar>x_new - x\<bar>\<close> as the doubles give it.
\<close>

theorem newton_final_error:
  assumes "newton_raphson f df x0 max_iter tol = Inr (x_root, final_err, iters, rows)"
  shows "rows \<noteq> [] \<and> length rows = nat iters
       \<and> x_root = nr_x_new (last rows)
       \<and> final_err = \<bar>nr_fx (last rows)\<bar>
       \<and> nr_fx (last rows) = f (nr_x (last rows))
       \<and> nr_error (last rows) = \<bar>fsub (nr_x_new (last rows)) (nr_x (last rows))\<bar>"
proof -
  from assms have loop: "newton_loop f df max_iter tol 1 x0 None [] = Inr (x_root, final_err, iters, rows)"
    by (simp add: newton_raphson_def)
  have "1 \<le> max_iter"
  proof (rule ccontr)
    assume "\<not> 1 \<le> max_iter"
    then have "newton_loop f df max_iter tol 1 x0 None [] = Inl UnboundLocal"
      by (simp add: newton_loop.simps[of f df max_iter tol 1])
    with loop show False by simp
  qed
  with newton_loop_post[OF loop]
  have post: "rows \<noteq> [] \<and> length rows = nat iters \<and> x_root = nr_x_new (last rows)
       \<and> final_err = \<bar>nr_fx (last rows)\<bar>"
    by simp
  then have "last rows \<in> set rows" by simp
  with newton_loop_rows[OF loop] post show ?thesis by simp
qed

theorem newton_final_error_witness:
  "newton_raphson ex_sq_m2 ex_double 2 5 1 =
     Inr (3 / 2, 2, 1, [\<lparr>nr_iter = 1, nr_x = 2, nr_fx = 2, nr_dfx = 4, nr_x_new = 3 / 2, nr_error = 1 / 2\<rparr>])
   \<and> (2::real) = \<bar>nr_fx (last [\<lparr>nr_iter = 1, nr_x = 2, nr_fx = 2, nr_dfx = 4, nr_x_new = 3 / 2, nr_error = 1 / 2\<rparr>])\<bar>"
proof -
  have ev: "newton_raphson ex_sq_m2 ex_double 2 5 1 =
     Inr (3 / 2, 2, 1, [\<lparr>nr_iter = 1, nr_x = 2, nr_fx = 2, nr_dfx = 4, nr_x_new = 3 / 2, nr_error = 1 / 2\<rparr>])"
    by (simp add: newton_raphson_def newton_loop.simps ex_sq_m2_def ex_double_def dbl_eval)
  from newton_final_error[OF ev] ev show ?thesis by simp
qed

text \<open>
  C1. The code departs from the claim: the entry check of bisection and regula falsi
  (lines 48 and 68, with the message that \<open>f(a)\<close> and \<open>f(b)\<close> must have opposite signs) tests
  the computed product \<^verbatim>\<open>fa*fb > 0\<close>, and a product that is zero passes it. With
  \<open>f(x) = x\<close> on \<open>[0, 1]\<close>, where \<open>f(a)\<cdot>f(b) = 0\<close>, bisection raises nothing, runs its four
  passes and returns \<open>15/16\<close> with residual \<open>15/16\<close>, although \<open>a = 0\<close> is a root. With
  \<open>f(x) = x\<^sup>2 - 1\<close> on \<open>[-1, 1]\<close> regula falsi raises nothing at entry and divides by zero
  in its first pass. The product is also zero by underflow: with \<open>f(x) = x\<cdot>2\<^bsup>-540\<^esup>\<close> on
  \<open>[1, 2]\<close> both values are positive, their product \<open>2\<^bsup>-1079\<^esup>\<close> rounds to zero, and bisection
  returns a result.
\<close>

theorem bracket_check_zero_product:
  "ex_id 0 * ex_id 1 = 0
 \<and> bisection_method ex_id 0 1 4 (1 / 100) =
     Inr (15 / 16, 15 / 16, 4,
       [\<lparr>br_iter = 1, br_a = 0, br_b = 1, br_c = 1 / 2, br_fc = 1 / 2, br_error = 1 / 2\<rparr>,
        \<lparr>br_iter = 2, br_a = 1 / 2, br_b = 1, br_c = 3 / 4, br_fc = 3 / 4, br_error = 1 / 4\<rparr>,
        \<lparr>br_iter = 3, br_a = 3 / 4, br_b = 1, br_c = 7 / 8, br_fc = 7 / 8, br_error = 1 / 8\<rparr>,
        \<lparr>br_iter = 4, br_a = 7 / 8, br_b = 1, br_c = 15 / 16, br_fc = 15 / 16, br_error = 1 / 16\<rparr>])
 \<and> ex_sq_m1 (- 1) * ex_sq_m1 1 = 0
 \<and> regula_falsi ex_sq_m1 (- 1) 1 4 (1 / 100) = Inl FloatDivisionByZero
 \<and> 0 < ex_tiny 1 * ex_tiny 2
 \<and> bisection_method ex_tiny 1 2 4 (1 / 100) =
     Inr (3 / 2, 3 / 2 ^ 541, 1,
       [\<lparr>br_iter = 1, br_a = 1, br_b = 2, br_c = 3 / 2, br_fc = 3 / 2 ^ 541, br_error = 1 / 2\<rparr>])"
  by (simp add: bisection_method_def bisection_loop.simps bisection_body_def
      regula_falsi_def regula_falsi_loop.simps ex_id_def ex_sq_m1_def ex_tiny_def dbl_eval)

text \<open>
  C9. The code departs from the claim: the endpoint to replace is chosen by the computed
  product \<^verbatim>\<open>fa*fc < 0\<close> (line 58), which underflows. With \<open>f(x) = x\<cdot>2\<^bsup>-540\<^esup>\<close> on \<open>[-1, 3]\<close> and
  \<open>tol = 2\<^bsup>-541\<^esup>\<close> the entry condition \<open>f(a)\<cdot>f(b) < 0\<close> holds; in the first pass \<open>c = 1\<close>, no
  test of convergence is met, \<open>fa\<cdot>fc = -2\<^bsup>-1080\<^esup>\<close> rounds to zero, and the \<^verbatim>\<open>else\<close> branch
  replaces \<open>a\<close>. The second pass starts with the bracket \<open>[1, 3]\<close>, on which \<open>f\<close> is positive
  at both ends: the sign change is lost (in both files). The cached values are still
  those of \<open>f\<close> at the endpoints.
\<close>

theorem bisection_sign_change_lost:
  "ex_tiny (- 1) * ex_tiny 3 < 0 \<and> (0::real) < 1 / 2 ^ 541
 \<and> bisection_vars ex_tiny (1 / 2 ^ 541) (- 1) 3 1 = Some (1, 3, 1 / 2 ^ 540, 3 / 2 ^ 540)
 \<and> app_bisection_vars ex_tiny (1 / 2 ^ 541) (- 1) 3 1 = Some (1, 3, 1 / 2 ^ 540, 3 / 2 ^ 540)
 \<and> 0 < ex_tiny 1 \<and> 0 < ex_tiny 3
 \<and> \<not> ex_tiny 1 * ex_tiny 3 \<le> 0"
  by (simp add: eval_nat_numeral bisection_body_def app_bisection_body_def ex_tiny_def dbl_eval)

text \<open>
  C2, as the spec states it, fails: no function checks \<open>tol\<close>, and no exception for invalid
  parameters exists in either file. With \<open>tol = -1\<close> fixed-point iteration runs its two
  passes and returns a result with two rows.
\<close>

theorem tolerance_not_validated_counterexample:
  "fixed_point_iteration ex_double 1 2 (- 1) =
     Inr (4, 2, 2, [\<lparr>fp_iter = 1, fp_x = 1, fp_gx = 2, fp_error = 1\<rparr>,
                    \<lparr>fp_iter = 2, fp_x = 2, fp_gx = 4, fp_error = 2\<rparr>])"
  by (simp add: fixed_point_iteration_def fixed_point_loop.simps ex_double_def dbl_eval)

text \<open>
  C2, amended. The tolerance is not validated. With \<open>tol \<le> 0\<close> and \<open>max_iter \<ge> 1\<close> the
  passes run and the convergence test can never succeed. Fixed-point iteration returns a
  result with \<open>max_iter\<close> iterations and \<open>max_iter\<close> rows; so does bisection on a bracket that
  passes its entry check; so does each of the other methods when no pass meets a zero
  denominator or a zero derivative, and the only errors they raise are their own
  (\<open>InvalidBracket\<close>, the division by zero of regula falsi, \<open>ZeroDenominator\<close>,
  \<open>ZeroDerivative\<close>). The passes a loop reaches are given by its loop variables at the
  start of each pass (\<open>regula_falsi_vars\<close>, \<open>secant_vars\<close>, \<open>newton_vars\<close>,
  \<open>modified_secant_vars\<close>).
\<close>

theorem tolerance_not_validated:
  assumes "tol \<le> 0" and "1 \<le> max_iter"
  shows
  "(\<exists>x_root err rows.
       fixed_point_iteration g x0 max_iter tol = Inr (x_root, err, max_iter, rows)
     \<and> length rows = nat max_iter)
 \<and> (bisection_method f a b max_iter tol = Inl InvalidBracket
      \<or> (\<exists>x_root err rows.
            bisection_method f a b max_iter tol = Inr (x_root, err, max_iter, rows)
          \<and> length rows = nat max_iter))
 \<and> (\<not> 0 < fmul (f a) (f b) \<longrightarrow>
      (\<exists>x_root err rows.
            bisection_method f a b max_iter tol = Inr (x_root, err, max_iter, rows)
          \<and> length rows = nat max_iter))
 \<and> (regula_falsi f a b max_iter tol = Inl InvalidBracket
      \<or> regula_falsi f a b max_iter tol = Inl FloatDivisionByZero
      \<or> (\<exists>x_root err rows.
            regula_falsi f a b max_iter tol = Inr (x_root, err, max_iter, rows)
          \<and> length rows = nat max_iter))
 \<and> (\<not> 0 < fmul (f a) (f b)
      \<and> (\<forall>k a' b' fa' fb'. k < nat max_iter
            \<and> regula_falsi_vars f tol a b (f a) (f b) k = Some (a', b', fa', fb')
            \<longrightarrow> fsub fb' fa' \<noteq> 0) \<longrightarrow>
      (\<exists>x_root err rows.
            regula_falsi f a b max_iter tol = Inr (x_root, err, max_iter, rows)
          \<and> length rows = nat max_iter))
 \<and> (secant_method f x0 x1 max_iter tol = Inl ZeroDenominator
      \<or> (\<exists>x_root err rows.
            secant_method f x0 x1 max_iter tol = Inr (x_root, err, max_iter, rows)
          \<and> length rows = nat max_iter))
 \<and> ((\<forall>k y0 y1. k < nat max_iter \<and> secant_vars f tol x0 x1 k = Some (y0, y1)
            \<longrightarrow> fsub (f y1) (f y0) \<noteq> 0) \<longrightarrow>
      (\<exists>x_root err rows.
            secant_method f x0 x1 max_iter tol = Inr (x_root, err, max_iter, rows)
          \<and> length rows = nat max_iter))
 \<and> (newton_raphson f df x0 max_iter tol = Inl ZeroDerivative
      \<or> (\<exists>x_root err rows.
            newton_raphson f df x0 max_iter tol = Inr (x_root, err, max_iter, rows)
          \<and> length rows = nat max_iter))
 \<and> ((\<forall>k y. k < nat max_iter \<and> newton_vars f df tol x0 k = Some y \<longrightarrow> df y \<noteq> 0) \<longrightarrow>
      (\<exists>x_root err rows.
            newton_raphson f df x0 max_iter tol = Inr (x_root, err, max_iter, rows)
          \<and> length rows = nat max_iter))
 \<and> (modified_secant f x0 delta max_iter tol = Inl ZeroDenominator
      \<or> (\<exists>x_root err rows.
            modified_secant f x0 delta max_iter tol = Inr (x_root, err, max_iter, rows)
          \<and> length rows = nat max_iter))
 \<and> ((\<forall>k y. k < nat max_iter \<and> modified_secant_vars f delta tol x0 k = Some y
            \<longrightarrow> fsub (f (fadd y delta)) (f y) \<noteq> 0) \<longrightarrow>
      (\<exists>x_root err rows.
            modified_secant f x0 delta max_iter tol = Inr (x_root, err, max_iter, rows)
          \<and> length rows = nat max_iter))"
proof (intro conjI impI)
  from fixed_point_method_returns[OF assms(2)] obtain r e it rows where
    res: "fixed_point_iteration g x0 max_iter tol = Inr (r, e, it, rows)" by blast
  from nonpositive_tolerance(5)[OF assms(1) res] res
  show "\<exists>x_root err rows.
       fixed_point_iteration g x0 max_iter tol = Inr (x_root, err, max_iter, rows)
     \<and> length rows = nat max_iter"
    by auto
next
  show "bisection_method f a b max_iter tol = Inl InvalidBracket
      \<or> (\<exists>x_root err rows.
            bisection_method f a b max_iter tol = Inr (x_root, err, max_iter, rows)
          \<and> length rows = nat max_iter)"
  proof (cases "0 < fmul (f a) (f b)")
    case True
    then show ?thesis by (simp add: bisection_method_def)
  next
    case False
    with assms(2) bisection_method_returns[of f a b max_iter tol] obtain r e it rows where
      res: "bisection_method f a b max_iter tol = Inr (r, e, it, rows)" by blast
    from nonpositive_tolerance(1)[OF assms(1) res] res show ?thesis by auto
  qed
next
  assume "\<not> 0 < fmul (f a) (f b)"
  with assms(2) bisection_method_returns[of f a b max_iter tol] obtain r e it rows where
    res: "bisection_method f a b max_iter tol = Inr (r, e, it, rows)" by blast
  from nonpositive_tolerance(1)[OF assms(1) res] res
  show "\<exists>x_root err rows.
            bisection_method f a b max_iter tol = Inr (x_root, err, max_iter, rows)
          \<and> length rows = nat max_iter"
    by auto
next
  show "regula_falsi f a b max_iter tol = Inl InvalidBracket
      \<or> regula_falsi f a b max_iter tol = Inl FloatDivisionByZero
      \<or> (\<exists>x_root err rows.
            regula_falsi f a b max_iter tol = Inr (x_root, err, max_iter, rows)
          \<and> length rows = nat max_iter)"
    using regula_falsi_error[OF assms(2), of f a b tol] nonpositive_tolerance(2)[OF assms(1)]
    by blast
next
  assume h: "\<not> 0 < fmul (f a) (f b)
      \<and> (\<forall>k a' b' fa' fb'. k < nat max_iter
            \<and> regula_falsi_vars f tol a b (f a) (f b) k = Some (a', b', fa', fb')
            \<longrightarrow> fsub fb' fa' \<noteq> 0)"
  then have "\<exists>r e it rows. regula_falsi f a b max_iter tol = Inr (r, e, it, rows)"
    using assms(2) by (intro regula_falsi_returns) blast+
  then obtain r e it rows where
    res: "regula_falsi f a b max_iter tol = Inr (r, e, it, rows)" by blast
  from nonpositive_tolerance(2)[OF assms(1) res] res
  show "\<exists>x_root err rows.
            regula_falsi f a b max_iter tol = Inr (x_root, err, max_iter, rows)
          \<and> length rows = nat max_iter"
    by auto
next
  show "secant_method f x0 x1 max_iter tol = Inl ZeroDenominator
      \<or> (\<exists>x_root err rows.
            secant_method f x0 x1 max_iter tol = Inr (x_root, err, max_iter, rows)
          \<and> length rows = nat max_iter)"
    using secant_method_error[OF assms(2), of f x0 x1 tol] nonpositive_tolerance(3)[OF assms(1)]
    by blast
next
  assume h: "\<forall>k y0 y1. k < nat max_iter \<and> secant_vars f tol x0 x1 k = Some (y0, y1)
            \<longrightarrow> fsub (f y1) (f y0) \<noteq> 0"
  then have "\<exists>r e it rows. secant_method f x0 x1 max_iter tol = Inr (r, e, it, rows)"
    using assms(2) by (intro secant_method_returns) blast+
  then obtain r e it rows where
    res: "secant_method f x0 x1 max_iter tol = Inr (r, e, it, rows)" by blast
  from nonpositive_tolerance(3)[OF assms(1) res] res
  show "\<exists>x_root err rows.
            secant_method f x0 x1 max_iter tol = Inr (x_root, err, max_iter, rows)
          \<and> length rows = nat max_iter"
    by auto
next
  show "newton_raphson f df x0 max_iter tol = Inl ZeroDerivative
      \<or> (\<exists>x_root err rows.
            newton_raphson f df x0 max_iter tol = Inr (x_root, err, max_iter, rows)
          \<and> length rows = nat max_iter)"
    using newton_raphson_error[OF assms(2), of f df x0 tol] nonpositive_tolerance(4)[OF assms(1)]
    by blast
next
  assume h: "\<forall>k y. k < nat max_iter \<and> newton_vars f df tol x0 k = Some y \<longrightarrow> df y \<noteq> 0"
  then have "\<exists>r e it rows. newton_raphson f df x0 max_iter tol = Inr (r, e, it, rows)"
    using assms(2) by (intro newton_raphson_returns) blast+
  then obtain r e it rows where
    res: "newton_raphson f df x0 max_iter tol = Inr (r, e, it, rows)" by blast
  from nonpositive_tolerance(4)[OF assms(1) res] res
  show "\<exists>x_root err rows.
            newton_raphson f df x0 max_iter tol = Inr (x_root, err, max_iter, rows)
          \<and> length rows = nat max_iter"
    by auto
next
  show "modified_secant f x0 delta max_iter tol = Inl ZeroDenominator
      \<or> (\<exists>x_root err rows.
            modified_secant f x0 delta max_iter tol = Inr (x_root, err, max_iter, rows)
          \<and> length rows = nat max_iter)"
    using modified_secant_error[OF assms(2), of f x0 delta tol] nonpositive_tolerance(6)[OF assms(1)]
    by blast
next
  assume h: "\<forall>k y. k < nat max_iter \<and> modified_secant_vars f delta tol x0 k = Some y
            \<longrightarrow> fsub (f (fadd y delta)) (f y) \<noteq> 0"
  then have "\<exists>r e it rows. modified_secant f x0 delta max_iter tol = Inr (r, e, it, rows)"
    using assms(2) by (intro modified_secant_returns) blast+
  then obtain r e it rows where
    res: "modified_secant f x0 delta max_iter tol = Inr (r, e, it, rows)" by blast
  from nonpositive_tolerance(6)[OF assms(1) res] res
  show "\<exists>x_root err rows.
            modified_secant f x0 delta max_iter tol = Inr (x_root, err, max_iter, rows)
          \<and> length rows = nat max_iter"
    by auto
qed

theorem tolerance_not_validated_witness:
  "(0::real) \<le> 0 \<and> (1::int) \<le> 2 \<and> \<not> 0 < fmul (ex_id (- 1)) (ex_id 1)
 \<and> (\<exists>x_root err rows.
        fixed_point_iteration ex_double 1 2 0 = Inr (x_root, err, 2, rows) \<and> length rows = nat 2)
 \<and> (\<exists>x_root err rows.
        bisection_method ex_id (- 1) 1 2 0 = Inr (x_root, err, 2, rows) \<and> length rows = nat 2)
 \<and> bisection_method ex_id (- 1) 1 2 0 =
      Inr (1 / 2, 1 / 2, 2,
        [\<lparr>br_iter = 1, br_a = - 1, br_b = 1, br_c = 0, br_fc = 0, br_error = 1\<rparr>,
         \<lparr>br_iter = 2, br_a = 0, br_b = 1, br_c = 1 / 2, br_fc = 1 / 2, br_error = 1 / 2\<rparr>])
 \<and> (1::int) \<le> 1
 \<and> \<not> 0 < fmul (ex_sq_m2 0) (ex_sq_m2 2)
 \<and> regula_falsi_vars ex_sq_m2 0 0 2 (ex_sq_m2 0) (ex_sq_m2 2) 0 = Some (0, 2, - 2, 2)
 \<and> fsub 2 (- 2) \<noteq> 0
 \<and> (\<exists>x_root err rows.
        regula_falsi ex_sq_m2 0 2 1 0 = Inr (x_root, err, 1, rows) \<and> length rows = nat 1)
 \<and> secant_vars ex_sq_m2 0 0 2 0 = Some (0, 2)
 \<and> fsub (ex_sq_m2 2) (ex_sq_m2 0) \<noteq> 0
 \<and> (\<exists>x_root err rows.
        secant_method ex_sq_m2 0 2 1 0 = Inr (x_root, err, 1, rows) \<and> length rows = nat 1)
 \<and> newton_vars ex_sq_m2 ex_double 0 2 0 = Some 2
 \<and> ex_double 2 \<noteq> 0
 \<and> (\<exists>x_root err rows.
        newton_raphson ex_sq_m2 ex_double 2 1 0 = Inr (x_root, err, 1, rows) \<and> length rows = nat 1)
 \<and> modified_secant_vars ex_id 1 0 1 0 = Some 1
 \<and> fsub (ex_id (fadd 1 1)) (ex_id 1) \<noteq> 0
 \<and> (\<exists>x_root err rows.
        modified_secant ex_id 1 1 1 0 = Inr (x_root, err, 1, rows) \<and> length rows = nat 1)"
proof -
  have h1: "(0::real) \<le> 0" and h2: "(1::int) \<le> 2" and h2': "(1::int) \<le> 1"
    and h3: "\<not> 0 < fmul (ex_id (- 1)) (ex_id 1)"
    by (simp_all add: ex_id_def dbl_eval)
  have ev: "bisection_method ex_id (- 1) 1 2 0 =
      Inr (1 / 2, 1 / 2, 2,
        [\<lparr>br_iter = 1, br_a = - 1, br_b = 1, br_c = 0, br_fc = 0, br_error = 1\<rparr>,
         \<lparr>br_iter = 2, br_a = 0, br_b = 1, br_c = 1 / 2, br_fc = 1 / 2, br_error = 1 / 2\<rparr>])"
    by (simp add: bisection_method_def bisection_loop.simps bisection_body_def ex_id_def dbl_eval)
  from tolerance_not_validated[OF h1 h2, of ex_double 1 ex_id "- 1" 1 1 ex_id 1] h3
  have c1: "(\<exists>x_root err rows.
        fixed_point_iteration ex_double 1 2 0 = Inr (x_root, err, 2, rows) \<and> length rows = nat 2)
     \<and> (\<exists>x_root err rows.
        bisection_method ex_id (- 1) 1 2 0 = Inr (x_root, err, 2, rows) \<and> length rows = nat 2)"
    by blast
  have rbr: "\<not> 0 < fmul (ex_sq_m2 0) (ex_sq_m2 2)"
    by (simp add: ex_sq_m2_def dbl_eval)
  have rvars: "regula_falsi_vars ex_sq_m2 0 0 2 (ex_sq_m2 0) (ex_sq_m2 2) 0 = Some (0, 2, - 2, 2)"
    by (simp add: ex_sq_m2_def dbl_eval)
  have rden: "fsub 2 (- 2) \<noteq> (0::real)"
    by (simp add: dbl_eval)
  have rhyp: "\<not> 0 < fmul (ex_sq_m2 0) (ex_sq_m2 2)
      \<and> (\<forall>k a' b' fa' fb'. k < nat 1
            \<and> regula_falsi_vars ex_sq_m2 0 0 2 (ex_sq_m2 0) (ex_sq_m2 2) k = Some (a', b', fa', fb')
            \<longrightarrow> fsub fb' fa' \<noteq> 0)"
    using rbr rvars rden by auto
  have svars: "secant_vars ex_sq_m2 0 0 2 0 = Some (0, 2)"
    by simp
  have sden: "fsub (ex_sq_m2 2) (ex_sq_m2 0) \<noteq> 0"
    by (simp add: ex_sq_m2_def dbl_eval)
  have shyp: "\<forall>k y0 y1. k < nat 1 \<and> secant_vars ex_sq_m2 0 0 2 k = Some (y0, y1)
            \<longrightarrow> fsub (ex_sq_m2 y1) (ex_sq_m2 y0) \<noteq> 0"
    using sden by simp
  note instB = tolerance_not_validated[OF h1 h2', of ex_double 0 ex_sq_m2 0 2 2 ex_double 1]
  from instB rhyp
  have c2: "\<exists>x_root err rows.
        regula_falsi ex_sq_m2 0 2 1 0 = Inr (x_root, err, 1, rows) \<and> length rows = nat 1"
    by blast
  from instB shyp
  have c3: "\<exists>x_root err rows.
        secant_method ex_sq_m2 0 2 1 0 = Inr (x_root, err, 1, rows) \<and> length rows = nat 1"
    by blast
  have nvars: "newton_vars ex_sq_m2 ex_double 0 2 0 = Some 2"
    by simp
  have nden: "ex_double 2 \<noteq> 0"
    by (simp add: ex_double_def dbl_eval)
  have nhyp: "\<forall>k y. k < nat 1 \<and> newton_vars ex_sq_m2 ex_double 0 2 k = Some y
            \<longrightarrow> ex_double y \<noteq> 0"
    using nden by simp
  from tolerance_not_validated[OF h1 h2', of ex_double 2 ex_sq_m2 0 2 0 ex_double 1] nhyp
  have c4: "\<exists>x_root err rows.
        newton_raphson ex_sq_m2 ex_double 2 1 0 = Inr (x_root, err, 1, rows) \<and> length rows = nat 1"
    by blast
  have mvars: "modified_secant_vars ex_id 1 0 1 0 = Some 1"
    by simp
  have mden: "fsub (ex_id (fadd 1 1)) (ex_id 1) \<noteq> 0"
    by (simp add: ex_id_def dbl_eval)
  have mhyp: "\<forall>k y. k < nat 1 \<and> modified_secant_vars ex_id 1 0 1 k = Some y
            \<longrightarrow> fsub (ex_id (fadd y 1)) (ex_id y) \<noteq> 0"
    using mden by simp
  from tolerance_not_validated[OF h1 h2', of ex_double 1 ex_id 0 2 0 ex_double 1] mhyp
  have c5: "\<exists>x_root err rows.
        modified_secant ex_id 1 1 1 0 = Inr (x_root, err, 1, rows) \<and> length rows = nat 1"
    by blast
  have part1: "(0::real) \<le> 0 \<and> (1::int) \<le> 2 \<and> \<not> 0 < fmul (ex_id (- 1)) (ex_id 1)"
    using h3 by simp
  from part1 c1 ev h2' rbr rvars rden c2 svars sden c3 nvars nden c4 mvars mden c5
  show ?thesis by (intro conjI) simp_all
qed

text \<open>
  C4, as the spec states it, fails. The value returned beside the root is not always
  the method's error metric: bisection returns \<open>abs(fc)\<close>, here \<open>1/4\<close>, while the error
  metric of its last row is the half-width \<open>1/2\<close>. And a method can raise on an input
  that has \<open>tol > 0\<close>, \<open>max_iter \<ge> 1\<close> and no pass meeting the convergence test: the secant
  method with \<open>f(x) = x\<^sup>2 - 1\<close> and seeds \<open>1\<close>, \<open>-1\<close>; and regula falsi on \<open>[-1, 2]\<close> with the
  step function of magnitude \<open>2\<^bsup>-600\<^esup>\<close>, where \<open>f(a)\<cdot>f(b) < 0\<close>, the product \<open>fa\<cdot>fc\<close> of the
  first pass rounds to zero, the wrong endpoint is replaced and the second pass divides
  by \<open>fb - fa = 0\<close>.
\<close>

theorem exhausted_result_counterexample:
  "bisection_method ex_sq_m2 1 2 1 (1 / 1000) =
     Inr (3 / 2, 1 / 4, 1, [\<lparr>br_iter = 1, br_a = 1, br_b = 2, br_c = 3 / 2, br_fc = 1 / 4, br_error = 1 / 2\<rparr>])
 \<and> (1 / 4 :: real) \<noteq> 1 / 2
 \<and> secant_method ex_sq_m1 1 (- 1) 1 (1 / 1000) = Inl ZeroDenominator
 \<and> ex_step (- 1) * ex_step 2 < 0 \<and> (0::real) < 1 / 2 ^ 700
 \<and> regula_falsi ex_step (- 1) 2 5 (1 / 2 ^ 700) = Inl FloatDivisionByZero"
  by (simp add: bisection_method_def bisection_loop.simps bisection_body_def ex_sq_m2_def
      secant_method_def secant_loop.simps ex_sq_m1_def
      regula_falsi_def regula_falsi_loop.simps ex_step_def dbl_eval)

text \<open>
  C4, amended. Let \<open>max_iter \<ge> 1\<close>. Bisection on a bracket that passes the entry check, and
  fixed-point iteration, return a result. Regula falsi on a bracket that passes the entry
  check, the secant method, Newton-Raphson and the modified secant method return a result
  whenever no pass that the loop reaches meets a zero denominator (for Newton-Raphson: a
  zero derivative); the passes reached are given by the loop variables at the start of
  each pass. Whenever no row of the returned result meets the convergence test, the
  result has \<open>iters = max_iter\<close>, exactly \<open>max_iter\<close> rows, the estimate of the last row as
  root, and as final value the absolute function value of the last row (for fixed-point
  iteration: the error of the last row).
\<close>

theorem exhausted_result:
  assumes "1 \<le> max_iter"
  shows
  "(\<not> 0 < fmul (f a) (f b) \<longrightarrow>
      (\<exists>x_root final iters rows.
          bisection_method f a b max_iter tol = Inr (x_root, final, iters, rows)
        \<and> ((\<forall>row\<in>set rows. \<not> bisection_converged tol row) \<longrightarrow>
              iters = max_iter \<and> length rows = nat max_iter
            \<and> x_root = br_c (last rows) \<and> final = \<bar>br_fc (last rows)\<bar>)))
 \<and> (\<not> 0 < fmul (f a) (f b)
      \<and> (\<forall>k a' b' fa' fb'. k < nat max_iter
            \<and> regula_falsi_vars f tol a b (f a) (f b) k = Some (a', b', fa', fb')
            \<longrightarrow> fsub fb' fa' \<noteq> 0) \<longrightarrow>
      (\<exists>x_root final iters rows.
          regula_falsi f a b max_iter tol = Inr (x_root, final, iters, rows)
        \<and> ((\<forall>row\<in>set rows. \<not> regula_falsi_converged tol row) \<longrightarrow>
              iters = max_iter \<and> length rows = nat max_iter
            \<and> x_root = br_c (last rows) \<and> final = \<bar>br_fc (last rows)\<bar>)))
 \<and> (\<exists>x_root final iters rows.
          fixed_point_iteration g x0 max_iter tol = Inr (x_root, final, iters, rows)
        \<and> ((\<forall>row\<in>set rows. \<not> fixed_point_converged tol row) \<longrightarrow>
              iters = max_iter \<and> length rows = nat max_iter
            \<and> x_root = fp_gx (last rows) \<and> final = fp_error (last rows)))
 \<and> ((\<forall>k y0 y1. k < nat max_iter \<and> secant_vars f tol x0 x1 k = Some (y0, y1)
            \<longrightarrow> fsub (f y1) (f y0) \<noteq> 0) \<longrightarrow>
      (\<exists>x_root final iters rows.
          secant_method f x0 x1 max_iter tol = Inr (x_root, final, iters, rows)
        \<and> ((\<forall>row\<in>set rows. \<not> secant_converged tol row) \<longrightarrow>
              iters = max_iter \<and> length rows = nat max_iter
            \<and> x_root = sc_x2 (last rows) \<and> final = \<bar>sc_fx2 (last rows)\<bar>)))
 \<and> ((\<forall>k y. k < nat max_iter \<and> newton_vars f df tol x0 k = Some y \<longrightarrow> df y \<noteq> 0) \<longrightarrow>
      (\<exists>x_root final iters rows.
          newton_raphson f df x0 max_iter tol = Inr (x_root, final, iters, rows)
        \<and> ((\<forall>row\<in>set rows. \<not> newton_converged tol row) \<longrightarrow>
              iters = max_iter \<and> length rows = nat max_iter
            \<and> x_root = nr_x_new (last rows) \<and> final = \<bar>nr_fx (last rows)\<bar>)))
 \<and> ((\<forall>k y. k < nat max_iter \<and> modified_secant_vars f delta tol x0 k = Some y
            \<longrightarrow> fsub (f (fadd y delta)) (f y) \<noteq> 0) \<longrightarrow>
      (\<exists>x_root final iters rows.
          modified_secant f x0 delta max_iter tol = Inr (x_root, final, iters, rows)
        \<and> ((\<forall>row\<in>set rows. \<not> modified_secant_converged tol row) \<longrightarrow>
              iters = max_iter \<and> length rows = nat max_iter
            \<and> x_root = ms_x_new (last rows) \<and> final = \<bar>ms_fx (last rows)\<bar>)))"
proof (intro conjI impI)
  assume br: "\<not> 0 < fmul (f a) (f b)"
  from br assms bisection_method_returns[of f a b max_iter tol] obtain r e it rows where
    res: "bisection_method f a b max_iter tol = Inr (r, e, it, rows)" by blast
  from bisection_method_post[OF res]
  have "(\<forall>row\<in>set rows. \<not> bisection_converged tol row) \<longrightarrow>
          it = max_iter \<and> length rows = nat max_iter \<and> r = br_c (last rows) \<and> e = \<bar>br_fc (last rows)\<bar>"
    by (metis last_in_set)
  with res show "\<exists>x_root final iters rows.
          bisection_method f a b max_iter tol = Inr (x_root, final, iters, rows)
        \<and> ((\<forall>row\<in>set rows. \<not> bisection_converged tol row) \<longrightarrow>
              iters = max_iter \<and> length rows = nat max_iter
            \<and> x_root = br_c (last rows) \<and> final = \<bar>br_fc (last rows)\<bar>)"
    by blast
next
  assume h: "\<not> 0 < fmul (f a) (f b)
      \<and> (\<forall>k a' b' fa' fb'. k < nat max_iter
            \<and> regula_falsi_vars f tol a b (f a) (f b) k = Some (a', b', fa', fb')
            \<longrightarrow> fsub fb' fa' \<noteq> 0)"
  then have "\<exists>r e it rows. regula_falsi f a b max_iter tol = Inr (r, e, it, rows)"
    using assms by (intro regula_falsi_returns) blast+
  then obtain r e it rows where
    res: "regula_falsi f a b max_iter tol = Inr (r, e, it, rows)" by blast
  from regula_falsi_post[OF res]
  have "(\<forall>row\<in>set rows. \<not> regula_falsi_converged tol row) \<longrightarrow>
          it = max_iter \<and> length rows = nat max_iter \<and> r = br_c (last rows) \<and> e = \<bar>br_fc (last rows)\<bar>"
    by (metis last_in_set)
  with res show "\<exists>x_root final iters rows.
          regula_falsi f a b max_iter tol = Inr (x_root, final, iters, rows)
        \<and> ((\<forall>row\<in>set rows. \<not> regula_falsi_converged tol row) \<longrightarrow>
              iters = max_iter \<and> length rows = nat max_iter
            \<and> x_root = br_c (last rows) \<and> final = \<bar>br_fc (last rows)\<bar>)"
    by blast
next
  from fixed_point_method_returns[OF assms] obtain r e it rows where
    res: "fixed_point_iteration g x0 max_iter tol = Inr (r, e, it, rows)" by blast
  from fixed_point_iteration_post[OF res]
  have "(\<forall>row\<in>set rows. \<not> fixed_point_converged tol row) \<longrightarrow>
          it = max_iter \<and> length rows = nat max_iter \<and> r = fp_gx (last rows) \<and> e = fp_error (last rows)"
    by (metis last_in_set)
  with res show "\<exists>x_root final iters rows.
          fixed_point_iteration g x0 max_iter tol = Inr (x_root, final, iters, rows)
        \<and> ((\<forall>row\<in>set rows. \<not> fixed_point_converged tol row) \<longrightarrow>
              iters = max_iter \<and> length rows = nat max_iter
            \<and> x_root = fp_gx (last rows) \<and> final = fp_error (last rows))"
    by blast
next
  assume h: "\<forall>k y0 y1. k < nat max_iter \<and> secant_vars f tol x0 x1 k = Some (y0, y1)
            \<longrightarrow> fsub (f y1) (f y0) \<noteq> 0"
  then have "\<exists>r e it rows. secant_method f x0 x1 max_iter tol = Inr (r, e, it, rows)"
    using assms by (intro secant_method_returns) blast+
  then obtain r e it rows where
    res: "secant_method f x0 x1 max_iter tol = Inr (r, e, it, rows)" by blast
  from secant_method_post[OF res]
  have "(\<forall>row\<in>set rows. \<not> secant_converged tol row) \<longrightarrow>
          it = max_iter \<and> length rows = nat max_iter \<and> r = sc_x2 (last rows) \<and> e = \<bar>sc_fx2 (last rows)\<bar>"
    by (metis last_in_set)
  with res show "\<exists>x_root final iters rows.
          secant_method f x0 x1 max_iter tol = Inr (x_root, final, iters, rows)
        \<and> ((\<forall>row\<in>set rows. \<not> secant_converged tol row) \<longrightarrow>
              iters = max_iter \<and> length rows = nat max_iter
            \<and> x_root = sc_x2 (last rows) \<and> final = \<bar>sc_fx2 (last rows)\<bar>)"
    by blast
next
  assume h: "\<forall>k y. k < nat max_iter \<and> newton_vars f df tol x0 k = Some y \<longrightarrow> df y \<noteq> 0"
  then have "\<exists>r e it rows. newton_raphson f df x0 max_iter tol = Inr (r, e, it, rows)"
    using assms by (intro newton_raphson_returns) blast+
  then obtain r e it rows where
    res: "newton_raphson f df x0 max_iter tol = Inr (r, e, it, rows)" by blast
  from newton_raphson_post[OF res]
  have "(\<forall>row\<in>set rows. \<not> newton_converged tol row) \<longrightarrow>
          it = max_iter \<and> length rows = nat max_iter \<and> r = nr_x_new (last rows) \<and> e = \<bar>nr_fx (last rows)\<bar>"
    by (metis last_in_set)
  with res show "\<exists>x_root final iters rows.
          newton_raphson f df x0 max_iter tol = Inr (x_root, final, iters, rows)
        \<and> ((\<forall>row\<in>set rows. \<not> newton_converged tol row) \<longrightarrow>
              iters = max_iter \<and> length rows = nat max_iter
            \<and> x_root = nr_x_new (last rows) \<and> final = \<bar>nr_fx (last rows)\<bar>)"
    by blast
next
  assume h: "\<forall>k y. k < nat max_iter \<and> modified_secant_vars f delta tol x0 k = Some y
            \<longrightarrow> fsub (f (fadd y delta)) (f y) \<noteq> 0"
  then have "\<exists>r e it rows. modified_secant f x0 delta max_iter tol = Inr (r, e, it, rows)"
    using assms by (intro modified_secant_returns) blast+
  then obtain r e it rows where
    res: "modified_secant f x0 delta max_iter tol = Inr (r, e, it, rows)" by blast
  from modified_secant_post[OF res]
  have "(\<forall>row\<in>set rows. \<not> modified_secant_converged tol row) \<longrightarrow>
          it = max_iter \<and> length rows = nat max_iter \<and> r = ms_x_new (last rows) \<and> e = \<bar>ms_fx (last rows)\<bar>"
    by (metis last_in_set)
  with res show "\<exists>x_root final iters rows.
          modified_secant f x0 delta max_iter tol = Inr (x_root, final, iters, rows)
        \<and> ((\<forall>row\<in>set rows. \<not> modified_secant_converged tol row) \<longrightarrow>
              iters = max_iter \<and> length rows = nat max_iter
            \<and> x_root = ms_x_new (last rows) \<and> final = \<bar>ms_fx (last rows)\<bar>)"
    by blast
qed

theorem exhausted_result_witness:
  "(1::int) \<le> 3
 \<and> \<not> 0 < fmul (ex_sq_m2 1) (ex_sq_m2 2)
 \<and> bisection_method ex_sq_m2 1 2 3 (1 / 1000) =
     Inr (11 / 8, 7 / 64, 3,
       [\<lparr>br_iter = 1, br_a = 1, br_b = 2, br_c = 3 / 2, br_fc = 1 / 4, br_error = 1 / 2\<rparr>,
        \<lparr>br_iter = 2, br_a = 1, br_b = 3 / 2, br_c = 5 / 4, br_fc = - (7 / 16), br_error = 1 / 4\<rparr>,
        \<lparr>br_iter = 3, br_a = 5 / 4, br_b = 3 / 2, br_c = 11 / 8, br_fc = - (7 / 64), br_error = 1 / 8\<rparr>])
 \<and> (\<exists>x_root final rows.
        bisection_method ex_sq_m2 1 2 3 (1 / 1000) = Inr (x_root, final, 3, rows)
      \<and> length rows = nat 3 \<and> x_root = br_c (last rows) \<and> final = \<bar>br_fc (last rows)\<bar>)
 \<and> fixed_point_iteration ex_double 1 3 (1 / 1000) =
     Inr (8, 4, 3,
       [\<lparr>fp_iter = 1, fp_x = 1, fp_gx = 2, fp_error = 1\<rparr>,
        \<lparr>fp_iter = 2, fp_x = 2, fp_gx = 4, fp_error = 2\<rparr>,
        \<lparr>fp_iter = 3, fp_x = 4, fp_gx = 8, fp_error = 4\<rparr>])
 \<and> (\<exists>x_root final rows.
        fixed_point_iteration ex_double 1 3 (1 / 1000) = Inr (x_root, final, 3, rows)
      \<and> length rows = nat 3 \<and> x_root = fp_gx (last rows) \<and> final = fp_error (last rows))
 \<and> secant_vars ex_sq_m2 (1 / 1000) 0 2 0 = Some (0, 2)
 \<and> fsub (ex_sq_m2 2) (ex_sq_m2 0) \<noteq> 0
 \<and> secant_method ex_sq_m2 0 2 1 (1 / 1000) =
     Inr (1, 1, 1, [\<lparr>sc_iter = 1, sc_x0 = 0, sc_x1 = 2, sc_x2 = 1, sc_fx2 = - 1, sc_error = 1\<rparr>])
 \<and> (\<exists>x_root final rows.
        secant_method ex_sq_m2 0 2 1 (1 / 1000) = Inr (x_root, final, 1, rows)
      \<and> length rows = nat 1 \<and> x_root = sc_x2 (last rows) \<and> final = \<bar>sc_fx2 (last rows)\<bar>)
 \<and> \<not> 0 < fmul (ex_sq_m2 0) (ex_sq_m2 2)
 \<and> regula_falsi_vars ex_sq_m2 (1 / 1000) 0 2 (ex_sq_m2 0) (ex_sq_m2 2) 0 = Some (0, 2, - 2, 2)
 \<and> fsub 2 (- 2) \<noteq> 0
 \<and> regula_falsi ex_sq_m2 0 2 1 (1 / 1000) =
     Inr (1, 1, 1, [\<lparr>br_iter = 1, br_a = 0, br_b = 2, br_c = 1, br_fc = - 1, br_error = 1\<rparr>])
 \<and> (\<exists>x_root final rows.
        regula_falsi ex_sq_m2 0 2 1 (1 / 1000) = Inr (x_root, final, 1, rows)
      \<and> length rows = nat 1 \<and> x_root = br_c (last rows) \<and> final = \<bar>br_fc (last rows)\<bar>)
 \<and> newton_vars ex_sq_m2 ex_double (1 / 1000) 2 0 = Some 2
 \<and> ex_double 2 \<noteq> 0
 \<and> newton_raphson ex_sq_m2 ex_double 2 1 (1 / 1000) =
     Inr (3 / 2, 2, 1,
       [\<lparr>nr_iter = 1, nr_x = 2, nr_fx = 2, nr_dfx = 4, nr_x_new = 3 / 2, nr_error = 1 / 2\<rparr>])
 \<and> (\<exists>x_root final rows.
        newton_raphson ex_sq_m2 ex_double 2 1 (1 / 1000) = Inr (x_root, final, 1, rows)
      \<and> length rows = nat 1 \<and> x_root = nr_x_new (last rows) \<and> final = \<bar>nr_fx (last rows)\<bar>)
 \<and> modified_secant_vars ex_id 1 (1 / 1000) 1 0 = Some 1
 \<and> fsub (ex_id (fadd 1 1)) (ex_id 1) \<noteq> 0
 \<and> modified_secant ex_id 1 1 1 (1 / 1000) =
     Inr (0, 1, 1, [\<lparr>ms_iter = 1, ms_x = 1, ms_fx = 1, ms_x_new = 0, ms_error = 1\<rparr>])
 \<and> (\<exists>x_root final rows.
        modified_secant ex_id 1 1 1 (1 / 1000) = Inr (x_root, final, 1, rows)
      \<and> length rows = nat 1 \<and> x_root = ms_x_new (last rows) \<and> final = \<bar>ms_fx (last rows)\<bar>)"
proof -
  let ?tol = "1 / 1000 :: real"
  have h3: "(1::int) \<le> 3" and h1: "(1::int) \<le> 1" by simp_all
  have br: "\<not> 0 < fmul (ex_sq_m2 1) (ex_sq_m2 2)"
    by (simp add: ex_sq_m2_def dbl_eval)
  have bis: "bisection_method ex_sq_m2 1 2 3 ?tol =
     Inr (11 / 8, 7 / 64, 3,
       [\<lparr>br_iter = 1, br_a = 1, br_b = 2, br_c = 3 / 2, br_fc = 1 / 4, br_error = 1 / 2\<rparr>,
        \<lparr>br_iter = 2, br_a = 1, br_b = 3 / 2, br_c = 5 / 4, br_fc = - (7 / 16), br_error = 1 / 4\<rparr>,
        \<lparr>br_iter = 3, br_a = 5 / 4, br_b = 3 / 2, br_c = 11 / 8, br_fc = - (7 / 64), br_error = 1 / 8\<rparr>])"
    by (simp add: bisection_method_def bisection_loop.simps bisection_body_def ex_sq_m2_def dbl_eval)
  have fpi: "fixed_point_iteration ex_double 1 3 ?tol =
     Inr (8, 4, 3,
       [\<lparr>fp_iter = 1, fp_x = 1, fp_gx = 2, fp_error = 1\<rparr>,
        \<lparr>fp_iter = 2, fp_x = 2, fp_gx = 4, fp_error = 2\<rparr>,
        \<lparr>fp_iter = 3, fp_x = 4, fp_gx = 8, fp_error = 4\<rparr>])"
    by (simp add: fixed_point_iteration_def fixed_point_loop.simps ex_double_def dbl_eval)
  have vars: "secant_vars ex_sq_m2 ?tol 0 2 0 = Some (0, 2)"
    by simp
  have den: "fsub (ex_sq_m2 2) (ex_sq_m2 0) \<noteq> 0"
    by (simp add: ex_sq_m2_def dbl_eval)
  have sec: "secant_method ex_sq_m2 0 2 1 ?tol =
     Inr (1, 1, 1, [\<lparr>sc_iter = 1, sc_x0 = 0, sc_x1 = 2, sc_x2 = 1, sc_fx2 = - 1, sc_error = 1\<rparr>])"
    by (simp add: secant_method_def secant_loop.simps ex_sq_m2_def dbl_eval)
  have hyp: "\<forall>k y0 y1. k < nat 1 \<and> secant_vars ex_sq_m2 ?tol 0 2 k = Some (y0, y1)
            \<longrightarrow> fsub (ex_sq_m2 y1) (ex_sq_m2 y0) \<noteq> 0"
    using den by simp
  note inst3 = exhausted_result[OF h3, of ex_sq_m2 1 2 ?tol ex_double 1 0 ex_id 0]
  note inst1 = exhausted_result[OF h1, of ex_sq_m2 0 2 ?tol ex_double 0 2 ex_id 0]
  from inst3 br obtain r e it rows where
    b1: "bisection_method ex_sq_m2 1 2 3 ?tol = Inr (r, e, it, rows)" and
    b2: "(\<forall>row\<in>set rows. \<not> bisection_converged ?tol row) \<longrightarrow>
           it = 3 \<and> length rows = nat 3 \<and> r = br_c (last rows) \<and> e = \<bar>br_fc (last rows)\<bar>"
    by blast
  from b1 bis have "\<forall>row\<in>set rows. \<not> bisection_converged ?tol row"
    by (auto simp: bisection_converged_def)
  with b1 b2 have c1: "\<exists>x_root final rows.
        bisection_method ex_sq_m2 1 2 3 ?tol = Inr (x_root, final, 3, rows)
      \<and> length rows = nat 3 \<and> x_root = br_c (last rows) \<and> final = \<bar>br_fc (last rows)\<bar>"
    by blast
  from inst3 obtain r e it rows where
    f1: "fixed_point_iteration ex_double 1 3 ?tol = Inr (r, e, it, rows)" and
    f2: "(\<forall>row\<in>set rows. \<not> fixed_point_converged ?tol row) \<longrightarrow>
           it = 3 \<and> length rows = nat 3 \<and> r = fp_gx (last rows) \<and> e = fp_error (last rows)"
    by blast
  from f1 fpi have "\<forall>row\<in>set rows. \<not> fixed_point_converged ?tol row"
    by (auto simp: fixed_point_converged_def)
  with f1 f2 have c2: "\<exists>x_root final rows.
        fixed_point_iteration ex_double 1 3 ?tol = Inr (x_root, final, 3, rows)
      \<and> length rows = nat 3 \<and> x_root = fp_gx (last rows) \<and> final = fp_error (last rows)"
    by blast
  from inst1 hyp obtain r e it rows where
    s1: "secant_method ex_sq_m2 0 2 1 ?tol = Inr (r, e, it, rows)" and
    s2: "(\<forall>row\<in>set rows. \<not> secant_converged ?tol row) \<longrightarrow>
           it = 1 \<and> length rows = nat 1 \<and> r = sc_x2 (last rows) \<and> e = \<bar>sc_fx2 (last rows)\<bar>"
    by blast
  from s1 sec have "\<forall>row\<in>set rows. \<not> secant_converged ?tol row"
    by (auto simp: secant_converged_def)
  with s1 s2 have c3: "\<exists>x_root final rows.
        secant_method ex_sq_m2 0 2 1 ?tol = Inr (x_root, final, 1, rows)
      \<and> length rows = nat 1 \<and> x_root = sc_x2 (last rows) \<and> final = \<bar>sc_fx2 (last rows)\<bar>"
    by blast
  have rbr: "\<not> 0 < fmul (ex_sq_m2 0) (ex_sq_m2 2)"
    by (simp add: ex_sq_m2_def dbl_eval)
  have rvars: "regula_falsi_vars ex_sq_m2 ?tol 0 2 (ex_sq_m2 0) (ex_sq_m2 2) 0 = Some (0, 2, - 2, 2)"
    by (simp add: ex_sq_m2_def dbl_eval)
  have rden: "fsub 2 (- 2) \<noteq> (0::real)"
    by (simp add: dbl_eval)
  have reg: "regula_falsi ex_sq_m2 0 2 1 ?tol =
     Inr (1, 1, 1, [\<lparr>br_iter = 1, br_a = 0, br_b = 2, br_c = 1, br_fc = - 1, br_error = 1\<rparr>])"
    by (simp add: regula_falsi_def regula_falsi_loop.simps ex_sq_m2_def dbl_eval)
  have rhyp: "\<not> 0 < fmul (ex_sq_m2 0) (ex_sq_m2 2)
      \<and> (\<forall>k a' b' fa' fb'. k < nat 1
            \<and> regula_falsi_vars ex_sq_m2 ?tol 0 2 (ex_sq_m2 0) (ex_sq_m2 2) k = Some (a', b', fa', fb')
            \<longrightarrow> fsub fb' fa' \<noteq> 0)"
    using rbr rvars rden by auto
  from inst1 rhyp obtain r e it rows where
    r1: "regula_falsi ex_sq_m2 0 2 1 ?tol = Inr (r, e, it, rows)" and
    r2: "(\<forall>row\<in>set rows. \<not> regula_falsi_converged ?tol row) \<longrightarrow>
           it = 1 \<and> length rows = nat 1 \<and> r = br_c (last rows) \<and> e = \<bar>br_fc (last rows)\<bar>"
    by blast
  from r1 reg have "\<forall>row\<in>set rows. \<not> regula_falsi_converged ?tol row"
    by (auto simp: regula_falsi_converged_def)
  with r1 r2 have c4: "\<exists>x_root final rows.
        regula_falsi ex_sq_m2 0 2 1 ?tol = Inr (x_root, final, 1, rows)
      \<and> length rows = nat 1 \<and> x_root = br_c (last rows) \<and> final = \<bar>br_fc (last rows)\<bar>"
    by blast
  have nvars: "newton_vars ex_sq_m2 ex_double ?tol 2 0 = Some 2"
    by simp
  have nden: "ex_double 2 \<noteq> 0"
    by (simp add: ex_double_def dbl_eval)
  have newt: "newton_raphson ex_sq_m2 ex_double 2 1 ?tol =
     Inr (3 / 2, 2, 1,
       [\<lparr>nr_iter = 1, nr_x = 2, nr_fx = 2, nr_dfx = 4, nr_x_new = 3 / 2, nr_error = 1 / 2\<rparr>])"
    by (simp add: newton_raphson_def newton_loop.simps ex_sq_m2_def ex_double_def dbl_eval)
  have nhyp: "\<forall>k y. k < nat 1 \<and> newton_vars ex_sq_m2 ex_double ?tol 2 k = Some y
            \<longrightarrow> ex_double y \<noteq> 0"
    using nden by simp
  note instN = exhausted_result[OF h1, of ex_sq_m2 0 2 ?tol ex_double 2 0 ex_double 0]
  from instN nhyp obtain r e it rows where
    n1: "newton_raphson ex_sq_m2 ex_double 2 1 ?tol = Inr (r, e, it, rows)" and
    n2: "(\<forall>row\<in>set rows. \<not> newton_converged ?tol row) \<longrightarrow>
           it = 1 \<and> length rows = nat 1 \<and> r = nr_x_new (last rows) \<and> e = \<bar>nr_fx (last rows)\<bar>"
    by blast
  from n1 newt have "\<forall>row\<in>set rows. \<not> newton_converged ?tol row"
    by (auto simp: newton_converged_def)
  with n1 n2 have c5: "\<exists>x_root final rows.
        newton_raphson ex_sq_m2 ex_double 2 1 ?tol = Inr (x_root, final, 1, rows)
      \<and> length rows = nat 1 \<and> x_root = nr_x_new (last rows) \<and> final = \<bar>nr_fx (last rows)\<bar>"
    by blast
  have mvars: "modified_secant_vars ex_id 1 ?tol 1 0 = Some 1"
    by simp
  have mden: "fsub (ex_id (fadd 1 1)) (ex_id 1) \<noteq> 0"
    by (simp add: ex_id_def dbl_eval)
  have msec: "modified_secant ex_id 1 1 1 ?tol =
     Inr (0, 1, 1, [\<lparr>ms_iter = 1, ms_x = 1, ms_fx = 1, ms_x_new = 0, ms_error = 1\<rparr>])"
    by (simp add: modified_secant_def modified_secant_loop.simps ex_id_def dbl_eval)
  have mhyp: "\<forall>k y. k < nat 1 \<and> modified_secant_vars ex_id 1 ?tol 1 k = Some y
            \<longrightarrow> fsub (ex_id (fadd y 1)) (ex_id y) \<noteq> 0"
    using mden by simp
  note instM = exhausted_result[OF h1, of ex_id 0 2 ?tol ex_double 1 0 ex_double 1]
  from instM mhyp obtain r e it rows where
    m1: "modified_secant ex_id 1 1 1 ?tol = Inr (r, e, it, rows)" and
    m2: "(\<forall>row\<in>set rows. \<not> modified_secant_converged ?tol row) \<longrightarrow>
           it = 1 \<and> length rows = nat 1 \<and> r = ms_x_new (last rows) \<and> e = \<bar>ms_fx (last rows)\<bar>"
    by blast
  from m1 msec have "\<forall>row\<in>set rows. \<not> modified_secant_converged ?tol row"
    by (auto simp: modified_secant_converged_def)
  with m1 m2 have c6: "\<exists>x_root final rows.
        modified_secant ex_id 1 1 1 ?tol = Inr (x_root, final, 1, rows)
      \<and> length rows = nat 1 \<and> x_root = ms_x_new (last rows) \<and> final = \<bar>ms_fx (last rows)\<bar>"
    by blast
  have part1: "(1::int) \<le> 3 \<and> \<not> 0 < fmul (ex_sq_m2 1) (ex_sq_m2 2)"
    using h3 br by simp
  from part1 bis c1 fpi c2 vars den sec c3 rbr rvars rden reg c4 nvars nden newt c5 mvars mden msec c6
  show ?thesis by (intro conjI) simp_all
qed

text \<open>
  C5, as the spec states it, fails in double-precision arithmetic. With the endpoints
  \<open>0.1\<close> and \<open>0.3\<close> (the doubles nearest to \<open>1/10\<close> and \<open>3/10\<close>), \<open>f(x) = x - 0.17\<close> and two
  passes, the error recorded by the second pass is \<open>0.05\<close>, the double
  \<open>3602879701896397 / 2\<^bsup>56\<^esup>\<close>, which is not a quarter of the initial width \<open>\<bar>b - a\<bar>\<close>: the
  midpoint of the first pass is rounded.
\<close>

theorem bisection_width_halves_counterexample:
  "dbl (1 / 10) = 3602879701896397 / 36028797018963968
 \<and> dbl (3 / 10) = 5404319552844595 / 18014398509481984
 \<and> ex_shift (3602879701896397 / 36028797018963968) * ex_shift (5404319552844595 / 18014398509481984) < 0
 \<and> bisection_method ex_shift (3602879701896397 / 36028797018963968)
       (5404319552844595 / 18014398509481984) 2 (1 / 1000) =
     Inr (1351079888211149 / 9007199254740992, 720575940379279 / 36028797018963968, 2,
       [\<lparr>br_iter = 1, br_a = 3602879701896397 / 36028797018963968,
          br_b = 5404319552844595 / 18014398509481984,
          br_c = 3602879701896397 / 18014398509481984,
          br_fc = 1080863910568919 / 36028797018963968,
          br_error = 7205759403792793 / 72057594037927936\<rparr>,
        \<lparr>br_iter = 2, br_a = 3602879701896397 / 36028797018963968,
          br_b = 3602879701896397 / 18014398509481984,
          br_c = 1351079888211149 / 9007199254740992,
          br_fc = - 720575940379279 / 36028797018963968,
          br_error = 3602879701896397 / 72057594037927936\<rparr>])
 \<and> (3602879701896397 / 72057594037927936 :: real)
     \<noteq> \<bar>5404319552844595 / 18014398509481984 - 3602879701896397 / 36028797018963968\<bar> / 2 ^ 2"
  by (simp add: bisection_method_def bisection_loop.simps bisection_body_def ex_shift_def dbl_eval)

text \<open>
  C5, amended. For bisection with \<open>f(a)\<cdot>f(b) < 0\<close>, \<open>tol > 0\<close> and \<open>max_iter \<ge> 1\<close> a result is
  returned, with at least one row. The row of pass \<open>i\<close> (counted from 1) holds \<open>i\<close>, the
  midpoint and the half-width of its bracket as the doubles give them, that is
  \<open>(a + b)/2\<close> and \<open>\<bar>b - a\<bar>/2\<close> with every operation rounded. If every pass computes its
  midpoint and its half-width without rounding (\<open>bisection_pass_exact\<close>), then the row of
  pass \<open>i\<close> holds a bracket of width \<open>\<bar>b - a\<bar> / 2\<^bsup>i-1\<^esup>\<close> and the error \<open>\<bar>b - a\<bar> / 2\<^sup>i\<close>, for
  the initial endpoints \<open>a\<close> and \<open>b\<close>.
\<close>

theorem bisection_width_halves:
  assumes "f a * f b < 0" and "0 < tol" and "1 \<le> max_iter"
  shows "\<exists>x_root final iters rows.
      bisection_method f a b max_iter tol = Inr (x_root, final, iters, rows)
    \<and> rows \<noteq> []
    \<and> (\<forall>k<length rows.
           br_iter (rows ! k) = int k + 1
         \<and> br_c (rows ! k) = fdiv (fadd (br_a (rows ! k)) (br_b (rows ! k))) 2
         \<and> br_error (rows ! k) = fdiv \<bar>fsub (br_b (rows ! k)) (br_a (rows ! k))\<bar> 2)
    \<and> ((\<forall>row\<in>set rows. bisection_pass_exact row) \<longrightarrow>
         (\<forall>k<length rows.
              \<bar>br_b (rows ! k) - br_a (rows ! k)\<bar> = \<bar>b - a\<bar> / 2 ^ k
            \<and> br_error (rows ! k) = \<bar>b - a\<bar> / 2 ^ (k + 1)))"
proof -
  from assms(1) have br: "\<not> 0 < fmul (f a) (f b)"
    by (rule negative_product_passes)
  from bisection_method_returns[of f a b max_iter tol] br assms(3) obtain r e it rows where
    res: "bisection_method f a b max_iter tol = Inr (r, e, it, rows)" by blast
  from bisection_method_post[OF res] have ne: "rows \<noteq> []" by simp
  from res br have loop: "bisection_loop f max_iter tol 1 a b (f a) (f b) None [] = Inr (r, e, it, rows)"
    by (simp add: bisection_method_def Let_def)
  have rec: "\<forall>k<length rows.
           br_iter (rows ! k) = int k + 1
         \<and> br_c (rows ! k) = fdiv (fadd (br_a (rows ! k)) (br_b (rows ! k))) 2
         \<and> br_error (rows ! k) = fdiv \<bar>fsub (br_b (rows ! k)) (br_a (rows ! k))\<bar> 2"
    using bisection_loop_records[OF loop] by simp
  have "\<forall>k<length rows.
              \<bar>br_b (rows ! k) - br_a (rows ! k)\<bar> = \<bar>b - a\<bar> / 2 ^ k
            \<and> br_error (rows ! k) = \<bar>b - a\<bar> / 2 ^ (k + 1)"
    if ex: "\<forall>row\<in>set rows. bisection_pass_exact row"
    using bisection_loop_widths[OF loop _ _ _ _ ex, of "\<bar>b - a\<bar>"] by simp
  with res ne rec show ?thesis by blast
qed

theorem bisection_width_halves_witness:
  "ex_sq_m2 1 * ex_sq_m2 2 < 0 \<and> (0::real) < 1 / 1000 \<and> (1::int) \<le> 3
 \<and> bisection_method ex_sq_m2 1 2 3 (1 / 1000) =
     Inr (11 / 8, 7 / 64, 3,
       [\<lparr>br_iter = 1, br_a = 1, br_b = 2, br_c = 3 / 2, br_fc = 1 / 4, br_error = 1 / 2\<rparr>,
        \<lparr>br_iter = 2, br_a = 1, br_b = 3 / 2, br_c = 5 / 4, br_fc = - (7 / 16), br_error = 1 / 4\<rparr>,
        \<lparr>br_iter = 3, br_a = 5 / 4, br_b = 3 / 2, br_c = 11 / 8, br_fc = - (7 / 64), br_error = 1 / 8\<rparr>])
 \<and> bisection_pass_exact
       \<lparr>br_iter = 1, br_a = 1, br_b = 2, br_c = 3 / 2, br_fc = 1 / 4, br_error = 1 / 2\<rparr>
 \<and> bisection_pass_exact
       \<lparr>br_iter = 2, br_a = 1, br_b = 3 / 2, br_c = 5 / 4, br_fc = - (7 / 16), br_error = 1 / 4\<rparr>
 \<and> bisection_pass_exact
       \<lparr>br_iter = 3, br_a = 5 / 4, br_b = 3 / 2, br_c = 11 / 8, br_fc = - (7 / 64), br_error = 1 / 8\<rparr>
 \<and> (\<exists>x_root final iters rows.
        bisection_method ex_sq_m2 1 2 3 (1 / 1000) = Inr (x_root, final, iters, rows)
      \<and> length rows = 3
      \<and> br_error (rows ! 0) = \<bar>2 - 1\<bar> / 2 ^ 1
      \<and> br_error (rows ! 1) = \<bar>2 - 1\<bar> / 2 ^ 2
      \<and> br_error (rows ! 2) = \<bar>2 - 1\<bar> / 2 ^ 3)"
proof -
  let ?tol = "1 / 1000 :: real"
  let ?r1 = "\<lparr>br_iter = 1, br_a = 1, br_b = 2, br_c = 3 / 2, br_fc = 1 / 4, br_error = 1 / 2 :: real\<rparr>"
  let ?r2 = "\<lparr>br_iter = 2, br_a = 1, br_b = 3 / 2, br_c = 5 / 4, br_fc = - (7 / 16), br_error = 1 / 4 :: real\<rparr>"
  let ?r3 = "\<lparr>br_iter = 3, br_a = 5 / 4, br_b = 3 / 2, br_c = 11 / 8, br_fc = - (7 / 64), br_error = 1 / 8 :: real\<rparr>"
  have h1: "ex_sq_m2 1 * ex_sq_m2 2 < 0"
    by (simp add: ex_sq_m2_def dbl_eval)
  have h2: "(0::real) < 1 / 1000" and h3: "(1::int) \<le> 3" by simp_all
  have bis: "bisection_method ex_sq_m2 1 2 3 ?tol = Inr (11 / 8, 7 / 64, 3, [?r1, ?r2, ?r3])"
    by (simp add: bisection_method_def bisection_loop.simps bisection_body_def ex_sq_m2_def dbl_eval)
  have e1: "bisection_pass_exact ?r1"
    by (simp add: bisection_pass_exact_def dbl_eval)
  have e2: "bisection_pass_exact ?r2"
    by (simp add: bisection_pass_exact_def dbl_eval)
  have e3: "bisection_pass_exact ?r3"
    by (simp add: bisection_pass_exact_def dbl_eval)
  from bisection_width_halves[of ex_sq_m2 1 2 ?tol 3] h1 h2 h3 obtain r e it rows where
    b1: "bisection_method ex_sq_m2 1 2 3 ?tol = Inr (r, e, it, rows)" and
    b2: "(\<forall>row\<in>set rows. bisection_pass_exact row) \<longrightarrow>
         (\<forall>k<length rows.
              \<bar>br_b (rows ! k) - br_a (rows ! k)\<bar> = \<bar>2 - 1\<bar> / 2 ^ k
            \<and> br_error (rows ! k) = \<bar>2 - 1\<bar> / 2 ^ (k + 1))"
    by blast
  from b1 bis have rows: "rows = [?r1, ?r2, ?r3]" by simp
  with e1 e2 e3 have "\<forall>row\<in>set rows. bisection_pass_exact row" by simp
  with b2 have all: "\<forall>k<length rows. br_error (rows ! k) = \<bar>2 - 1\<bar> / 2 ^ (k + 1)"
    by blast
  have len: "length rows = 3" using rows by simp
  from all len have "br_error (rows ! 0) = \<bar>2 - 1\<bar> / 2 ^ (0 + 1)"
    and "br_error (rows ! 1) = \<bar>2 - 1\<bar> / 2 ^ (1 + 1)"
    and "br_error (rows ! 2) = \<bar>2 - 1\<bar> / 2 ^ (2 + 1)"
    by simp_all
  then have "br_error (rows ! 0) = \<bar>2 - 1\<bar> / 2 ^ 1
      \<and> br_error (rows ! 1) = \<bar>2 - 1\<bar> / 2 ^ 2
      \<and> br_error (rows ! 2) = \<bar>2 - 1\<bar> / 2 ^ 3"
    by simp
  with b1 len have "\<exists>x_root final iters rows.
        bisection_method ex_sq_m2 1 2 3 ?tol = Inr (x_root, final, iters, rows)
      \<and> length rows = 3
      \<and> br_error (rows ! 0) = \<bar>2 - 1\<bar> / 2 ^ 1
      \<and> br_error (rows ! 1) = \<bar>2 - 1\<bar> / 2 ^ 2
      \<and> br_error (rows ! 2) = \<bar>2 - 1\<bar> / 2 ^ 3"
    by blast
  with h1 h2 h3 bis e1 e2 e3 show ?thesis by blast
qed

end
